theory Spec2Isabelle
  imports Main "HOL-Library.Char_ord" "HOL-Library.List_Lexorder" "HOL-Library.Multiset"
begin

section \<open>Configuration values and their canonical serialisation\<close>

text \<open>
  The preset store of \<^verbatim>\<open>preset_util.py\<close> hashes and stores Python values built from
  scalars, lists, tuples, numpy arrays and string-keyed dictionaries. A dictionary is an
  association list in insertion order (its keys are distinct in Python). A float is carried
  by the text \<^verbatim>\<open>json.dumps\<close> prints for it; a numpy array by the list its
  \<^verbatim>\<open>tolist()\<close> returns. Strings are lists of code points below 256.
\<close>

datatype pyval =
    PNone
  | PBool bool
  | PInt int
  | PFloat string
  | PStr string
  | PList "pyval list"
  | PTuple "pyval list"
  | PArray "pyval list"
  | PDict "(string \<times> pyval) list"

datatype error =
  NameExistsError | TypeError | KeyError | IndexError | ValueError | AttributeError | StopIteration

definition digit_char :: "nat \<Rightarrow> char" where
  "digit_char d = char_of (of_char CHR ''0'' + d)"

function str_nat :: "nat \<Rightarrow> string" where
  "str_nat n = (if n < 10 then [digit_char n] else str_nat (n div 10) @ [digit_char (n mod 10)])"
  by pat_completeness auto
termination
  by (relation "measure (\<lambda>n. n)") auto

declare str_nat.simps [simp del]

definition str_int :: "int \<Rightarrow> string" where
  "str_int i = (if i < 0 then CHR ''-'' # str_nat (nat (- i)) else str_nat (nat i))"

definition hex_char :: "nat \<Rightarrow> char" where
  "hex_char d = (if d < 10 then digit_char d else char_of (of_char CHR ''a'' + (d - 10)))"

definition escape_char :: "char \<Rightarrow> string" where
  "escape_char c =
     (if c = CHR 0x22 then [CHR 0x5C, CHR 0x22]
      else if c = CHR 0x5C then [CHR 0x5C, CHR 0x5C]
      else if c = CHR 0x0A then [CHR 0x5C, CHR ''n'']
      else if c = CHR 0x0D then [CHR 0x5C, CHR ''r'']
      else if c = CHR 0x09 then [CHR 0x5C, CHR ''t'']
      else if c = CHR 0x08 then [CHR 0x5C, CHR ''b'']
      else if c = CHR 0x0C then [CHR 0x5C, CHR ''f'']
      else if (of_char c :: nat) < 32 \<or> (of_char c :: nat) > 126
        then [CHR 0x5C, CHR ''u'', CHR ''0'', CHR ''0'',
              hex_char ((of_char c :: nat) div 16), hex_char ((of_char c :: nat) mod 16)]
      else [c])"

definition encode_basestring_ascii :: "string \<Rightarrow> string" where
  "encode_basestring_ascii s = [CHR 0x22] @ concat (map escape_char s) @ [CHR 0x22]"

fun join :: "string \<Rightarrow> string list \<Rightarrow> string" where
  "join sep [] = []"
| "join sep [x] = x"
| "join sep (x # y # ys) = x @ sep @ join sep (y # ys)"

fun serializable :: "pyval \<Rightarrow> bool" where
  "serializable (PList xs) = (\<forall>x \<in> set xs. serializable x)"
| "serializable (PTuple xs) = (\<forall>x \<in> set xs. serializable x)"
| "serializable (PArray xs) = False"
| "serializable (PDict kvs) = (\<forall>kv \<in> set kvs. serializable (snd kv))"
| "serializable _ = True"

fun dumps_text :: "bool \<Rightarrow> pyval \<Rightarrow> string" where
  "dumps_text sk PNone = ''null''"
| "dumps_text sk (PBool b) = (if b then ''true'' else ''false'')"
| "dumps_text sk (PInt i) = str_int i"
| "dumps_text sk (PFloat r) = r"
| "dumps_text sk (PStr s) = encode_basestring_ascii s"
| "dumps_text sk (PList xs) = ''['' @ join '', '' (map (dumps_text sk) xs) @ '']''"
| "dumps_text sk (PTuple xs) = ''['' @ join '', '' (map (dumps_text sk) xs) @ '']''"
| "dumps_text sk (PArray xs) = []"
| "dumps_text sk (PDict kvs) =
     (let items = map (\<lambda>kv. (fst kv, dumps_text sk (snd kv))) kvs;
          items' = (if sk then sort_key fst items else items)
      in ''{'' @ join '', '' (map (\<lambda>kt. encode_basestring_ascii (fst kt) @ '': '' @ snd kt) items') @ ''}'')"

definition dumps :: "bool \<Rightarrow> pyval \<Rightarrow> error + string" where
  "dumps sk v = (if serializable v then Inr (dumps_text sk v) else Inl TypeError)"


section \<open>Content hashing\<close>

text \<open>
  \<^verbatim>\<open>immutable_dict\<close> rebuilds a dictionary, recursing into dictionary values and turning
  list and array values into tuples. \<^verbatim>\<open>hash_dict\<close> serialises the result with sorted keys
  and feeds the text to SHA-256 in blocks of \<^verbatim>\<open>chunk_size\<close> bytes. The digest function
  itself is a parameter \<open>sha\<close>; the hash object is modelled by the bytes it has been fed.
\<close>

fun immutable_value :: "pyval \<Rightarrow> pyval" where
  "immutable_value (PDict kvs) = PDict (map (\<lambda>kv. (fst kv, immutable_value (snd kv))) kvs)"
| "immutable_value (PList xs) = PTuple xs"
| "immutable_value (PArray xs) = PTuple xs"
| "immutable_value v = v"

definition immutable_dict :: "(string \<times> pyval) list \<Rightarrow> (string \<times> pyval) list" where
  "immutable_dict data_dict = map (\<lambda>kv. (fst kv, immutable_value (snd kv))) data_dict"

function read_blocks :: "nat \<Rightarrow> string \<Rightarrow> string list" where
  "read_blocks chunk_size s =
     (if chunk_size = 0 \<or> s = [] then []
      else take chunk_size s # read_blocks chunk_size (drop chunk_size s))"
  by pat_completeness auto
termination
  by (relation "measure (\<lambda>(c, s). length s)") auto

declare read_blocks.simps [simp del]

definition sha256_update :: "string \<Rightarrow> string \<Rightarrow> string" where
  "sha256_update st block = st @ block"

definition hash_bytes :: "(string \<Rightarrow> string) \<Rightarrow> nat \<Rightarrow> string \<Rightarrow> string" where
  "hash_bytes sha chunk_size hash_string =
     sha (fold (\<lambda>byte_block st. sha256_update st byte_block) (read_blocks chunk_size hash_string) [])"

definition hash_dict :: "(string \<Rightarrow> string) \<Rightarrow> nat \<Rightarrow> (string \<times> pyval) list \<Rightarrow> error + string" where
  "hash_dict sha chunk_size data_dict =
     (case dumps True (PDict (immutable_dict data_dict)) of
        Inl e \<Rightarrow> Inl e
      | Inr hash_string \<Rightarrow> Inr (hash_bytes sha chunk_size hash_string))"

definition hash_list :: "(string \<Rightarrow> string) \<Rightarrow> nat \<Rightarrow> pyval list \<Rightarrow> error + string" where
  "hash_list sha chunk_size data_list =
     (case dumps False (PTuple data_list) of
        Inl e \<Rightarrow> Inl e
      | Inr hash_string \<Rightarrow> Inr (hash_bytes sha chunk_size hash_string))"

fun seq_elems :: "pyval \<Rightarrow> pyval list option" where
  "seq_elems (PList xs) = Some xs"
| "seq_elems (PTuple xs) = Some xs"
| "seq_elems (PArray xs) = Some xs"
| "seq_elems _ = None"

inductive same_content :: "pyval \<Rightarrow> pyval \<Rightarrow> bool" where
  sc_refl: "same_content v v"
| sc_seq: "seq_elems v = Some xs \<Longrightarrow> seq_elems w = Some xs \<Longrightarrow> same_content v w"
| sc_dict: "mset d' = mset d1 \<Longrightarrow> distinct (map fst d1) \<Longrightarrow>
            list_all2 (\<lambda>a b. fst a = fst b \<and> same_content (snd a) (snd b)) d' d2 \<Longrightarrow>
            same_content (PDict d1) (PDict d2)"


section \<open>Preset names\<close>

text \<open>
  The regular-expression tests of \<^verbatim>\<open>is_string_blank\<close>, \<^verbatim>\<open>string_has_space\<close> and
  \<^verbatim>\<open>string_startswith_space\<close> search for the first word character (\<^verbatim>\<open>\w\<close>) or
  whitespace character (\<^verbatim>\<open>\s\<close>); \<open>re_search\<close> returns the position of the first
  match. The classes \<^verbatim>\<open>\w\<close> and \<^verbatim>\<open>\s\<close> are the Unicode ones, here on the code points
  below 256; \<^verbatim>\<open>upper\<close> returns the code points of the upper-cased string, three of which
  lie beyond 255. \<^verbatim>\<open>int\<close> strips the whitespace of \<open>is_int_space\<close>, which lacks the
  separators 28 to 31.
  \<^verbatim>\<open>get_match_series_highest\<close> builds the next name of a series \<^verbatim>\<open>NAME.001\<close>,
  \<^verbatim>\<open>NAME.002\<close>, ...; \<^verbatim>\<open>int\<close> raises \<^verbatim>\<open>ValueError\<close> on a component that
  is not a number.
\<close>

definition is_word_char :: "char \<Rightarrow> bool" where
  "is_word_char c =
     (let n = (of_char c :: nat)
      in (48 \<le> n \<and> n \<le> 57) \<or> (65 \<le> n \<and> n \<le> 90) \<or> (97 \<le> n \<and> n \<le> 122) \<or> n = 95 \<or>
         n = 170 \<or> n = 178 \<or> n = 179 \<or> n = 181 \<or> n = 185 \<or> n = 186 \<or>
         (188 \<le> n \<and> n \<le> 190) \<or> (192 \<le> n \<and> n \<le> 214) \<or> (216 \<le> n \<and> n \<le> 246) \<or>
         (248 \<le> n \<and> n \<le> 255))"

definition is_space_char :: "char \<Rightarrow> bool" where
  "is_space_char c =
     (let n = (of_char c :: nat)
      in (9 \<le> n \<and> n \<le> 13) \<or> (28 \<le> n \<and> n \<le> 32) \<or> n = 133 \<or> n = 160)"

definition is_int_space :: "char \<Rightarrow> bool" where
  "is_int_space c =
     (let n = (of_char c :: nat)
      in (9 \<le> n \<and> n \<le> 13) \<or> n = 32 \<or> n = 133 \<or> n = 160)"

fun re_search :: "(char \<Rightarrow> bool) \<Rightarrow> string \<Rightarrow> nat option" where
  "re_search p [] = None"
| "re_search p (c # cs) = (if p c then Some 0 else map_option Suc (re_search p cs))"

definition is_string_blank :: "string \<Rightarrow> bool" where
  "is_string_blank text = (case re_search is_word_char text of None \<Rightarrow> True | Some s \<Rightarrow> False)"

definition string_has_space :: "string \<Rightarrow> bool" where
  "string_has_space text = (case re_search is_space_char text of None \<Rightarrow> False | Some s \<Rightarrow> True)"

definition string_startswith_space :: "string \<Rightarrow> bool" where
  "string_startswith_space text =
     (case re_search is_space_char text of None \<Rightarrow> False | Some s \<Rightarrow> if s = 0 then True else False)"

definition upper_char :: "char \<Rightarrow> nat list" where
  "upper_char c =
     (let n = (of_char c :: nat)
      in if 97 \<le> n \<and> n \<le> 122 then [n - 32]
         else if n = 181 then [924]
         else if n = 223 then [83, 83]
         else if n = 255 then [376]
         else if (224 \<le> n \<and> n \<le> 246) \<or> (248 \<le> n \<and> n \<le> 254) then [n - 32]
         else [n])"

definition upper :: "string \<Rightarrow> nat list" where
  "upper s = concat (map upper_char s)"

definition code_points :: "string \<Rightarrow> nat list" where
  "code_points s = map of_char s"

fun split_on :: "char \<Rightarrow> string \<Rightarrow> string list" where
  "split_on d [] = [[]]"
| "split_on d (c # cs) =
     (if c = d then [] # split_on d cs
      else (case split_on d cs of [] \<Rightarrow> [[c]] | w # ws \<Rightarrow> (c # w) # ws))"

definition is_digit :: "char \<Rightarrow> bool" where
  "is_digit c = (let n = (of_char c :: nat) in 48 \<le> n \<and> n \<le> 57)"

definition strip :: "string \<Rightarrow> string" where
  "strip s = rev (dropWhile is_int_space (rev (dropWhile is_int_space s)))"

fun digits_value :: "nat \<Rightarrow> bool \<Rightarrow> string \<Rightarrow> nat option" where
  "digits_value acc after_digit [] = (if after_digit then Some acc else None)"
| "digits_value acc after_digit (c # cs) =
     (if is_digit c then digits_value (acc * 10 + (of_char c - 48)) True cs
      else if c = CHR ''_'' \<and> after_digit \<and> cs \<noteq> [] \<and> is_digit (hd cs) then digits_value acc False cs
      else None)"

definition py_int :: "string \<Rightarrow> error + int" where
  "py_int text =
     (let s = strip text;
          (neg, body) = (case s of [] \<Rightarrow> (False, [])
                         | c # cs \<Rightarrow> if c = CHR ''-'' then (True, cs)
                                     else if c = CHR ''+'' then (False, cs) else (False, s))
      in case digits_value 0 False body of
           None \<Rightarrow> Inl ValueError
         | Some n \<Rightarrow> Inr (if neg then - int n else int n))"

definition zfill :: "nat \<Rightarrow> string \<Rightarrow> string" where
  "zfill width s = replicate (width - length s) CHR ''0'' @ s"

fun get_max_series_num_from :: "int \<Rightarrow> string \<Rightarrow> string option list \<Rightarrow> error + int" where
  "get_max_series_num_from num name [] = Inr num"
| "get_max_series_num_from num name (n # data) =
     (case n of
        None \<Rightarrow> get_max_series_num_from num name data
      | Some s \<Rightarrow>
          if s = [] then get_max_series_num_from num name data
          else (let ns = split_on CHR ''.'' s in
                if hd ns = hd (split_on CHR ''.'' name) then
                  (if length ns > 1 then
                     (case py_int (ns ! 1) of
                        Inl e \<Rightarrow> Inl e
                      | Inr i \<Rightarrow> get_max_series_num_from (if i > num then i else num) name data)
                   else get_max_series_num_from num name data)
                else get_max_series_num_from num name data))"

definition get_max_series_num :: "string \<Rightarrow> string option list \<Rightarrow> error + int" where
  "get_max_series_num name data = get_max_series_num_from 0 name data"

definition get_match_series_highest :: "string \<Rightarrow> string option list \<Rightarrow> error + string" where
  "get_match_series_highest name data =
     (case get_max_series_num name data of
        Inl e \<Rightarrow> Inl e
      | Inr ms \<Rightarrow> Inr (hd (split_on CHR ''.'' name) @ ''.'' @ zfill 3 (str_int (ms + 1))))"

section \<open>Node graphs and their structural scan\<close>

text \<open>
  A live node of the host application is known to the store by its identity
  (\<open>node_ident\<close>, what \<^verbatim>\<open>==\<close> on two node objects compares), its name, its type, the
  value its codec of \<^verbatim>\<open>get_nodes_func_dict\<close> reads from it (\<open>node_state\<close>), and, for a
  node of type \<^verbatim>\<open>GROUP\<close>, the nodes and links of its nested tree. A link is the pair of
  the identities of its \<^verbatim>\<open>from_node\<close> and \<^verbatim>\<open>to_node\<close>. A node tree is the pair of its
  nodes and its links.
\<close>

datatype node =
  Node (node_ident: nat) (node_name: string) (node_type: string)
       (node_state: "(string \<times> pyval) list")
       (group_nodes: "node list") (group_links: "(nat \<times> nat) list")

type_synonym node_tree = "node list \<times> (nat \<times> nat) list"

definition path_val :: "nat list \<Rightarrow> pyval" where
  "path_val idx = PList (map (\<lambda>i. PInt (int i)) idx)"

function get_node_structure_list :: "node list \<Rightarrow> string \<Rightarrow> nat list \<Rightarrow> nat \<Rightarrow> nat list list" where
  "get_node_structure_list [] ntype parent i = []"
| "get_node_structure_list (node # nodes) ntype parent i =
     (let data = parent @ [i] in
        (if node_type node = ntype then [data] else []) @
        (if node_type node = ''GROUP''
           then get_node_structure_list (group_nodes node) ntype data 0 else []) @
        get_node_structure_list nodes ntype parent (Suc i))"
  by pat_completeness auto
termination
  by (relation "measure (\<lambda>(nodes, ntype, parent, i). size_list size nodes)")
     (auto, case_tac node, auto)

definition slice_dict :: "string \<Rightarrow> string list" where
  "slice_dict classification =
     (if classification = ''Geometry_Node''
        then [''CURVE_FLOAT'', ''VALTORGB'', ''CURVE_VEC'', ''CURVE_RGB'', ''INPUT_COLOR'']
      else [''RGB'', ''CURVE_FLOAT'', ''VALTORGB'', ''CURVE_VEC'', ''CURVE_RGB''])"

definition node_type_dict :: "node_tree \<Rightarrow> string \<Rightarrow> (string \<times> pyval) list" where
  "node_type_dict node_group classification =
     (let data = map (\<lambda>node_type. (node_type, get_node_structure_list (fst node_group) node_type [] 0))
                     (slice_dict classification)
      in map (\<lambda>kv. (fst kv, PList (map path_val (snd kv)))) (filter (\<lambda>kv. length (snd kv) > 0) data))"

record node_dict =
  nd_indices :: "nat list list"
  nd_types :: "string list"
  nd_links :: "(nat list \<times> nat list) list"
  nd_nodes :: "nat list"

function node_scan :: "node list \<Rightarrow> node_dict \<Rightarrow> nat list \<Rightarrow> nat \<Rightarrow> node_dict" where
  "node_scan [] nd index i = nd"
| "node_scan (node # nodes) nd index i =
     (let idx = index @ [i];
          nd1 = nd\<lparr>nd_indices := nd_indices nd @ [idx],
                   nd_nodes := nd_nodes nd @ [node_ident node],
                   nd_types := nd_types nd @ [node_type node]\<rparr>;
          nd2 = (if node_type node = ''GROUP'' then node_scan (group_nodes node) nd1 idx 0 else nd1)
      in node_scan nodes nd2 index (Suc i))"
  by pat_completeness auto
termination
  by (relation "measure (\<lambda>(nodes, nd, index, i). size_list size nodes)")
     (auto, case_tac node, auto)

fun last_index :: "nat list \<Rightarrow> nat \<Rightarrow> nat \<Rightarrow> nat option \<Rightarrow> nat option" where
  "last_index [] x i found = found"
| "last_index (n # ns) x i found = last_index ns x (Suc i) (if x = n then Some i else found)"

fun link_scan_links :: "(nat \<times> nat) list \<Rightarrow> node_dict \<Rightarrow> error + node_dict" where
  "link_scan_links [] nd = Inr nd"
| "link_scan_links (l # links) nd =
     (case (last_index (nd_nodes nd) (fst l) 0 None, last_index (nd_nodes nd) (snd l) 0 None) of
        (Some fn, Some tn) \<Rightarrow>
          link_scan_links links
            (nd\<lparr>nd_links := nd_links nd @ [(nd_indices nd ! fn, nd_indices nd ! tn)]\<rparr>)
      | _ \<Rightarrow> Inl TypeError)"

function node_link_scan :: "node_tree \<Rightarrow> node_dict \<Rightarrow> error + node_dict"
  and node_link_scan_groups :: "node list \<Rightarrow> node_dict \<Rightarrow> error + node_dict" where
  "node_link_scan node_group nd =
     (case link_scan_links (snd node_group) nd of
        Inl e \<Rightarrow> Inl e
      | Inr nd1 \<Rightarrow> node_link_scan_groups (fst node_group) nd1)"
| "node_link_scan_groups [] nd = Inr nd"
| "node_link_scan_groups (node # nodes) nd =
     (if node_type node = ''GROUP'' then
        (case node_link_scan (group_nodes node, group_links node) nd of
           Inl e \<Rightarrow> Inl e
         | Inr nd1 \<Rightarrow> node_link_scan_groups nodes nd1)
      else node_link_scan_groups nodes nd)"
  by pat_completeness auto
termination
  by (relation "measure (\<lambda>x. case x of Inl (t, nd) \<Rightarrow> Suc (size_list size (fst t))
                                        | Inr (ns, nd) \<Rightarrow> size_list size ns)")
     (auto, case_tac node, auto)

definition get_all_nodes :: "node_tree \<Rightarrow> error + (string \<times> pyval) list" where
  "get_all_nodes node_group =
     (let nd0 = \<lparr>nd_indices = [], nd_types = [], nd_links = [], nd_nodes = []\<rparr>;
          nd1 = node_scan (fst node_group) nd0 [] 0
      in case node_link_scan node_group nd1 of
           Inl e \<Rightarrow> Inl e
         | Inr nd \<Rightarrow>
             Inr [(''indices'', PList (map (\<lambda>idx. PList [path_val idx]) (nd_indices nd))),
                  (''types'', PList (map PStr (nd_types nd))),
                  (''links'', PList (map (\<lambda>l. PList [path_val (fst l), path_val (snd l)]) (nd_links nd)))])"

section \<open>The record store\<close>

text \<open>
  The HDF5 file is a set of groups addressed by path, each an ordered list of named
  datasets with attributes, and the string arrays \<^verbatim>\<open>/PRESETS/<node type>\<close> that index the
  node records of a type. A dataset written as the one-element array
  \<^verbatim>\<open>[dumps(v)]\<close> and read back with \<^verbatim>\<open>loads\<close> is represented by the value
  \<^verbatim>\<open>loads\<close> returns, \<open>json_value v\<close>. An operation on the open file returns the file as
  it has become together with its value or the exception it raised.
\<close>

datatype payload =
    JsonText pyval
  | StrArray "string list"
  | StrRows "string list list"
  | NumArray pyval

record dataset =
  ds_data :: payload
  ds_attrs :: "string \<rightharpoonup> string"

type_synonym h5group = "(string \<times> dataset) list"

record hfdb =
  groups :: "string \<Rightarrow> h5group"
  arrays :: "string \<rightharpoonup> string list"

type_synonym 'a result = "hfdb \<times> (error + 'a)"

definition bind :: "'a result \<Rightarrow> ('a \<Rightarrow> hfdb \<Rightarrow> 'b result) \<Rightarrow> 'b result" where
  "bind r f = (case r of (hf, Inl e) \<Rightarrow> (hf, Inl e) | (hf, Inr a) \<Rightarrow> f a hf)"

definition keys :: "h5group \<Rightarrow> string list" where
  "keys g = map fst g"

definition get_names :: "h5group \<Rightarrow> string option list" where
  "get_names pfile = map (\<lambda>n. ds_attrs (snd n) ''name'') pfile"

definition create_dataset :: "string \<Rightarrow> string \<Rightarrow> payload \<Rightarrow> hfdb \<Rightarrow> hfdb" where
  "create_dataset path name data hf =
     hf\<lparr>groups := (groups hf)(path := groups hf path @ [(name, \<lparr>ds_data = data, ds_attrs = Map.empty\<rparr>)])\<rparr>"

definition update_entry :: "string \<Rightarrow> (dataset \<Rightarrow> dataset) \<Rightarrow> h5group \<Rightarrow> h5group" where
  "update_entry name f g = map (\<lambda>kd. if fst kd = name then (fst kd, f (snd kd)) else kd) g"

definition with_attr :: "string \<Rightarrow> string \<Rightarrow> dataset \<Rightarrow> dataset" where
  "with_attr attr v d = d\<lparr>ds_attrs := (ds_attrs d)(attr \<mapsto> v)\<rparr>"

definition with_data :: "payload \<Rightarrow> dataset \<Rightarrow> dataset" where
  "with_data data d = d\<lparr>ds_data := data\<rparr>"

definition set_attr :: "string \<Rightarrow> string \<Rightarrow> string \<Rightarrow> string \<Rightarrow> hfdb \<Rightarrow> hfdb" where
  "set_attr path name attr v hf =
     hf\<lparr>groups := (groups hf)(path := update_entry name (with_attr attr v) (groups hf path))\<rparr>"

definition set_data :: "string \<Rightarrow> string \<Rightarrow> payload \<Rightarrow> hfdb \<Rightarrow> hfdb" where
  "set_data path name data hf =
     hf\<lparr>groups := (groups hf)(path := update_entry name (with_data data) (groups hf path))\<rparr>"

fun json_value :: "pyval \<Rightarrow> pyval" where
  "json_value (PList xs) = PList (map json_value xs)"
| "json_value (PTuple xs) = PList (map json_value xs)"
| "json_value (PDict kvs) = PDict (map (\<lambda>kv. (fst kv, json_value (snd kv))) kvs)"
| "json_value v = v"

definition json_text :: "pyval \<Rightarrow> error + payload" where
  "json_text v = (if serializable v then Inr (JsonText (json_value v)) else Inl TypeError)"

definition loads :: "payload \<Rightarrow> error + pyval" where
  "loads d = (case d of JsonText v \<Rightarrow> Inr v | _ \<Rightarrow> Inl TypeError)"

definition str_array :: "payload \<Rightarrow> error + string list" where
  "str_array d = (case d of StrArray xs \<Rightarrow> Inr xs | _ \<Rightarrow> Inl TypeError)"

definition unique_name :: "string \<Rightarrow> string \<Rightarrow> hfdb \<Rightarrow> error + string" where
  "unique_name path suggested_name hf =
     (if Some suggested_name \<in> set (get_names (groups hf path))
        then get_match_series_highest suggested_name (get_names (groups hf path))
      else Inr suggested_name)"

datatype asset_class = Material | Geometry_Node

definition class_name :: "asset_class \<Rightarrow> string" where
  "class_name cls = (case cls of Material \<Rightarrow> ''Material'' | Geometry_Node \<Rightarrow> ''Geometry_Node'')"

definition type_file :: "asset_class \<Rightarrow> string \<Rightarrow> string" where
  "type_file cls table =
     (case cls of Material \<Rightarrow> ''/PRESETS/MATERIALS/'' | Geometry_Node \<Rightarrow> ''/PRESETS/GEOMETRY_NODES/'') @ table"

definition node_type_abbr_dict :: "string \<rightharpoonup> string" where
  "node_type_abbr_dict =
     [''RGB'' \<mapsto> ''RB'', ''CURVE_FLOAT'' \<mapsto> ''FC'', ''VALTORGB'' \<mapsto> ''CR'',
      ''CURVE_VEC'' \<mapsto> ''VC'', ''CURVE_RGB'' \<mapsto> ''RC'', ''INPUT_COLOR'' \<mapsto> ''IC'']"

definition get_nodes_func :: "string \<Rightarrow> node \<Rightarrow> error + (string \<times> pyval) list" where
  "get_nodes_func ntype node =
     (if node_type node = ntype then Inr (node_state node) else Inl AttributeError)"

definition py_index :: "'a list \<Rightarrow> pyval \<Rightarrow> error + 'a" where
  "py_index xs i =
     (case i of
        PInt j \<Rightarrow>
          (let n = int (length xs); k = (if j < 0 then n + j else j)
           in if 0 \<le> k \<and> k < n then Inr (xs ! nat k) else Inl IndexError)
      | _ \<Rightarrow> Inl TypeError)"

fun find_node :: "node list \<Rightarrow> string \<Rightarrow> error + node" where
  "find_node [] name = Inl KeyError"
| "find_node (n # ns) name = (if node_name n = name then Inr n else find_node ns name)"

definition format_key :: "pyval \<Rightarrow> error + string" where
  "format_key g = (case g of PInt i \<Rightarrow> Inr (str_int i) | PStr s \<Rightarrow> Inr s | _ \<Rightarrow> Inl KeyError)"

fun get_group_groups :: "node list \<Rightarrow> pyval list \<Rightarrow> error + node" where
  "get_group_groups nodes [] = Inl AttributeError"
| "get_group_groups nodes (g # rest) =
     (case format_key g of
        Inl e \<Rightarrow> Inl e
      | Inr name \<Rightarrow>
          (case find_node nodes name of
             Inl e \<Rightarrow> Inl e
           | Inr n \<Rightarrow>
               if rest = [] then Inr n
               else if node_type n = ''GROUP'' then get_group_groups (group_nodes n) rest
               else Inl AttributeError))"

definition as_list :: "pyval \<Rightarrow> error + pyval list" where
  "as_list v = (case v of PList xs \<Rightarrow> Inr xs | _ \<Rightarrow> Inl TypeError)"

definition as_dict :: "pyval \<Rightarrow> error + (string \<times> pyval) list" where
  "as_dict v = (case v of PDict kvs \<Rightarrow> Inr kvs | _ \<Rightarrow> Inl TypeError)"

definition get_special_node :: "asset_class \<Rightarrow> node_tree \<Rightarrow> pyval \<Rightarrow> error + node" where
  "get_special_node cls node_group node =
     (case as_list node of
        Inl e \<Rightarrow> Inl e
      | Inr addr \<Rightarrow>
          if length addr = 1 then py_index (fst node_group) (hd addr)
          else if addr = [] \<and> cls = Geometry_Node then Inl IndexError
          else get_group_groups (fst node_group) addr)"

definition info_step ::
  "asset_class \<Rightarrow> node_tree \<Rightarrow> string \<Rightarrow> string \<Rightarrow> string \<Rightarrow> hfdb \<Rightarrow> pyval result" where
  "info_step cls node_group name user gid hf =
     (if gid \<notin> set (keys (groups hf (type_file cls ''INFO''))) then
        (let ntd = PDict (node_type_dict node_group (class_name cls)) in
         case json_text ntd of
           Inl e \<Rightarrow> (hf, Inl e)
         | Inr text \<Rightarrow>
             (set_attr (type_file cls ''INFO'') gid ''user'' user
               (set_attr (type_file cls ''INFO'') gid ''class'' (class_name cls)
                 (set_attr (type_file cls ''INFO'') gid ''name'' (hd (split_on CHR ''.'' name))
                   (create_dataset (type_file cls ''INFO'') gid text hf))),
              Inr ntd))
      else (case map_of (groups hf (type_file cls ''INFO'')) gid of
              None \<Rightarrow> (hf, Inl KeyError)
            | Some minfo \<Rightarrow> (hf, loads (ds_data minfo))))"

definition data_step ::
  "asset_class \<Rightarrow> pyval \<Rightarrow> string \<Rightarrow> string \<Rightarrow> hfdb \<Rightarrow> unit result" where
  "data_step cls node_values values_id preset_name hf =
     (if values_id \<notin> set (keys (groups hf (type_file cls ''DATA''))) then
        (case json_text node_values of
           Inl e \<Rightarrow> (hf, Inl e)
         | Inr text \<Rightarrow>
             (let hf1 = create_dataset (type_file cls ''DATA'') values_id text hf in
              case unique_name (type_file cls ''DATA'') preset_name hf1 of
                Inl e \<Rightarrow> (hf1, Inl e)
              | Inr values_name \<Rightarrow>
                  (set_attr (type_file cls ''DATA'') values_id ''name'' values_name hf1, Inr ())))
      else (hf, Inr ()))"

definition store_node ::
  "string \<Rightarrow> (string \<times> pyval) list \<Rightarrow> string \<Rightarrow> string \<Rightarrow> nat \<Rightarrow> hfdb \<Rightarrow> nat result" where
  "store_node ntype data nid suggested ct hf =
     (if nid \<notin> set (keys (groups hf ''/NODES'')) then
        (case json_text (PDict data) of
           Inl e \<Rightarrow> (hf, Inl e)
         | Inr text \<Rightarrow>
             (let hf1 = create_dataset ''/NODES'' nid text hf in
              case unique_name ''/NODES'' suggested hf1 of
                Inl e \<Rightarrow> (hf1, Inl e)
              | Inr suggested_name \<Rightarrow>
                  (set_attr ''/NODES'' nid ''type'' ntype
                     (set_attr ''/NODES'' nid ''name'' suggested_name hf1), Inr (Suc ct))))
      else (hf, Inr ct))"

definition register_node :: "string \<Rightarrow> string \<Rightarrow> hfdb \<Rightarrow> unit result" where
  "register_node ngroup_name nid hf =
     (case arrays hf ngroup_name of
        None \<Rightarrow> (hf, Inl KeyError)
      | Some ids \<Rightarrow>
          (if nid \<notin> set ids then hf\<lparr>arrays := (arrays hf)(ngroup_name \<mapsto> ids @ [nid])\<rparr> else hf,
           Inr ()))"

fun node_loop ::
  "asset_class \<Rightarrow> (string \<Rightarrow> string) \<Rightarrow> node_tree \<Rightarrow> string \<Rightarrow> string \<Rightarrow> pyval list \<Rightarrow> nat \<Rightarrow> string list \<Rightarrow>
   hfdb \<Rightarrow> (string list) result" where
  "node_loop cls sha node_group ntype abbr [] ct nis hf = (hf, Inr nis)"
| "node_loop cls sha node_group ntype abbr (node # nodes) ct nis hf =
     (case get_special_node cls node_group node of
        Inl e \<Rightarrow> (hf, Inl e)
      | Inr n \<Rightarrow>
          (case get_nodes_func ntype n of
             Inl e \<Rightarrow> (hf, Inl e)
           | Inr data \<Rightarrow>
               (case hash_dict sha 1024 data of
                  Inl e \<Rightarrow> (hf, Inl e)
                | Inr nid \<Rightarrow>
                    bind (store_node ntype data nid (abbr @ ''_'' @ str_nat ct) ct hf)
                      (\<lambda>ct1 hf1. bind (register_node (''/PRESETS/'' @ ntype) nid hf1)
                         (\<lambda>_ hf2. node_loop cls sha node_group ntype abbr nodes ct1 (nis @ [nid]) hf2)))))"

fun dict_update :: "(string \<times> 'a) list \<Rightarrow> string \<Rightarrow> 'a \<Rightarrow> (string \<times> 'a) list" where
  "dict_update [] k v = [(k, v)]"
| "dict_update (kv # kvs) k v = (if fst kv = k then (k, v) # kvs else kv # dict_update kvs k v)"

fun nodes_step ::
  "asset_class \<Rightarrow> (string \<Rightarrow> string) \<Rightarrow> node_tree \<Rightarrow> (string \<times> pyval) list \<Rightarrow> (string \<times> pyval) list \<Rightarrow>
   hfdb \<Rightarrow> ((string \<times> pyval) list) result" where
  "nodes_step cls sha node_group [] node_ids hf = (hf, Inr node_ids)"
| "nodes_step cls sha node_group (kv # ntd) node_ids hf =
     (case node_type_abbr_dict (fst kv) of
        None \<Rightarrow> (hf, Inl KeyError)
      | Some abbr \<Rightarrow>
          (case arrays hf (''/PRESETS/'' @ fst kv) of
             None \<Rightarrow> (hf, Inl KeyError)
           | Some ids \<Rightarrow>
               (case as_list (snd kv) of
                  Inl e \<Rightarrow> (hf, Inl e)
                | Inr nodes \<Rightarrow>
                    bind (node_loop cls sha node_group (fst kv) abbr nodes (length ids) [] hf)
                      (\<lambda>nis hf1. nodes_step cls sha node_group ntd
                                     (dict_update node_ids (fst kv) (PList (map PStr nis))) hf1))))"

definition node_stack_step :: "(string \<Rightarrow> string) \<Rightarrow> (string \<times> pyval) list \<Rightarrow> hfdb \<Rightarrow> string result" where
  "node_stack_step sha node_ids hf =
     (case hash_dict sha 1024 node_ids of
        Inl e \<Rightarrow> (hf, Inl e)
      | Inr ni_id \<Rightarrow>
          if ni_id \<notin> set (keys (groups hf ''/NODE_STACK'')) then
            (case json_text (PDict node_ids) of
               Inl e \<Rightarrow> (hf, Inl e)
             | Inr text \<Rightarrow> (create_dataset ''/NODE_STACK'' ni_id text hf, Inr ni_id))
          else (hf, Inr ni_id))"

definition transaction_step ::
  "asset_class \<Rightarrow> (string \<Rightarrow> string) \<Rightarrow> string \<Rightarrow> string \<Rightarrow> string \<Rightarrow> string \<Rightarrow> hfdb \<Rightarrow>
   (string \<times> string option) result" where
  "transaction_step cls sha gid values_id ni_id preset_name hf =
     (case hash_list sha 1024 [PStr gid, PStr values_id, PStr ni_id] of
        Inl e \<Rightarrow> (hf, Inl e)
      | Inr pid \<Rightarrow>
          if pid \<notin> set (keys (groups hf (type_file cls ''TRANSACTIONS''))) then
            (set_attr (type_file cls ''TRANSACTIONS'') pid ''name'' preset_name
               (create_dataset (type_file cls ''TRANSACTIONS'') pid (StrRows [[gid, values_id, ni_id]]) hf),
             Inr (pid, Some preset_name))
          else (case map_of (groups hf (type_file cls ''TRANSACTIONS'')) pid of
                  None \<Rightarrow> (hf, Inl KeyError)
                | Some pdata \<Rightarrow> (hf, Inr (pid, ds_attrs pdata ''name''))))"

definition append_id :: "string \<Rightarrow> string \<Rightarrow> string \<Rightarrow> hfdb \<Rightarrow> bool result" where
  "append_id path name x hf =
     (case map_of (groups hf path) name of
        None \<Rightarrow> (hf, Inl KeyError)
      | Some d \<Rightarrow>
          (case str_array (ds_data d) of
             Inl e \<Rightarrow> (hf, Inl e)
           | Inr xs \<Rightarrow>
               if x \<notin> set xs then (set_data path name (StrArray (xs @ [x])) hf, Inr True)
               else (hf, Inr False)))"

definition links_step ::
  "asset_class \<Rightarrow> string \<Rightarrow> string \<Rightarrow> string \<Rightarrow> hfdb \<Rightarrow> bool result" where
  "links_step cls gid values_id pid hf =
     (if gid \<notin> set (keys (groups hf (type_file cls ''FULL''))) then
        (if gid \<in> set (keys (groups hf (type_file cls ''VALUES''))) then
           (create_dataset (type_file cls ''FULL'') gid (StrArray [pid]) hf, Inl ValueError)
         else
           (create_dataset (type_file cls ''VALUES'') gid (StrArray [values_id])
              (create_dataset (type_file cls ''FULL'') gid (StrArray [pid]) hf), Inr True))
      else
        bind (append_id (type_file cls ''FULL'') gid pid hf)
          (\<lambda>preset_saved hf1. bind (append_id (type_file cls ''VALUES'') gid values_id hf1)
             (\<lambda>_ hf2. (hf2, Inr preset_saved))))"

definition preset_processing ::
  "asset_class \<Rightarrow> (string \<Rightarrow> string) \<Rightarrow> hfdb \<Rightarrow> node_tree \<Rightarrow> string \<Rightarrow> pyval \<Rightarrow> error + string \<Rightarrow>
   string \<Rightarrow> string \<Rightarrow> (bool \<times> string option) result" where
  "preset_processing cls sha hf node_group name node_values values_hash preset_name user =
     (if Some preset_name \<in> set (get_names (groups hf (type_file cls ''TRANSACTIONS'')))
        then (hf, Inl NameExistsError)
      else
        (case get_all_nodes node_group of
           Inl e \<Rightarrow> (hf, Inl e)
         | Inr scan \<Rightarrow>
        (case hash_dict sha 1024 scan of
           Inl e \<Rightarrow> (hf, Inl e)
         | Inr gid \<Rightarrow>
        (case values_hash of
           Inl e \<Rightarrow> (hf, Inl e)
         | Inr values_id \<Rightarrow>
             bind (info_step cls node_group name user gid hf) (\<lambda>ntd hf.
             bind (data_step cls node_values values_id preset_name hf) (\<lambda>_ hf.
             bind (case as_dict ntd of
                     Inl e \<Rightarrow> (hf, Inl e)
                   | Inr items \<Rightarrow> nodes_step cls sha node_group items [] hf) (\<lambda>node_ids hf.
             bind (node_stack_step sha node_ids hf) (\<lambda>ni_id hf.
             bind (transaction_step cls sha gid values_id ni_id preset_name hf) (\<lambda>trans hf.
             bind (links_step cls gid values_id (fst trans) hf) (\<lambda>preset_saved hf.
               (hf, Inr (preset_saved, snd trans))))))))))))"

record material =
  mat_name :: string
  mat_node_tree :: node_tree
  mat_node_data :: "pyval list"

definition material_preset_processing ::
  "(string \<Rightarrow> string) \<Rightarrow> hfdb \<Rightarrow> material \<Rightarrow> string \<Rightarrow> string \<Rightarrow> (bool \<times> string option) result" where
  "material_preset_processing sha file material preset_name user =
     preset_processing Material sha file (mat_node_tree material) (mat_name material)
       (PList (mat_node_data material)) (hash_list sha 1024 (mat_node_data material))
       preset_name user"

record node_group =
  ng_name :: string
  ng_node_tree :: node_tree
  ng_input_data :: "(string \<times> pyval) list"

definition geometry_node_preset_processing ::
  "(string \<Rightarrow> string) \<Rightarrow> hfdb \<Rightarrow> node_group \<Rightarrow> string \<Rightarrow> string \<Rightarrow> (bool \<times> string option) result" where
  "geometry_node_preset_processing sha file node_group preset_name user =
     preset_processing Geometry_Node sha file (ng_node_tree node_group) (ng_name node_group)
       (PDict (ng_input_data node_group)) (hash_dict sha 1024 (ng_input_data node_group))
       preset_name user"

definition create_preset_files :: hfdb where
  "create_preset_files =
     \<lparr>groups = (\<lambda>path. []),
      arrays = [''/PRESETS/RGB'' \<mapsto> [], ''/PRESETS/CURVE_FLOAT'' \<mapsto> [], ''/PRESETS/VALTORGB'' \<mapsto> [],
                ''/PRESETS/CURVE_VEC'' \<mapsto> [], ''/PRESETS/CURVE_RGB'' \<mapsto> [], ''/PRESETS/INPUT_COLOR'' \<mapsto> []]\<rparr>"

section \<open>Renaming, settings and hair presets\<close>

text \<open>
  \<^verbatim>\<open>physics_preset_processing\<close> and \<^verbatim>\<open>collision_preset_processing\<close> are the same code
  on different groups; \<open>settings_preset_processing\<close> is that code with the group as
  parameter.
\<close>

definition change_preset_name :: "hfdb \<Rightarrow> string \<Rightarrow> string \<Rightarrow> string \<Rightarrow> (string option) result" where
  "change_preset_name hf pfile ident name =
     (if Some name \<in> set (get_names (groups hf pfile)) then (hf, Inl NameExistsError)
      else (case map_of (groups hf pfile) ident of
              None \<Rightarrow> (hf, Inl KeyError)
            | Some d \<Rightarrow> (set_attr pfile ident ''name'' name hf, Inr (ds_attrs d ''name''))))"

definition settings_preset_processing ::
  "(string \<Rightarrow> string) \<Rightarrow> hfdb \<Rightarrow> string \<Rightarrow> (string \<times> pyval) list \<Rightarrow> string \<Rightarrow> (bool \<times> string option) result" where
  "settings_preset_processing sha hf path data preset_name =
     (if Some preset_name \<in> set (get_names (groups hf path)) then (hf, Inl NameExistsError)
      else (case hash_dict sha 1024 data of
              Inl e \<Rightarrow> (hf, Inl e)
            | Inr phy_id \<Rightarrow>
                if phy_id \<notin> set (keys (groups hf path)) then
                  (case json_text (PDict data) of
                     Inl e \<Rightarrow> (hf, Inl e)
                   | Inr text \<Rightarrow>
                       (set_attr path phy_id ''name'' preset_name (create_dataset path phy_id text hf),
                        Inr (True, Some preset_name)))
                else (case map_of (groups hf path) phy_id of
                        None \<Rightarrow> (hf, Inl KeyError)
                      | Some d \<Rightarrow> (hf, Inr (False, ds_attrs d ''name'')))))"

definition physics_preset_processing ::
  "(string \<Rightarrow> string) \<Rightarrow> hfdb \<Rightarrow> string \<Rightarrow> (string \<times> pyval) list \<Rightarrow> string \<Rightarrow> (bool \<times> string option) result" where
  "physics_preset_processing sha file ptype data preset_name =
     settings_preset_processing sha file (''/PHYSICS/'' @ ptype) data preset_name"

definition collision_preset_processing ::
  "(string \<Rightarrow> string) \<Rightarrow> hfdb \<Rightarrow> (string \<times> pyval) list \<Rightarrow> string \<Rightarrow> (bool \<times> string option) result" where
  "collision_preset_processing sha file data preset_name =
     settings_preset_processing sha file ''/PHYSICS/COLLISION'' data preset_name"

definition hair_preset_processing ::
  "(string \<Rightarrow> string) \<Rightarrow> hfdb \<Rightarrow> (string \<times> pyval) list \<Rightarrow> string \<Rightarrow> (bool \<times> string option) result" where
  "hair_preset_processing sha hf data preset_name =
     (if Some preset_name \<in> set (get_names (groups hf ''/HAIR/POINTS'')) then (hf, Inl NameExistsError)
      else (case hash_dict sha 1024 data of
              Inl e \<Rightarrow> (hf, Inl e)
            | Inr h_id \<Rightarrow>
                if h_id \<notin> set (keys (groups hf ''/HAIR/POINTS'')) then
                  (case map_of data ''points'' of
                     None \<Rightarrow> (hf, Inl KeyError)
                   | Some points \<Rightarrow>
                       (case points of
                          PArray ps \<Rightarrow>
                            (let hf1 = set_attr ''/HAIR/POINTS'' h_id ''name'' preset_name
                                         (create_dataset ''/HAIR/POINTS'' h_id (NumArray points) hf)
                             in case map_of data ''sizes'' of
                                  None \<Rightarrow> (hf1, Inl KeyError)
                                | Some sizes \<Rightarrow>
                                    (case sizes of
                                       PArray ss \<Rightarrow>
                                         if h_id \<in> set (keys (groups hf1 ''/HAIR/SIZES''))
                                           then (hf1, Inl ValueError)
                                         else (create_dataset ''/HAIR/SIZES'' h_id (NumArray sizes) hf1,
                                               Inr (True, Some preset_name))
                                     | _ \<Rightarrow> (hf1, Inl AttributeError)))
                        | _ \<Rightarrow> (hf, Inl AttributeError)))
                else (case map_of (groups hf ''/HAIR/POINTS'') h_id of
                        None \<Rightarrow> (hf, Inl KeyError)
                      | Some d \<Rightarrow> (hf, Inr (False, ds_attrs d ''name'')))))"

section \<open>Export and import\<close>

text \<open>
  An export document is the dictionary \<^verbatim>\<open>export_*_preset_data_by_preset_id\<close> returns, as it
  is read back from the JSON file. Each entry of \<open>doc_nodes\<close> is the list the exporter
  builds for one special node. \<^verbatim>\<open>export_mat_preset_data_by_preset_id\<close> and
  \<^verbatim>\<open>export_gn_preset_data_by_preset_id\<close>, and likewise the two importers, differ in the
  groups they use only.
\<close>

record export_doc =
  doc_name :: string
  doc_id :: string
  doc_transaction :: "string list"
  doc_group_name :: string
  doc_group_class :: string
  doc_group_user :: string
  doc_node_stack :: pyval
  doc_values :: pyval
  doc_nodes :: "(string \<times> pyval list) list"

definition lookup :: "h5group \<Rightarrow> string \<Rightarrow> error + dataset" where
  "lookup g name = (case map_of g name of None \<Rightarrow> Inl KeyError | Some d \<Rightarrow> Inr d)"

definition get_attr :: "dataset \<Rightarrow> string \<Rightarrow> error + string" where
  "get_attr d a = (case ds_attrs d a of None \<Rightarrow> Inl TypeError | Some v \<Rightarrow> Inr v)"

definition dict_get :: "pyval \<Rightarrow> string \<Rightarrow> error + pyval" where
  "dict_get d k =
     (case d of
        PDict kvs \<Rightarrow> (case map_of kvs k of None \<Rightarrow> Inl KeyError | Some v \<Rightarrow> Inr v)
      | _ \<Rightarrow> Inl TypeError)"

definition as_str :: "pyval \<Rightarrow> error + string" where
  "as_str v = (case v of PStr s \<Rightarrow> Inr s | _ \<Rightarrow> Inl TypeError)"

definition ebind :: "error + 'a \<Rightarrow> ('a \<Rightarrow> error + 'b) \<Rightarrow> error + 'b" where
  "ebind r f = (case r of Inl e \<Rightarrow> Inl e | Inr a \<Rightarrow> f a)"

fun export_entries :: "h5group \<Rightarrow> pyval \<Rightarrow> nat \<Rightarrow> pyval list \<Rightarrow> error + pyval list" where
  "export_entries node_file ids i [] = Inr []"
| "export_entries node_file ids i (n # ns) =
     ebind (as_list ids) (\<lambda>idl.
     ebind (py_index idl (PInt (int i))) (\<lambda>nidv.
     ebind (as_str nidv) (\<lambda>nid.
     ebind (lookup node_file nid) (\<lambda>d.
     ebind (loads (ds_data d)) (\<lambda>data.
     ebind (get_attr d ''name'') (\<lambda>name.
     ebind (export_entries node_file ids (Suc i) ns) (\<lambda>rest.
       Inr (PList [n, data, PStr name, PStr nid] # rest))))))))"

fun export_nodes :: "h5group \<Rightarrow> pyval \<Rightarrow> (string \<times> pyval) list \<Rightarrow> error + (string \<times> pyval list) list" where
  "export_nodes node_file nst [] = Inr []"
| "export_nodes node_file nst (kv # ntd) =
     ebind (as_list (snd kv)) (\<lambda>addrs.
     ebind (if addrs = [] then Inr [] else
              ebind (dict_get nst (fst kv)) (\<lambda>ids. export_entries node_file ids 0 addrs)) (\<lambda>entries.
     ebind (export_nodes node_file nst ntd) (\<lambda>rest.
       Inr ((fst kv, entries) # rest))))"

definition export_preset_data_by_preset_id :: "asset_class \<Rightarrow> hfdb \<Rightarrow> string \<Rightarrow> error + export_doc" where
  "export_preset_data_by_preset_id cls hf ident =
     ebind (lookup (groups hf (type_file cls ''TRANSACTIONS'')) ident) (\<lambda>t.
     ebind (get_attr t ''name'') (\<lambda>pname.
     ebind (case ds_data t of StrRows (row # rows) \<Rightarrow> Inr row | StrRows [] \<Rightarrow> Inl IndexError
            | _ \<Rightarrow> Inl TypeError) (\<lambda>trans.
     ebind (py_index trans (PInt 0)) (\<lambda>t0.
     ebind (lookup (groups hf (type_file cls ''INFO'')) t0) (\<lambda>minfo.
     ebind (get_attr minfo ''name'') (\<lambda>mname.
     ebind (get_attr minfo ''class'') (\<lambda>mclass.
     ebind (get_attr minfo ''user'') (\<lambda>muser.
     ebind (loads (ds_data minfo)) (\<lambda>ntdv.
     ebind (py_index trans (PInt 2)) (\<lambda>t2.
     ebind (lookup (groups hf ''/NODE_STACK'') t2) (\<lambda>nsd.
     ebind (loads (ds_data nsd)) (\<lambda>nst.
     ebind (as_dict ntdv) (\<lambda>ntd.
     ebind (export_nodes (groups hf ''/NODES'') nst ntd) (\<lambda>ndata.
     ebind (py_index trans (PInt 1)) (\<lambda>t1.
     ebind (lookup (groups hf (type_file cls ''DATA'')) t1) (\<lambda>vd.
     ebind (loads (ds_data vd)) (\<lambda>values.
       Inr \<lparr>doc_name = pname, doc_id = ident, doc_transaction = trans,
            doc_group_name = mname, doc_group_class = mclass, doc_group_user = muser,
            doc_node_stack = nst, doc_values = values, doc_nodes = ndata\<rparr>)))))))))))))))))"

definition export_mat_preset_data_by_preset_id :: "hfdb \<Rightarrow> string \<Rightarrow> error + export_doc" where
  "export_mat_preset_data_by_preset_id file ident = export_preset_data_by_preset_id Material file ident"

definition export_gn_preset_data_by_preset_id :: "hfdb \<Rightarrow> string \<Rightarrow> error + export_doc" where
  "export_gn_preset_data_by_preset_id file ident = export_preset_data_by_preset_id Geometry_Node file ident"

fun import_node_loop :: "string \<Rightarrow> pyval list \<Rightarrow> nat \<Rightarrow> hfdb \<Rightarrow> unit result" where
  "import_node_loop ntype [] ct hf = (hf, Inr ())"
| "import_node_loop ntype (node # nodes) ct hf =
     (case node_type_abbr_dict ntype of
        None \<Rightarrow> (hf, Inl KeyError)
      | Some abbr \<Rightarrow>
     (case ebind (as_list node) (\<lambda>flds.
           ebind (py_index flds (PInt 2)) (\<lambda>data.
           ebind (py_index flds (PInt 4)) (\<lambda>nidv.
           ebind (as_str nidv) (\<lambda>nid. Inr (flds, data, nid))))) of
        Inl e \<Rightarrow> (hf, Inl e)
      | Inr (flds, data, nid) \<Rightarrow>
          bind (if nid \<notin> set (keys (groups hf ''/NODES'')) then
                  (case json_text data of
                     Inl e \<Rightarrow> (hf, Inl e)
                   | Inr text \<Rightarrow>
                       (let hf1 = create_dataset ''/NODES'' nid text hf in
                        case ebind (py_index flds (PInt 3)) as_str of
                          Inl e \<Rightarrow> (hf1, Inl e)
                        | Inr suggested \<Rightarrow>
                            (case unique_name ''/NODES'' suggested hf1 of
                               Inl e \<Rightarrow> (hf1, Inl e)
                             | Inr suggested_name \<Rightarrow>
                                 (set_attr ''/NODES'' nid ''type'' ntype
                                    (set_attr ''/NODES'' nid ''name'' suggested_name hf1), Inr (Suc ct)))))
                else (hf, Inr ct))
            (\<lambda>ct1 hf1. bind (register_node (''/PRESETS/'' @ ntype) nid hf1)
               (\<lambda>_ hf2. import_node_loop ntype nodes ct1 hf2))))"

fun import_nodes_step :: "(string \<times> pyval list) list \<Rightarrow> hfdb \<Rightarrow> unit result" where
  "import_nodes_step [] hf = (hf, Inr ())"
| "import_nodes_step (kv # nodes) hf =
     (case arrays hf (''/PRESETS/'' @ fst kv) of
        None \<Rightarrow> (hf, Inl KeyError)
      | Some ids \<Rightarrow>
          bind (import_node_loop (fst kv) (snd kv) (length ids) hf)
            (\<lambda>_ hf1. import_nodes_step nodes hf1))"

fun entries_field :: "nat \<Rightarrow> pyval list \<Rightarrow> error + pyval list" where
  "entries_field k [] = Inr []"
| "entries_field k (d # ds) =
     ebind (as_list d) (\<lambda>flds.
     ebind (py_index flds (PInt (int k))) (\<lambda>x.
     ebind (entries_field k ds) (\<lambda>rest. Inr (x # rest))))"

fun entries_slice :: "nat \<Rightarrow> pyval list \<Rightarrow> error + pyval list" where
  "entries_slice k [] = Inr []"
| "entries_slice k (d # ds) =
     ebind (as_list d) (\<lambda>flds.
     ebind (entries_slice k ds) (\<lambda>rest. Inr (PList (take k flds) # rest)))"

fun dict_comprehension ::
  "(pyval list \<Rightarrow> error + pyval list) \<Rightarrow> (string \<times> pyval list) list \<Rightarrow> error + (string \<times> pyval) list" where
  "dict_comprehension f [] = Inr []"
| "dict_comprehension f (kv # nodes) =
     ebind (f (snd kv)) (\<lambda>xs.
     ebind (dict_comprehension f nodes) (\<lambda>rest. Inr ((fst kv, PList xs) # rest)))"

definition import_info_step :: "asset_class \<Rightarrow> export_doc \<Rightarrow> string \<Rightarrow> hfdb \<Rightarrow> unit result" where
  "import_info_step cls preset_data gid hf =
     (if gid \<notin> set (keys (groups hf (type_file cls ''INFO''))) then
        (case ebind (dict_comprehension (entries_slice 2) (doc_nodes preset_data))
                (\<lambda>ntd. json_text (PDict ntd)) of
           Inl e \<Rightarrow> (hf, Inl e)
         | Inr text \<Rightarrow>
             (set_attr (type_file cls ''INFO'') gid ''user'' (doc_group_user preset_data)
               (set_attr (type_file cls ''INFO'') gid ''class'' (doc_group_class preset_data)
                 (set_attr (type_file cls ''INFO'') gid ''name'' (doc_group_name preset_data)
                   (create_dataset (type_file cls ''INFO'') gid text hf))), Inr ()))
      else (hf, Inr ()))"

definition import_node_stack_step :: "export_doc \<Rightarrow> string \<Rightarrow> hfdb \<Rightarrow> unit result" where
  "import_node_stack_step preset_data ni_id hf =
     (if ni_id \<notin> set (keys (groups hf ''/NODE_STACK'')) then
        (case ebind (dict_comprehension (entries_field 4) (doc_nodes preset_data))
                (\<lambda>node_ids. json_text (PDict node_ids)) of
           Inl e \<Rightarrow> (hf, Inl e)
         | Inr text \<Rightarrow> (create_dataset ''/NODE_STACK'' ni_id text hf, Inr ()))
      else (hf, Inr ()))"

definition import_records ::
  "asset_class \<Rightarrow> export_doc \<Rightarrow> string \<Rightarrow> string \<Rightarrow> string \<Rightarrow> string \<Rightarrow> string \<Rightarrow> hfdb \<Rightarrow>
   (bool \<times> string option) result" where
  "import_records cls preset_data gid values_id ni_id pid preset_name hf =
     bind (import_info_step cls preset_data gid hf) (\<lambda>_ hf.
     bind (data_step cls (doc_values preset_data) values_id preset_name hf) (\<lambda>_ hf.
     bind (import_nodes_step (doc_nodes preset_data) hf) (\<lambda>_ hf.
     bind (import_node_stack_step preset_data ni_id hf) (\<lambda>_ hf.
     bind (links_step cls gid values_id pid hf) (\<lambda>_ hf.
       (hf, Inr (True, Some preset_name)))))))"

definition import_preset_data :: "asset_class \<Rightarrow> hfdb \<Rightarrow> export_doc \<Rightarrow> (bool \<times> string option) result" where
  "import_preset_data cls hf preset_data =
     (case ebind (py_index (doc_transaction preset_data) (PInt 0)) (\<lambda>gid.
           ebind (py_index (doc_transaction preset_data) (PInt 1)) (\<lambda>values_id.
           ebind (py_index (doc_transaction preset_data) (PInt 2)) (\<lambda>ni_id.
             Inr (gid, values_id, ni_id)))) of
        Inl e \<Rightarrow> (hf, Inl e)
      | Inr (gid, values_id, ni_id) \<Rightarrow>
          let pid = doc_id preset_data; trans = type_file cls ''TRANSACTIONS'' in
          if pid \<in> set (keys (groups hf trans)) then
            (case map_of (groups hf trans) pid of
               None \<Rightarrow> (hf, Inl KeyError)
             | Some d \<Rightarrow> (hf, Inr (False, ds_attrs d ''name'')))
          else
            (case unique_name trans (doc_name preset_data) hf of
               Inl e \<Rightarrow> (hf, Inl e)
             | Inr preset_name \<Rightarrow>
                 import_records cls preset_data gid values_id ni_id pid preset_name
                   (set_attr trans pid ''name'' preset_name
                      (create_dataset trans pid (StrRows [[gid, values_id, ni_id]]) hf))))"

definition import_mat_preset_data :: "hfdb \<Rightarrow> export_doc \<Rightarrow> (bool \<times> string option) result" where
  "import_mat_preset_data file preset_data = import_preset_data Material file preset_data"

definition import_gn_preset_data :: "hfdb \<Rightarrow> export_doc \<Rightarrow> (bool \<times> string option) result" where
  "import_gn_preset_data file preset_data = import_preset_data Geometry_Node file preset_data"


section \<open>Presets of a single node and of a modifier stack\<close>

text \<open>
  \<^verbatim>\<open>match_node_structure_gen\<close> looks for a node in a tree and in its groups. The
  definition of \<^verbatim>\<open>get_group_nodes\<close> in force hands the parent address on unchanged, so a
  match inside a group has the one-element address of its position in that group.
  \<^verbatim>\<open>get_nodes_func_dict\<close> has the keys of \<^verbatim>\<open>node_type_abbr_dict\<close>.
  \<^verbatim>\<open>geometry_node_processing\<close> is \<^verbatim>\<open>geometry_node_preset_processing\<close> on an open
  file, with a name already in use replaced by the next name of its series, and it returns
  the transaction id as well. A modifier carries its type, its node group (with the input
  data read through this modifier) and the \<^verbatim>\<open>hf_user\<close> of that group; the modifiers are
  filtered while the loop runs, as the generator of the source does.
\<close>

fun match_node :: "nat \<Rightarrow> node list \<Rightarrow> nat list option \<Rightarrow> nat \<Rightarrow> (nat list \<times> string) list" where
  "match_node ident [] parent idx = []"
| "match_node ident (node # nodes) parent idx =
     (if node_ident node = ident
        then [(case parent of None \<Rightarrow> [idx] | Some p \<Rightarrow> p @ [idx], node_type node)]
      else []) @ match_node ident nodes parent (Suc idx)"

function match_node_structure_gen :: "nat \<Rightarrow> node list \<Rightarrow> nat list option \<Rightarrow> (nat list \<times> string) list"
  and match_in_groups :: "nat \<Rightarrow> node list \<Rightarrow> nat list option \<Rightarrow> (nat list \<times> string) list" where
  "match_node_structure_gen ident nodes parent =
     match_node ident nodes parent 0 @ match_in_groups ident nodes parent"
| "match_in_groups ident [] parent = []"
| "match_in_groups ident (node # nodes) parent =
     (if node_type node = ''GROUP'' then match_node_structure_gen ident (group_nodes node) parent else []) @
     match_in_groups ident nodes parent"
  by pat_completeness auto
termination
  by (relation "measure (\<lambda>x. case x of Inl (i, ns, p) \<Rightarrow> Suc (size_list size ns)
                                        | Inr (i, ns, p) \<Rightarrow> size_list size ns)")
     (auto, case_tac node, auto)

definition node_preset_processing ::
  "(string \<Rightarrow> string) \<Rightarrow> hfdb \<Rightarrow> nat \<Rightarrow> node_tree \<Rightarrow> string \<Rightarrow> asset_class \<Rightarrow>
   (bool \<times> string option) result" where
  "node_preset_processing sha hf node node_tree preset_name cls =
     (case match_node_structure_gen node (fst node_tree) None of
        [] \<Rightarrow> (hf, Inl StopIteration)
      | found # _ \<Rightarrow>
     (if snd found \<notin> dom node_type_abbr_dict then (hf, Inl KeyError) else
     (case ebind (get_special_node cls node_tree (path_val (fst found))) (get_nodes_func (snd found)) of
        Inl e \<Rightarrow> (hf, Inl e)
      | Inr data \<Rightarrow>
     (case hash_dict sha 1024 data of
        Inl e \<Rightarrow> (hf, Inl e)
      | Inr nid \<Rightarrow>
          if Some preset_name \<in> set (get_names (groups hf ''/NODES'')) then (hf, Inl NameExistsError)
          else if nid \<notin> set (keys (groups hf ''/NODES'')) then
            (case arrays hf (''/PRESETS/'' @ snd found) of
               None \<Rightarrow> (hf, Inl KeyError)
             | Some ids \<Rightarrow>
                 (case json_text (PDict data) of
                    Inl e \<Rightarrow> (hf, Inl e)
                  | Inr text \<Rightarrow>
                      (let hf1 = set_attr ''/NODES'' nid ''type'' (snd found)
                                   (set_attr ''/NODES'' nid ''name'' preset_name
                                      (create_dataset ''/NODES'' nid text hf))
                       in (if nid \<notin> set ids
                             then hf1\<lparr>arrays := (arrays hf1)(''/PRESETS/'' @ snd found \<mapsto> ids @ [nid])\<rparr>
                           else hf1,
                           Inr (True, None)))))
          else (case map_of (groups hf ''/NODES'') nid of
                  None \<Rightarrow> (hf, Inl KeyError)
                | Some d \<Rightarrow> (hf, Inr (False, ds_attrs d ''name'')))))))"

definition geometry_node_processing ::
  "(string \<Rightarrow> string) \<Rightarrow> hfdb \<Rightarrow> node_group \<Rightarrow> string \<Rightarrow> string \<Rightarrow>
   (bool \<times> string option \<times> string) result" where
  "geometry_node_processing sha hf node_group preset_name user =
     (case unique_name (type_file Geometry_Node ''TRANSACTIONS'') preset_name hf of
        Inl e \<Rightarrow> (hf, Inl e)
      | Inr preset_name \<Rightarrow>
        (case get_all_nodes (ng_node_tree node_group) of
           Inl e \<Rightarrow> (hf, Inl e)
         | Inr scan \<Rightarrow>
        (case hash_dict sha 1024 scan of
           Inl e \<Rightarrow> (hf, Inl e)
         | Inr gid \<Rightarrow>
        (case hash_dict sha 1024 (ng_input_data node_group) of
           Inl e \<Rightarrow> (hf, Inl e)
         | Inr values_id \<Rightarrow>
             bind (info_step Geometry_Node (ng_node_tree node_group) (ng_name node_group) user gid hf) (\<lambda>ntd hf.
             bind (data_step Geometry_Node (PDict (ng_input_data node_group)) values_id preset_name hf) (\<lambda>_ hf.
             bind (case as_dict ntd of
                     Inl e \<Rightarrow> (hf, Inl e)
                   | Inr items \<Rightarrow> nodes_step Geometry_Node sha (ng_node_tree node_group) items [] hf) (\<lambda>node_ids hf.
             bind (node_stack_step sha node_ids hf) (\<lambda>ni_id hf.
             bind (transaction_step Geometry_Node sha gid values_id ni_id preset_name hf) (\<lambda>trans hf.
             bind (links_step Geometry_Node gid values_id (fst trans) hf) (\<lambda>preset_saved hf.
               (hf, Inr (preset_saved, snd trans, fst trans))))))))))))"

record modifier =
  md_type :: string
  md_node_group :: "node_group option"
  md_user :: string

fun modifier_stack_loop ::
  "(string \<Rightarrow> string) \<Rightarrow> string \<Rightarrow> bool \<Rightarrow> modifier list \<Rightarrow> string list \<Rightarrow> string option list \<Rightarrow>
   string option list \<Rightarrow> hfdb \<Rightarrow> (string list \<times> string option list \<times> string option list) result" where
  "modifier_stack_loop sha preset_name include [] mod_stack_ids success fail hf =
     (hf, Inr (mod_stack_ids, success, fail))"
| "modifier_stack_loop sha preset_name include (m # mods) mod_stack_ids success fail hf =
     (if md_type m \<noteq> ''NODES'' then
        modifier_stack_loop sha preset_name include mods mod_stack_ids success fail hf
      else
        (case md_node_group m of
           None \<Rightarrow> (hf, Inl AttributeError)
         | Some ng \<Rightarrow>
             if \<not> include \<and> hd (split_on CHR ''.'' (ng_name ng)) = ''Surface Deform'' then
               modifier_stack_loop sha preset_name include mods mod_stack_ids success fail hf
             else
               bind (geometry_node_processing sha hf ng
                       (preset_name @ ''_'' @ hd (split_on CHR ''.'' (ng_name ng))) (md_user m))
                 (\<lambda>r hf1. modifier_stack_loop sha preset_name include mods (mod_stack_ids @ [snd (snd r)])
                              (if fst r then success @ [fst (snd r)] else success)
                              (if fst r then fail else fail @ [fst (snd r)]) hf1)))"

definition modifier_stack_preset_processing ::
  "(string \<Rightarrow> string) \<Rightarrow> hfdb \<Rightarrow> modifier list \<Rightarrow> string \<Rightarrow> bool \<Rightarrow>
   (string option list \<times> string option list) result" where
  "modifier_stack_preset_processing sha hf modifiers preset_name include_surface_deform =
     (if Some preset_name \<in> set (get_names (groups hf (type_file Geometry_Node ''MODIFIER_STACK'')))
        then (hf, Inl NameExistsError)
      else
        bind (modifier_stack_loop sha preset_name include_surface_deform modifiers [] [] [] hf) (\<lambda>r hf1.
          (case hash_list sha 1024 (map PStr (fst r)) of
             Inl e \<Rightarrow> (hf1, Inl e)
           | Inr ms_id \<Rightarrow>
               if ms_id \<notin> set (keys (groups hf1 (type_file Geometry_Node ''MODIFIER_STACK''))) then
                 (set_attr (type_file Geometry_Node ''MODIFIER_STACK'') ms_id ''name'' preset_name
                    (create_dataset (type_file Geometry_Node ''MODIFIER_STACK'') ms_id (StrRows [fst r]) hf1),
                  Inr (fst (snd r) @ [Some preset_name], snd (snd r)))
               else (hf1, Inr (fst (snd r), snd (snd r) @ [Some preset_name])))))"


section \<open>The archive wrapper and the save operators\<close>

text \<open>
  The disk holds the member \<^verbatim>\<open>Presets.hfdb\<close> of the zip archive and the working copy
  extracted beside it. \<^verbatim>\<open>modify_in_zip\<close> catches every exception and returns
  \<^verbatim>\<open>None\<close> in that case; opening the archive for writing truncates it, so a failure while
  recompressing (\<open>recompress_fails\<close>) loses the member. The save operators share their
  shape: \<open>save_operator_execute\<close> takes the wording of their reports as parameters.
\<close>

record disk =
  zip_entry :: "hfdb option"
  extract_file :: "hfdb option"

definition modify_in_zip :: "bool \<Rightarrow> disk \<Rightarrow> (hfdb \<Rightarrow> 'a result) \<Rightarrow> disk \<times> 'a option" where
  "modify_in_zip recompress_fails d func =
     (case zip_entry d of
        None \<Rightarrow> (d\<lparr>extract_file := None\<rparr>, None)
      | Some content \<Rightarrow>
          (case func content of
             (hf, Inl e) \<Rightarrow> (d\<lparr>extract_file := None\<rparr>, None)
           | (hf, Inr data) \<Rightarrow>
               if recompress_fails then (\<lparr>zip_entry = None, extract_file = None\<rparr>, None)
               else (\<lparr>zip_entry = Some hf, extract_file = None\<rparr>, Some data)))"

datatype report = ERROR string | INFO string

datatype status = FINISHED | CANCELLED

definition str_opt :: "string option \<Rightarrow> string" where
  "str_opt x = (case x of None \<Rightarrow> ''None'' | Some s \<Rightarrow> s)"

definition save_operator_execute ::
  "string \<Rightarrow> string \<Rightarrow> string \<Rightarrow> string \<Rightarrow> string \<Rightarrow> disk \<Rightarrow>
   (disk \<Rightarrow> disk \<times> (bool \<times> string option) option) \<Rightarrow> disk \<times> report \<times> status" where
  "save_operator_execute preset_name kind_cap kind subject owner d save =
     (if is_string_blank preset_name then (d, ERROR ''Preset name missing.'', CANCELLED)
      else if string_has_space preset_name \<or> string_startswith_space preset_name
        then (d, ERROR ''Preset name contains spaces.'', CANCELLED)
      else if upper preset_name = code_points ''NONE''
        then (d, ERROR ''Preset name can not be used'', CANCELLED)
      else
        (case save d of
           (d1, None) \<Rightarrow>
             (d1, ERROR (''Preset for '' @ kind_cap @ '' '' @ owner @
                '' was not saved. Check presets for matching name or preset could be saved under a different name.''),
              CANCELLED)
         | (d1, Some (preset_saved, pname)) \<Rightarrow>
             if preset_saved then (d1, INFO (preset_name @ '' saved for '' @ subject @ '' '' @ owner), FINISHED)
             else (d1, ERROR (''Preset for '' @ kind @ '' '' @ owner @ '' already exists using name '' @
                              str_opt pname @ ''.''), CANCELLED)))"

definition HAIRFACTORY_OT_save_mat_execute ::
  "(string \<Rightarrow> string) \<Rightarrow> bool \<Rightarrow> disk \<Rightarrow> material \<Rightarrow> string \<Rightarrow> string \<Rightarrow> disk \<times> report \<times> status" where
  "HAIRFACTORY_OT_save_mat_execute sha recompress_fails d material preset_name user =
     save_operator_execute preset_name ''Material'' ''material'' ''material'' (mat_name material) d
       (\<lambda>d. modify_in_zip recompress_fails d
               (\<lambda>file. material_preset_processing sha file material preset_name user))"

definition HAIRFACTORY_OT_save_node_group_execute ::
  "(string \<Rightarrow> string) \<Rightarrow> bool \<Rightarrow> disk \<Rightarrow> node_group \<Rightarrow> string \<Rightarrow> string \<Rightarrow> disk \<times> report \<times> status" where
  "HAIRFACTORY_OT_save_node_group_execute sha recompress_fails d node_group preset_name user =
     save_operator_execute preset_name ''Node Group'' ''node group'' ''node'' (ng_name node_group) d
       (\<lambda>d. modify_in_zip recompress_fails d
               (\<lambda>file. geometry_node_preset_processing sha file node_group preset_name user))"

definition HAIRFACTORY_OT_save_phy_execute ::
  "(string \<Rightarrow> string) \<Rightarrow> bool \<Rightarrow> disk \<Rightarrow> string \<Rightarrow> string \<Rightarrow> (string \<times> pyval) list \<Rightarrow> string \<Rightarrow> disk \<times> report \<times> status" where
  "HAIRFACTORY_OT_save_phy_execute sha recompress_fails d mesh_name ptype data preset_name =
     save_operator_execute preset_name (ptype @ '' for'') ''physics mesh'' ''physics mesh'' mesh_name d
       (\<lambda>d. modify_in_zip recompress_fails d
               (\<lambda>file. physics_preset_processing sha file ptype data preset_name))"

definition HAIRFACTORY_OT_save_col_execute ::
  "(string \<Rightarrow> string) \<Rightarrow> bool \<Rightarrow> disk \<Rightarrow> string \<Rightarrow> (string \<times> pyval) list \<Rightarrow> string \<Rightarrow> disk \<times> report \<times> status" where
  "HAIRFACTORY_OT_save_col_execute sha recompress_fails d mesh_name data preset_name =
     save_operator_execute preset_name ''collision mesh'' ''collision mesh'' ''collision mesh'' mesh_name d
       (\<lambda>d. modify_in_zip recompress_fails d
               (\<lambda>file. collision_preset_processing sha file data preset_name))"

definition HAIRFACTORY_OT_save_hair_execute ::
  "(string \<Rightarrow> string) \<Rightarrow> bool \<Rightarrow> disk \<Rightarrow> string \<Rightarrow> (string \<times> pyval) list \<Rightarrow> string \<Rightarrow> disk \<times> report \<times> status" where
  "HAIRFACTORY_OT_save_hair_execute sha recompress_fails d curve_name data preset_name =
     save_operator_execute preset_name ''Hair curve'' ''hair curve'' ''hair curve'' curve_name d
       (\<lambda>d. modify_in_zip recompress_fails d
               (\<lambda>file. hair_preset_processing sha file data preset_name))"

text \<open>
  The operator for a single node first needs the tree of the node; the operator for a
  modifier stack reports two lists of names when it finishes, which \<open>STACK_INFO\<close> holds.
\<close>

definition HAIRFACTORY_OT_save_node_execute ::
  "(string \<Rightarrow> string) \<Rightarrow> bool \<Rightarrow> disk \<Rightarrow> nat \<Rightarrow> string \<Rightarrow> node_tree option \<Rightarrow> asset_class \<Rightarrow> string \<Rightarrow>
   disk \<times> report \<times> status" where
  "HAIRFACTORY_OT_save_node_execute sha recompress_fails d node name node_tree cls preset_name =
     (case node_tree of
        None \<Rightarrow> (d, ERROR (''Node: '' @ name @ '' node_tree not found!''), CANCELLED)
      | Some tree \<Rightarrow>
          save_operator_execute preset_name ''Node'' ''node'' ''node'' name d
            (\<lambda>d. modify_in_zip recompress_fails d
                    (\<lambda>file. node_preset_processing sha file node tree preset_name cls)))"

datatype stack_report =
    STACK_ERROR string
  | STACK_INFO "string option list" "string option list"

definition HAIRFACTORY_OT_save_mod_stack_execute ::
  "(string \<Rightarrow> string) \<Rightarrow> bool \<Rightarrow> disk \<Rightarrow> string \<Rightarrow> modifier list \<Rightarrow> string \<Rightarrow> bool \<Rightarrow>
   disk \<times> stack_report \<times> status" where
  "HAIRFACTORY_OT_save_mod_stack_execute sha recompress_fails d ob_name modifiers preset_name include =
     (if is_string_blank preset_name then (d, STACK_ERROR ''Preset name missing.'', CANCELLED)
      else if string_has_space preset_name \<or> string_startswith_space preset_name
        then (d, STACK_ERROR ''Preset name contains spaces.'', CANCELLED)
      else if upper preset_name = code_points ''NONE''
        then (d, STACK_ERROR ''Preset name can not be used'', CANCELLED)
      else
        (case modify_in_zip recompress_fails d
                (\<lambda>file. modifier_stack_preset_processing sha file modifiers preset_name include) of
           (d1, None) \<Rightarrow>
             (d1, STACK_ERROR (''Preset for Modifier Stack for '' @ ob_name @
                '' was not saved. Check presets for matching name or preset could be saved under a different name.''),
              CANCELLED)
         | (d1, Some (success, fail)) \<Rightarrow> (d1, STACK_INFO success fail, FINISHED)))"

definition named_store :: "string \<Rightarrow> hfdb" where
  "named_store name =
     \<lparr>groups = (\<lambda>path. [(''0a'', \<lparr>ds_data = JsonText (PDict []), ds_attrs = [''name'' \<mapsto> name]\<rparr>)]),
      arrays = Map.empty\<rparr>"

definition color_group :: node_group where
  "color_group =
     \<lparr>ng_name = ''Hair.001'',
      ng_node_tree = ([Node 1 ''Value'' ''VALUE'' [] [] [],
                       Node 2 ''Color'' ''INPUT_COLOR'' [(''value'', PList [PFloat ''1.0'', PFloat ''0.5''])] [] []],
                      [(1, 2)]),
      ng_input_data = [(''Socket_1'', PInt 3)]\<rparr>"

definition skin_material :: material where
  "skin_material =
     \<lparr>mat_name = ''Skin.001'',
      mat_node_tree = ([Node 1 ''RGB'' ''RGB'' [(''value'', PList [PFloat ''0.8'', PFloat ''0.6''])] [] [],
                        Node 2 ''Mix'' ''MIX'' [] [] []],
                       [(1, 2)]),
      mat_node_data = [PList [PFloat ''0.5'']]\<rparr>"

section \<open>Growth of the store\<close>

text \<open>
  The store only grows: \<open>extends hf hf'\<close> says that every record of \<open>hf\<close> is in
  \<open>hf'\<close> unchanged, except that the id arrays of the link tables \<^verbatim>\<open>FULL\<close> and
  \<^verbatim>\<open>VALUES\<close> and the node index arrays may have gained elements.
\<close>

definition link_paths :: "string set" where
  "link_paths = {''/PRESETS/MATERIALS/FULL'', ''/PRESETS/MATERIALS/VALUES'',
                 ''/PRESETS/GEOMETRY_NODES/FULL'', ''/PRESETS/GEOMETRY_NODES/VALUES''}"

definition array_le :: "dataset \<Rightarrow> dataset \<Rightarrow> bool" where
  "array_le d d' \<longleftrightarrow> (\<forall>xs. ds_data d = StrArray xs \<longrightarrow> (\<exists>ys. ds_data d' = StrArray ys \<and> set xs \<subseteq> set ys))"

definition extends :: "hfdb \<Rightarrow> hfdb \<Rightarrow> bool" where
  "extends hf hf' \<longleftrightarrow>
     (\<forall>p i d. p \<notin> link_paths \<longrightarrow> map_of (groups hf p) i = Some d \<longrightarrow> map_of (groups hf' p) i = Some d) \<and>
     (\<forall>p i d. p \<in> link_paths \<longrightarrow> map_of (groups hf p) i = Some d \<longrightarrow>
        (\<exists>d'. map_of (groups hf' p) i = Some d' \<and> array_le d d')) \<and>
     (\<forall>a ids. arrays hf a = Some ids \<longrightarrow> (\<exists>ids'. arrays hf' a = Some ids' \<and> set ids \<subseteq> set ids'))"

definition example_doc :: export_doc where
  "example_doc =
     \<lparr>doc_name = ''Foo'', doc_id = ''0a'', doc_transaction = [''g1'', ''v1'', ''n1''],
      doc_group_name = ''Hair'', doc_group_class = ''Geometry_Node'', doc_group_user = ''USER'',
      doc_node_stack = PDict [], doc_values = PDict [], doc_nodes = []\<rparr>"

section \<open>Topology of a node graph\<close>

text \<open>
  Two node trees have the same topology when they agree once names and node states are
  erased and node identities are renamed one-to-one: the same node types in the same order,
  the same nesting of groups and the same links.
\<close>

fun shape :: "(nat \<Rightarrow> nat) \<Rightarrow> node \<Rightarrow> node" where
  "shape f (Node i nm t st gn gl) = Node (f i) [] t [] (map (shape f) gn) (map (map_prod f f) gl)"

definition shape_tree :: "(nat \<Rightarrow> nat) \<Rightarrow> node_tree \<Rightarrow> node_tree" where
  "shape_tree f t = (map (shape f) (fst t), map (map_prod f f) (snd t))"

definition same_topology :: "node_tree \<Rightarrow> node_tree \<Rightarrow> bool" where
  "same_topology t1 t2 \<longleftrightarrow> (\<exists>f g. inj f \<and> inj g \<and> shape_tree f t1 = shape_tree g t2)"

definition nd_rename :: "(nat \<Rightarrow> nat) \<Rightarrow> node_dict \<Rightarrow> node_dict" where
  "nd_rename f nd = nd\<lparr>nd_nodes := map f (nd_nodes nd)\<rparr>"

definition linked :: "hfdb \<Rightarrow> string \<Rightarrow> string \<Rightarrow> string \<Rightarrow> bool" where
  "linked hf p n x \<longleftrightarrow> (\<exists>d xs. map_of (groups hf p) n = Some d \<and> ds_data d = StrArray xs \<and> x \<in> set xs)"

section \<open>Properties of the hasher\<close>

lemma filter_key_distinct:
  "distinct (map f xs) \<Longrightarrow> k \<in> set xs \<Longrightarrow> filter (\<lambda>x. f k = f x) xs = [k]"
proof (induction xs)
  case Nil
  then show ?case by simp
next
  case (Cons x xs)
  show ?case
  proof (cases "k = x")
    case True
    have "filter (\<lambda>y. f x = f y) xs = []"
      using Cons.prems(1) by (auto simp: filter_empty_conv)
    with True show ?thesis by simp
  next
    case False
    with Cons.prems have kin: "k \<in> set xs" by simp
    then have "f k \<noteq> f x" using Cons.prems(1) by (auto simp: image_iff)
    with Cons.IH kin Cons.prems(1) show ?thesis by simp
  qed
qed

lemma sort_key_perm:
  assumes "distinct (map f xs)" "mset xs = mset ys"
  shows "sort_key f xs = sort_key f ys"
proof (rule properties_for_sort_key)
  show "mset (sort_key f ys) = mset xs" using assms by simp
  show "sorted (map f (sort_key f ys))" by simp
  fix k assume k: "k \<in> set (sort_key f ys)"
  have "mset (map f (sort_key f ys)) = mset (map f xs)" using assms(2) by simp
  then have d: "distinct (map f (sort_key f ys))"
    using assms(1) by (metis mset_eq_imp_distinct_iff)
  have kx: "k \<in> set xs" using k assms(2) by (metis set_sort mset_eq_setD)
  show "filter (\<lambda>x. f k = f x) (sort_key f ys) = filter (\<lambda>x. f k = f x) xs"
    using filter_key_distinct [OF d k] filter_key_distinct [OF assms(1) kx] by simp
qed

lemma concat_read_blocks: "0 < c \<Longrightarrow> concat (read_blocks c s) = s"
  apply (induction c s rule: read_blocks.induct)
  apply (subst read_blocks.simps) apply auto
  done

lemma fold_update: "fold (\<lambda>b st. sha256_update st b) bs acc = acc @ concat bs"
  by (induction bs arbitrary: acc) (auto simp: sha256_update_def)

lemma hash_bytes_whole: "0 < c \<Longrightarrow> hash_bytes sha c s = sha s"
  by (simp add: hash_bytes_def fold_update concat_read_blocks)


lemma list_all2_map_eq:
  "list_all2 (\<lambda>a b. g a = g b) xs ys \<Longrightarrow> map g xs = map g ys"
  by (induction rule: list_all2_induct) auto

lemma same_content_dumps:
  "same_content v w \<Longrightarrow>
     serializable (immutable_value v) = serializable (immutable_value w) \<and>
     dumps_text True (immutable_value v) = dumps_text True (immutable_value w)"
proof (induction rule: same_content.induct)
  case (sc_refl v)
  show ?case by simp
next
  case (sc_seq v xs w)
  then show ?case by (cases v; cases w) auto
next
  case (sc_dict d' d1 d2)
  let ?s = "\<lambda>kv. serializable (immutable_value (snd kv))"
  let ?h = "\<lambda>kv. (fst kv, dumps_text True (immutable_value (snd kv)))"
  have s12: "map ?s d' = map ?s d2"
    by (rule list_all2_map_eq) (rule list_all2_mono [OF sc_dict.IH], simp)
  have h12: "map ?h d' = map ?h d2"
    by (rule list_all2_map_eq) (rule list_all2_mono [OF sc_dict.IH], simp)
  have "set (map ?s d1) = set (map ?s d')"
    using sc_dict.hyps(1) by (metis mset_eq_setD mset_map)
  with s12 have ser: "(\<forall>kv \<in> set d1. ?s kv) = (\<forall>kv \<in> set d2. ?s kv)"
    by (metis (no_types, lifting) image_iff list.set_map)
  have "distinct (map fst (map ?h d1))" using sc_dict.hyps(2) by (simp add: comp_def)
  moreover have "mset (map ?h d1) = mset (map ?h d')" using sc_dict.hyps(1) by simp
  ultimately have "sort_key fst (map ?h d1) = sort_key fst (map ?h d')"
    by (rule sort_key_perm)
  with h12 have srt: "sort_key fst (map ?h d1) = sort_key fst (map ?h d2)" by simp
  show ?case using ser srt by (simp add: comp_def)
qed


lemma same_content_hash:
  "same_content (PDict d1) (PDict d2) \<Longrightarrow> hash_dict sha cs d1 = hash_dict sha cs d2"
  using same_content_dumps [of "PDict d1" "PDict d2"]
  by (simp add: hash_dict_def dumps_def immutable_dict_def del: dumps_text.simps serializable.simps)

lemma same_content_entry:
  "seq_elems v = Some xs \<Longrightarrow> seq_elems w = Some xs \<Longrightarrow> distinct (map fst (pre @ (k, v) # post)) \<Longrightarrow>
   same_content (PDict (pre @ (k, v) # post)) (PDict (pre @ (k, w) # post))"
  apply (rule sc_dict [where d' = "pre @ (k, v) # post"])
    apply simp
   apply simp
  apply (auto simp: list_all2_appendI list_all2_same intro!: list_all2_appendI sc_refl sc_seq)
  done

text \<open>
  Claim C3. \<^verbatim>\<open>hash_dict\<close> is insensitive to key insertion order and to the container
  a sequence value was built with: mappings with the same content (the same entries in any
  insertion order, at every nesting depth of dictionaries, a sequence entry being a list, a
  tuple or an array of the same elements) get the same digest; in particular a mapping and
  any reordering of its entries do, a list, tuple or array entry with the same elements do,
  and the digest of \<^verbatim>\<open>{"a":1,"b":[1,2]}\<close> equals that of \<^verbatim>\<open>{"b":[1,2],"a":1}\<close>.
\<close>

theorem hash_dict_deterministic:
  "(same_content (PDict d1) (PDict d2) \<longrightarrow> hash_dict sha cs d1 = hash_dict sha cs d2) \<and>
   (distinct (map fst e1) \<and> mset e1 = mset e2 \<longrightarrow> hash_dict sha cs e1 = hash_dict sha cs e2) \<and>
   hash_dict sha cs (pre @ (k, PList xs) # post) = hash_dict sha cs (pre @ (k, PTuple xs) # post) \<and>
   hash_dict sha cs (pre @ (k, PArray xs) # post) = hash_dict sha cs (pre @ (k, PTuple xs) # post) \<and>
   hash_dict sha cs [(''a'', PInt 1), (''b'', PList [PInt 1, PInt 2])] =
     hash_dict sha cs [(''b'', PList [PInt 1, PInt 2]), (''a'', PInt 1)]"
proof (intro conjI impI)
  assume "same_content (PDict d1) (PDict d2)"
  then show "hash_dict sha cs d1 = hash_dict sha cs d2" by (rule same_content_hash)
next
  assume a: "distinct (map fst e1) \<and> mset e1 = mset e2"
  have "same_content (PDict e1) (PDict e2)"
  proof (rule sc_dict [where d' = e2])
    show "mset e2 = mset e1" using a by simp
    show "distinct (map fst e1)" using a by simp
    show "list_all2 (\<lambda>a b. fst a = fst b \<and> same_content (snd a) (snd b)) e2 e2"
      by (simp add: list_all2_same sc_refl)
  qed
  then show "hash_dict sha cs e1 = hash_dict sha cs e2" by (rule same_content_hash)
next
  show "hash_dict sha cs (pre @ (k, PList xs) # post) = hash_dict sha cs (pre @ (k, PTuple xs) # post)"
    by (simp add: hash_dict_def immutable_dict_def)
  show "hash_dict sha cs (pre @ (k, PArray xs) # post) = hash_dict sha cs (pre @ (k, PTuple xs) # post)"
    by (simp add: hash_dict_def immutable_dict_def)
  have "same_content (PDict [(''a'', PInt 1), (''b'', PList [PInt 1, PInt 2])])
          (PDict [(''b'', PList [PInt 1, PInt 2]), (''a'', PInt 1)])"
    by (rule sc_dict [where d' = "[(''b'', PList [PInt 1, PInt 2]), (''a'', PInt 1)]"])
       (simp_all add: sc_refl)
  then show "hash_dict sha cs [(''a'', PInt 1), (''b'', PList [PInt 1, PInt 2])] =
     hash_dict sha cs [(''b'', PList [PInt 1, PInt 2]), (''a'', PInt 1)]"
    by (rule same_content_hash)
qed

theorem hash_dict_deterministic_witness:
  "same_content (PDict [(''p'', PDict [(''x'', PInt 1), (''y'', PArray [PInt 2])]), (''q'', PStr ''s'')])
                (PDict [(''q'', PStr ''s''), (''p'', PDict [(''y'', PList [PInt 2]), (''x'', PInt 1)])]) \<and>
   distinct (map fst [(''a'', PInt 1), (''b'', PList [PInt 1, PInt 2])]) \<and>
   mset [(''a'', PInt 1), (''b'', PList [PInt 1, PInt 2])] = mset [(''b'', PList [PInt 1, PInt 2]), (''a'', PInt 1)] \<and>
   hash_dict (\<lambda>s. s) 1024 [(''p'', PDict [(''x'', PInt 1), (''y'', PArray [PInt 2])]), (''q'', PStr ''s'')] =
     hash_dict (\<lambda>s. s) 1024 [(''q'', PStr ''s''), (''p'', PDict [(''y'', PList [PInt 2]), (''x'', PInt 1)])] \<and>
   hash_dict (\<lambda>s. s) 1024 [(''a'', PInt 1), (''b'', PList [PInt 1, PInt 2])] =
     hash_dict (\<lambda>s. s) 1024 [(''b'', PList [PInt 1, PInt 2]), (''a'', PInt 1)]"
proof -
  have inner: "same_content (PDict [(''x'', PInt 1), (''y'', PArray [PInt 2])])
                 (PDict [(''y'', PList [PInt 2]), (''x'', PInt 1)])"
    by (rule sc_dict [where d' = "[(''y'', PArray [PInt 2]), (''x'', PInt 1)]"])
       (simp_all add: sc_refl sc_seq [where xs = "[PInt 2]"])
  have outer: "same_content (PDict [(''p'', PDict [(''x'', PInt 1), (''y'', PArray [PInt 2])]), (''q'', PStr ''s'')])
                (PDict [(''q'', PStr ''s''), (''p'', PDict [(''y'', PList [PInt 2]), (''x'', PInt 1)])])"
    by (rule sc_dict [where d' = "[(''q'', PStr ''s''), (''p'', PDict [(''x'', PInt 1), (''y'', PArray [PInt 2])])]"])
       (simp_all add: sc_refl inner)
  have perm: "distinct (map fst [(''a'', PInt 1), (''b'', PList [PInt 1, PInt 2])]) \<and>
   mset [(''a'', PInt 1), (''b'', PList [PInt 1, PInt 2])] = mset [(''b'', PList [PInt 1, PInt 2]), (''a'', PInt 1)]"
    by simp
  show ?thesis
    using outer perm
      hash_dict_deterministic [of
        "[(''p'', PDict [(''x'', PInt 1), (''y'', PArray [PInt 2])]), (''q'', PStr ''s'')]"
        "[(''q'', PStr ''s''), (''p'', PDict [(''y'', PList [PInt 2]), (''x'', PInt 1)])]"
        "\<lambda>s. s" 1024
        "[(''a'', PInt 1), (''b'', PList [PInt 1, PInt 2])]"
        "[(''b'', PList [PInt 1, PInt 2]), (''a'', PInt 1)]"]
    by blast
qed

lemma map_of_update_entry:
  "map_of (update_entry n f g) i = (if i = n then map_option f (map_of g i) else map_of g i)"
  by (induction g) (auto simp: update_entry_def)

lemma keys_update_entry [simp]: "keys (update_entry n f g) = keys g"
  by (induction g) (auto simp: update_entry_def keys_def)

lemma groups_set_attr:
  "groups (set_attr p n a v hf) q =
     (if q = p then update_entry n (with_attr a v) (groups hf p) else groups hf q)"
  by (simp add: set_attr_def)

lemma groups_set_attr_other [simp]: "q \<noteq> p \<Longrightarrow> groups (set_attr p n a v hf) q = groups hf q"
  by (simp add: set_attr_def)

lemma arrays_set_attr [simp]: "arrays (set_attr p n a v hf) = arrays hf"
  by (simp add: set_attr_def)

lemma keys_set_attr [simp]: "keys (groups (set_attr p n a v hf) q) = keys (groups hf q)"
  by (simp add: groups_set_attr)

lemma map_of_set_attr:
  "map_of (groups (set_attr p n a v hf) q) i =
     (if q = p \<and> i = n then map_option (with_attr a v) (map_of (groups hf q) i)
      else map_of (groups hf q) i)"
  by (simp add: groups_set_attr map_of_update_entry)

lemma re_search_None: "re_search p s0 = None \<longleftrightarrow> (\<forall>c \<in> set s0. \<not> p c)"
  by (induction s0) auto

lemma is_string_blank_iff: "is_string_blank s0 \<longleftrightarrow> (\<forall>c \<in> set s0. \<not> is_word_char c)"
proof -
  have "is_string_blank s0 \<longleftrightarrow> re_search is_word_char s0 = None"
    by (simp add: is_string_blank_def split: option.splits)
  then show ?thesis by (simp only: re_search_None)
qed

lemma string_has_space_iff: "string_has_space s0 \<longleftrightarrow> (\<exists>c \<in> set s0. is_space_char c)"
proof -
  have "string_has_space s0 \<longleftrightarrow> re_search is_space_char s0 \<noteq> None"
    by (simp add: string_has_space_def split: option.splits)
  then show ?thesis by (simp only: re_search_None) simp
qed

text \<open>
  Claim C2. A save whose proposed top-level name is already a display name of the
  transaction table of its class (for hair, of the points table) raises
  \<^verbatim>\<open>NameExistsError\<close> and leaves the file as it was: material, geometry-node, physics,
  collision and hair saves.
\<close>

theorem top_level_name_collision:
  "(Some preset_name \<in> set (get_names (groups hf ''/PRESETS/MATERIALS/TRANSACTIONS'')) \<longrightarrow>
      material_preset_processing sha hf material preset_name user = (hf, Inl NameExistsError)) \<and>
   (Some preset_name \<in> set (get_names (groups hf ''/PRESETS/GEOMETRY_NODES/TRANSACTIONS'')) \<longrightarrow>
      geometry_node_preset_processing sha hf node_group preset_name user = (hf, Inl NameExistsError)) \<and>
   (Some preset_name \<in> set (get_names (groups hf (''/PHYSICS/'' @ ptype))) \<longrightarrow>
      physics_preset_processing sha hf ptype data preset_name = (hf, Inl NameExistsError)) \<and>
   (Some preset_name \<in> set (get_names (groups hf ''/PHYSICS/COLLISION'')) \<longrightarrow>
      collision_preset_processing sha hf data preset_name = (hf, Inl NameExistsError)) \<and>
   (Some preset_name \<in> set (get_names (groups hf ''/HAIR/POINTS'')) \<longrightarrow>
      hair_preset_processing sha hf data preset_name = (hf, Inl NameExistsError))"
  by (simp add: material_preset_processing_def geometry_node_preset_processing_def
      preset_processing_def type_file_def physics_preset_processing_def
      collision_preset_processing_def settings_preset_processing_def hair_preset_processing_def)

theorem top_level_name_collision_witness:
  "Some ''Foo'' \<in> set (get_names (groups (named_store ''Foo'') ''/PRESETS/MATERIALS/TRANSACTIONS'')) \<and>
   Some ''Foo'' \<in> set (get_names (groups (named_store ''Foo'') ''/PRESETS/GEOMETRY_NODES/TRANSACTIONS'')) \<and>
   Some ''Foo'' \<in> set (get_names (groups (named_store ''Foo'') (''/PHYSICS/'' @ ''CLOTH''))) \<and>
   Some ''Foo'' \<in> set (get_names (groups (named_store ''Foo'') ''/PHYSICS/COLLISION'')) \<and>
   Some ''Foo'' \<in> set (get_names (groups (named_store ''Foo'') ''/HAIR/POINTS'')) \<and>
   material_preset_processing (\<lambda>s. s) (named_store ''Foo'')
       \<lparr>mat_name = ''Skin'', mat_node_tree = ([], []), mat_node_data = []\<rparr> ''Foo'' ''USER''
     = (named_store ''Foo'', Inl NameExistsError) \<and>
   geometry_node_preset_processing (\<lambda>s. s) (named_store ''Foo'')
       \<lparr>ng_name = ''Hair'', ng_node_tree = ([], []), ng_input_data = []\<rparr> ''Foo'' ''USER''
     = (named_store ''Foo'', Inl NameExistsError) \<and>
   physics_preset_processing (\<lambda>s. s) (named_store ''Foo'') ''CLOTH'' [(''mass'', PInt 1)] ''Foo''
     = (named_store ''Foo'', Inl NameExistsError) \<and>
   collision_preset_processing (\<lambda>s. s) (named_store ''Foo'') [(''mass'', PInt 1)] ''Foo''
     = (named_store ''Foo'', Inl NameExistsError) \<and>
   hair_preset_processing (\<lambda>s. s) (named_store ''Foo'') [(''mass'', PInt 1)] ''Foo''
     = (named_store ''Foo'', Inl NameExistsError)"
proof -
  have h: "Some ''Foo'' \<in> set (get_names (groups (named_store ''Foo'') path))" for path
    by (simp add: named_store_def get_names_def)
  show ?thesis
    using h top_level_name_collision [of "''Foo''" "named_store ''Foo''" "\<lambda>s. s"
        "\<lparr>mat_name = ''Skin'', mat_node_tree = ([], []), mat_node_data = []\<rparr>" "''USER''"
        "\<lparr>ng_name = ''Hair'', ng_node_tree = ([], []), ng_input_data = []\<rparr>"
        "''CLOTH''" "[(''mass'', PInt 1)]"]
    by blast
qed

text \<open>
  Claim C8. Renaming a record to a name that is already a display name of its table raises
  \<^verbatim>\<open>NameExistsError\<close> and changes nothing. Otherwise, for a record that is in the table,
  the previous name is returned, the record's name attribute is the new name, and its data,
  the other records, the other groups and the index arrays are unchanged.
\<close>

theorem rename_failure_atomic:
  "(Some name \<in> set (get_names (groups hf pfile)) \<longrightarrow>
      change_preset_name hf pfile ident name = (hf, Inl NameExistsError)) \<and>
   (Some name \<notin> set (get_names (groups hf pfile)) \<and> map_of (groups hf pfile) ident = Some d \<longrightarrow>
      snd (change_preset_name hf pfile ident name) = Inr (ds_attrs d ''name'') \<and>
      map_of (groups (fst (change_preset_name hf pfile ident name)) pfile) ident
        = Some (d\<lparr>ds_attrs := (ds_attrs d)(''name'' \<mapsto> name)\<rparr>) \<and>
      (\<forall>i. i \<noteq> ident \<longrightarrow>
           map_of (groups (fst (change_preset_name hf pfile ident name)) pfile) i = map_of (groups hf pfile) i) \<and>
      keys (groups (fst (change_preset_name hf pfile ident name)) pfile) = keys (groups hf pfile) \<and>
      (\<forall>p. p \<noteq> pfile \<longrightarrow> groups (fst (change_preset_name hf pfile ident name)) p = groups hf p) \<and>
      arrays (fst (change_preset_name hf pfile ident name)) = arrays hf)"
  by (auto simp: change_preset_name_def map_of_set_attr with_attr_def)

theorem rename_failure_atomic_witness:
  "Some ''Foo'' \<in> set (get_names (groups (named_store ''Foo'') ''/NODES'')) \<and>
   change_preset_name (named_store ''Foo'') ''/NODES'' ''0a'' ''Foo'' = (named_store ''Foo'', Inl NameExistsError) \<and>
   Some ''Bar'' \<notin> set (get_names (groups (named_store ''Foo'') ''/NODES'')) \<and>
   map_of (groups (named_store ''Foo'') ''/NODES'') ''0a''
     = Some \<lparr>ds_data = JsonText (PDict []), ds_attrs = [''name'' \<mapsto> ''Foo'']\<rparr> \<and>
   snd (change_preset_name (named_store ''Foo'') ''/NODES'' ''0a'' ''Bar'') = Inr (Some ''Foo'') \<and>
   map_of (groups (fst (change_preset_name (named_store ''Foo'') ''/NODES'' ''0a'' ''Bar'')) ''/NODES'') ''0a''
     = Some \<lparr>ds_data = JsonText (PDict []), ds_attrs = [''name'' \<mapsto> ''Bar'']\<rparr>"
proof -
  have a: "Some ''Foo'' \<in> set (get_names (groups (named_store ''Foo'') ''/NODES''))"
    by (simp add: named_store_def get_names_def)
  have b: "Some ''Bar'' \<notin> set (get_names (groups (named_store ''Foo'') ''/NODES''))"
    by (simp add: named_store_def get_names_def)
  have c: "map_of (groups (named_store ''Foo'') ''/NODES'') ''0a''
     = Some \<lparr>ds_data = JsonText (PDict []), ds_attrs = [''name'' \<mapsto> ''Foo'']\<rparr>"
    by (simp add: named_store_def)
  show ?thesis
    using a b c
      rename_failure_atomic [of "''Foo''" "named_store ''Foo''" "''/NODES''" "''0a''"
        "\<lparr>ds_data = JsonText (PDict []), ds_attrs = [''name'' \<mapsto> ''Foo'']\<rparr>"]
      rename_failure_atomic [of "''Bar''" "named_store ''Foo''" "''/NODES''" "''0a''"
        "\<lparr>ds_data = JsonText (PDict []), ds_attrs = [''name'' \<mapsto> ''Foo'']\<rparr>"]
    by simp
qed

text \<open>
  Claim C10. Every save operator cancels with an error report, the disk untouched, when the
  proposed name has no word character, has a whitespace character, or is \<^verbatim>\<open>NONE\<close> in any
  letter case: the operators for a material, a node group, a single node, a modifier stack,
  physics, collision and hair settings. The operator for a single node cancels with an error
  also when the tree of the node is not found, which it tests first.
\<close>

theorem save_operator_rejects_bad_name:
  "(\<forall>c \<in> set preset_name. \<not> is_word_char c) \<or> (\<exists>c \<in> set preset_name. is_space_char c) \<or>
     upper preset_name = code_points ''NONE'' \<Longrightarrow>
   (\<exists>msg. save_operator_execute preset_name kind_cap kind subject owner d save = (d, ERROR msg, CANCELLED)) \<and>
   (\<exists>msg. HAIRFACTORY_OT_save_mat_execute sha rf d material preset_name user = (d, ERROR msg, CANCELLED)) \<and>
   (\<exists>msg. HAIRFACTORY_OT_save_node_group_execute sha rf d node_group preset_name user = (d, ERROR msg, CANCELLED)) \<and>
   (\<exists>msg. HAIRFACTORY_OT_save_phy_execute sha rf d mesh_name ptype data preset_name = (d, ERROR msg, CANCELLED)) \<and>
   (\<exists>msg. HAIRFACTORY_OT_save_col_execute sha rf d mesh_name data preset_name = (d, ERROR msg, CANCELLED)) \<and>
   (\<exists>msg. HAIRFACTORY_OT_save_hair_execute sha rf d mesh_name data preset_name = (d, ERROR msg, CANCELLED)) \<and>
   (\<exists>msg. HAIRFACTORY_OT_save_node_execute sha rf d node name node_tree cls preset_name = (d, ERROR msg, CANCELLED)) \<and>
   (\<exists>msg. HAIRFACTORY_OT_save_mod_stack_execute sha rf d ob_name modifiers preset_name include
           = (d, STACK_ERROR msg, CANCELLED))"
proof -
  assume "(\<forall>c \<in> set preset_name. \<not> is_word_char c) \<or> (\<exists>c \<in> set preset_name. is_space_char c) \<or>
     upper preset_name = code_points ''NONE''"
  then have bad: "is_string_blank preset_name \<or> string_has_space preset_name \<or>
     upper preset_name = code_points ''NONE''"
    by (simp add: is_string_blank_iff string_has_space_iff)
  have gen: "\<exists>msg. save_operator_execute preset_name kc k s ow d sv = (d, ERROR msg, CANCELLED)" for kc k s ow sv
    using bad by (auto simp: save_operator_execute_def)
  have node: "\<exists>msg. HAIRFACTORY_OT_save_node_execute sha rf d node name node_tree cls preset_name
                = (d, ERROR msg, CANCELLED)"
    using gen by (cases node_tree) (simp_all add: HAIRFACTORY_OT_save_node_execute_def)
  have stack: "\<exists>msg. HAIRFACTORY_OT_save_mod_stack_execute sha rf d ob_name modifiers preset_name include
                = (d, STACK_ERROR msg, CANCELLED)"
    using bad by (auto simp: HAIRFACTORY_OT_save_mod_stack_execute_def)
  show ?thesis
    unfolding HAIRFACTORY_OT_save_mat_execute_def HAIRFACTORY_OT_save_node_group_execute_def
      HAIRFACTORY_OT_save_phy_execute_def HAIRFACTORY_OT_save_col_execute_def
      HAIRFACTORY_OT_save_hair_execute_def
    by (intro conjI gen node stack)
qed

theorem save_operator_rejects_bad_name_witness:
  "((\<forall>c \<in> set ''..''. \<not> is_word_char c) \<or> (\<exists>c \<in> set ''..''. is_space_char c) \<or> upper ''..'' = code_points ''NONE'') \<and>
   ((\<forall>c \<in> set ''my preset''. \<not> is_word_char c) \<or> (\<exists>c \<in> set ''my preset''. is_space_char c) \<or>
      upper ''my preset'' = code_points ''NONE'') \<and>
   ((\<forall>c \<in> set ''None''. \<not> is_word_char c) \<or> (\<exists>c \<in> set ''None''. is_space_char c) \<or>
      upper ''None'' = code_points ''NONE'') \<and>
   ((\<forall>c \<in> set [CHR ''a'', CHR 0xA0, CHR ''b'']. \<not> is_word_char c) \<or>
      (\<exists>c \<in> set [CHR ''a'', CHR 0xA0, CHR ''b'']. is_space_char c) \<or>
      upper [CHR ''a'', CHR 0xA0, CHR ''b''] = code_points ''NONE'') \<and>
   (\<exists>msg. HAIRFACTORY_OT_save_mat_execute (\<lambda>s. s) False \<lparr>zip_entry = Some create_preset_files, extract_file = None\<rparr>
             \<lparr>mat_name = ''Skin'', mat_node_tree = ([], []), mat_node_data = []\<rparr> ''..'' ''USER''
           = (\<lparr>zip_entry = Some create_preset_files, extract_file = None\<rparr>, ERROR msg, CANCELLED)) \<and>
   (\<exists>msg. HAIRFACTORY_OT_save_mat_execute (\<lambda>s. s) False \<lparr>zip_entry = Some create_preset_files, extract_file = None\<rparr>
             \<lparr>mat_name = ''Skin'', mat_node_tree = ([], []), mat_node_data = []\<rparr> ''my preset'' ''USER''
           = (\<lparr>zip_entry = Some create_preset_files, extract_file = None\<rparr>, ERROR msg, CANCELLED)) \<and>
   (\<exists>msg. HAIRFACTORY_OT_save_node_group_execute (\<lambda>s. s) False \<lparr>zip_entry = Some create_preset_files, extract_file = None\<rparr>
             \<lparr>ng_name = ''Hair'', ng_node_tree = ([], []), ng_input_data = []\<rparr> ''None'' ''USER''
           = (\<lparr>zip_entry = Some create_preset_files, extract_file = None\<rparr>, ERROR msg, CANCELLED)) \<and>
   (\<exists>msg. HAIRFACTORY_OT_save_node_execute (\<lambda>s. s) False \<lparr>zip_entry = Some create_preset_files, extract_file = None\<rparr>
             2 ''Color'' (Some (ng_node_tree color_group)) Geometry_Node [CHR ''a'', CHR 0xA0, CHR ''b'']
           = (\<lparr>zip_entry = Some create_preset_files, extract_file = None\<rparr>, ERROR msg, CANCELLED)) \<and>
   (\<exists>msg. HAIRFACTORY_OT_save_mod_stack_execute (\<lambda>s. s) False \<lparr>zip_entry = Some create_preset_files, extract_file = None\<rparr>
             ''Head'' [\<lparr>md_type = ''NODES'', md_node_group = Some color_group, md_user = ''USER''\<rparr>] ''None'' False
           = (\<lparr>zip_entry = Some create_preset_files, extract_file = None\<rparr>, STACK_ERROR msg, CANCELLED))"
proof -
  have a: "(\<forall>c \<in> set ''..''. \<not> is_word_char c) \<or> (\<exists>c \<in> set ''..''. is_space_char c) \<or> upper ''..'' = code_points ''NONE''"
    by (simp add: is_word_char_def)
  have b: "(\<forall>c \<in> set ''my preset''. \<not> is_word_char c) \<or> (\<exists>c \<in> set ''my preset''. is_space_char c) \<or>
      upper ''my preset'' = code_points ''NONE''"
    by (simp add: is_space_char_def)
  have c: "(\<forall>c \<in> set ''None''. \<not> is_word_char c) \<or> (\<exists>c \<in> set ''None''. is_space_char c) \<or>
      upper ''None'' = code_points ''NONE''"
  proof -
    have "upper ''None'' = code_points ''NONE''" by code_simp
    then show ?thesis by simp
  qed
  have e: "(\<forall>c \<in> set [CHR ''a'', CHR 0xA0, CHR ''b'']. \<not> is_word_char c) \<or>
      (\<exists>c \<in> set [CHR ''a'', CHR 0xA0, CHR ''b'']. is_space_char c) \<or>
      upper [CHR ''a'', CHR 0xA0, CHR ''b''] = code_points ''NONE''"
    by (simp add: is_space_char_def)
  have m1: "\<exists>msg. HAIRFACTORY_OT_save_mat_execute (\<lambda>s. s) False \<lparr>zip_entry = Some create_preset_files, extract_file = None\<rparr>
             \<lparr>mat_name = ''Skin'', mat_node_tree = ([], []), mat_node_data = []\<rparr> ''..'' ''USER''
           = (\<lparr>zip_entry = Some create_preset_files, extract_file = None\<rparr>, ERROR msg, CANCELLED)"
    by (rule conjunct1 [OF conjunct2 [OF save_operator_rejects_bad_name [OF a]]])
  have m2: "\<exists>msg. HAIRFACTORY_OT_save_mat_execute (\<lambda>s. s) False \<lparr>zip_entry = Some create_preset_files, extract_file = None\<rparr>
             \<lparr>mat_name = ''Skin'', mat_node_tree = ([], []), mat_node_data = []\<rparr> ''my preset'' ''USER''
           = (\<lparr>zip_entry = Some create_preset_files, extract_file = None\<rparr>, ERROR msg, CANCELLED)"
    by (rule conjunct1 [OF conjunct2 [OF save_operator_rejects_bad_name [OF b]]])
  have m3: "\<exists>msg. HAIRFACTORY_OT_save_node_group_execute (\<lambda>s. s) False \<lparr>zip_entry = Some create_preset_files, extract_file = None\<rparr>
             \<lparr>ng_name = ''Hair'', ng_node_tree = ([], []), ng_input_data = []\<rparr> ''None'' ''USER''
           = (\<lparr>zip_entry = Some create_preset_files, extract_file = None\<rparr>, ERROR msg, CANCELLED)"
    by (rule conjunct1 [OF conjunct2 [OF conjunct2 [OF save_operator_rejects_bad_name [OF c]]]])
  have m4: "\<exists>msg. HAIRFACTORY_OT_save_node_execute (\<lambda>s. s) False \<lparr>zip_entry = Some create_preset_files, extract_file = None\<rparr>
             2 ''Color'' (Some (ng_node_tree color_group)) Geometry_Node [CHR ''a'', CHR 0xA0, CHR ''b'']
           = (\<lparr>zip_entry = Some create_preset_files, extract_file = None\<rparr>, ERROR msg, CANCELLED)"
    by (rule conjunct1 [OF conjunct2 [OF conjunct2 [OF conjunct2 [OF conjunct2 [OF conjunct2 [OF conjunct2
          [OF save_operator_rejects_bad_name [OF e]]]]]]]])
  have m5: "\<exists>msg. HAIRFACTORY_OT_save_mod_stack_execute (\<lambda>s. s) False \<lparr>zip_entry = Some create_preset_files, extract_file = None\<rparr>
             ''Head'' [\<lparr>md_type = ''NODES'', md_node_group = Some color_group, md_user = ''USER''\<rparr>] ''None'' False
           = (\<lparr>zip_entry = Some create_preset_files, extract_file = None\<rparr>, STACK_ERROR msg, CANCELLED)"
    by (rule conjunct2 [OF conjunct2 [OF conjunct2 [OF conjunct2 [OF conjunct2 [OF conjunct2 [OF conjunct2
          [OF save_operator_rejects_bad_name [OF c]]]]]]]])
  show ?thesis
    using a b c e m1 m2 m3 m4 m5 by (intro conjI)
qed

section \<open>The archive wrapper\<close>

text \<open>
  Claim C7. The wrapper does not pass an exception on. The mutation function below raises
  \<^verbatim>\<open>NameExistsError\<close>; \<^verbatim>\<open>modify_in_zip\<close> removes the working copy, leaves the archive
  as it was and returns \<^verbatim>\<open>None\<close>. When recompression fails the member of the archive is
  lost, the archive having been opened for writing before the failure.
\<close>

theorem modify_in_zip_swallows_exception:
  "material_preset_processing sha (named_store ''Foo'')
       \<lparr>mat_name = ''Skin'', mat_node_tree = ([], []), mat_node_data = []\<rparr> ''Foo'' ''USER''
     = (named_store ''Foo'', Inl NameExistsError) \<and>
   modify_in_zip False \<lparr>zip_entry = Some (named_store ''Foo''), extract_file = None\<rparr>
       (\<lambda>file. material_preset_processing sha file
                 \<lparr>mat_name = ''Skin'', mat_node_tree = ([], []), mat_node_data = []\<rparr> ''Foo'' ''USER'')
     = (\<lparr>zip_entry = Some (named_store ''Foo''), extract_file = None\<rparr>, None) \<and>
   modify_in_zip True \<lparr>zip_entry = Some create_preset_files, extract_file = None\<rparr>
       (\<lambda>file. collision_preset_processing sha file [(''damping'', PInt 1)] ''Foo'')
     = (\<lparr>zip_entry = None, extract_file = None\<rparr>, None)"
  by (simp add: modify_in_zip_def material_preset_processing_def preset_processing_def type_file_def
      named_store_def get_names_def collision_preset_processing_def settings_preset_processing_def
      create_preset_files_def hash_dict_def dumps_def immutable_dict_def keys_def json_text_def)

section \<open>Export and import of a preset with a special node\<close>

lemmas eval_defs =
  geometry_node_preset_processing_def preset_processing_def type_file_def create_preset_files_def
  get_names_def keys_def get_all_nodes_def hash_dict_def hash_list_def dumps_def immutable_dict_def
  bind_def info_step_def data_step_def node_stack_step_def transaction_step_def links_step_def
  json_text_def create_dataset_def set_attr_def update_entry_def with_attr_def unique_name_def
  as_dict_def as_list_def node_type_dict_def slice_dict_def path_val_def class_name_def
  node_type_abbr_dict_def store_node_def register_node_def get_special_node_def py_index_def
  get_nodes_func_def color_group_def append_id_def

text \<open>
  Claim C5. A geometry-node preset with one colour node is saved into an empty store and
  exported. The exporter writes four fields per special node (address, payload, name, id);
  the importer reads the fields at positions 2, 3 and 4, so importing the document into an
  empty store raises \<^verbatim>\<open>IndexError\<close>, and through \<^verbatim>\<open>modify_in_zip\<close> nothing is stored.
\<close>

lemmas export_defs =
  export_gn_preset_data_by_preset_id_def export_preset_data_by_preset_id_def ebind_def lookup_def
  get_attr_def loads_def dict_get_def as_str_def import_gn_preset_data_def import_preset_data_def
  import_records_def import_info_step_def import_node_stack_step_def modify_in_zip_def

theorem export_import_round_trip_fails:
  "snd (geometry_node_preset_processing sha create_preset_files color_group ''Foo'' ''USER'')
     = Inr (True, Some ''Foo'') \<and>
   (let hf = fst (geometry_node_preset_processing sha create_preset_files color_group ''Foo'' ''USER'');
        pid = hd (keys (groups hf ''/PRESETS/GEOMETRY_NODES/TRANSACTIONS''))
    in case export_gn_preset_data_by_preset_id hf pid of
         Inl e \<Rightarrow> False
       | Inr doc \<Rightarrow>
           doc_id doc = pid \<and> map (length \<circ> snd) (doc_nodes doc) = [1] \<and>
           snd (import_gn_preset_data create_preset_files doc) = Inl IndexError \<and>
           modify_in_zip False \<lparr>zip_entry = Some create_preset_files, extract_file = None\<rparr>
               (\<lambda>file. import_gn_preset_data file doc)
             = (\<lparr>zip_entry = Some create_preset_files, extract_file = None\<rparr>, None))"
  by (simp add: eval_defs export_defs Let_def)

section \<open>Series names of inner records\<close>

lemma max_series_skip_None:
  "get_max_series_num_from num name (data @ [None]) = get_max_series_num_from num name data"
  by (induction data arbitrary: num) (auto simp: Let_def split: option.splits sum.splits)

lemma get_names_create_dataset:
  "get_names (groups (create_dataset p n t hf) p) = get_names (groups hf p) @ [None]"
  by (simp add: create_dataset_def get_names_def)

lemma max_series_bounds:
  "get_max_series_num_from num name data = Inr m \<Longrightarrow>
     num \<le> m \<and>
     (\<forall>s. Some s \<in> set data \<and> s \<noteq> [] \<and> hd (split_on CHR ''.'' s) = hd (split_on CHR ''.'' name) \<and>
          length (split_on CHR ''.'' s) > 1 \<longrightarrow>
          (\<exists>i. py_int (split_on CHR ''.'' s ! 1) = Inr i \<and> i \<le> m)) \<and>
     (m = num \<or>
      (\<exists>s. Some s \<in> set data \<and> hd (split_on CHR ''.'' s) = hd (split_on CHR ''.'' name) \<and>
           py_int (split_on CHR ''.'' s ! 1) = Inr m))"
proof (induction data arbitrary: num)
  case Nil
  then show ?case by simp
next
  case (Cons n data)
  show ?case
  proof (cases n)
    case None
    with Cons.prems have "get_max_series_num_from num name data = Inr m" by simp
    from Cons.IH [OF this] None show ?thesis by auto
  next
    case (Some s)
    let ?ns = "split_on CHR ''.'' s"
    show ?thesis
    proof (cases "s \<noteq> [] \<and> hd ?ns = hd (split_on CHR ''.'' name) \<and> length ?ns > 1")
      case False
      with Cons.prems Some have "get_max_series_num_from num name data = Inr m"
        by (auto simp: Let_def split: if_splits)
      from Cons.IH [OF this] Some False show ?thesis by auto
    next
      case True
      with Cons.prems Some obtain i where i: "py_int (?ns ! 1) = Inr i"
        and rest: "get_max_series_num_from (if i > num then i else num) name data = Inr m"
        by (auto simp: Let_def split: sum.splits)
      from Cons.IH [OF rest] have
        ih1: "(if i > num then i else num) \<le> m" and
        ih2: "\<forall>s. Some s \<in> set data \<and> s \<noteq> [] \<and> hd (split_on CHR ''.'' s) = hd (split_on CHR ''.'' name) \<and>
          length (split_on CHR ''.'' s) > 1 \<longrightarrow>
          (\<exists>i. py_int (split_on CHR ''.'' s ! 1) = Inr i \<and> i \<le> m)" and
        ih3: "m = (if i > num then i else num) \<or>
          (\<exists>s. Some s \<in> set data \<and> hd (split_on CHR ''.'' s) = hd (split_on CHR ''.'' name) \<and>
           py_int (split_on CHR ''.'' s ! 1) = Inr m)"
        by blast+
      have a: "num \<le> m" using ih1 by (auto split: if_splits)
      have im: "i \<le> m" using ih1 by (auto split: if_splits)
      have b: "\<forall>s'. Some s' \<in> set (n # data) \<and> s' \<noteq> [] \<and> hd (split_on CHR ''.'' s') = hd (split_on CHR ''.'' name) \<and>
          length (split_on CHR ''.'' s') > 1 \<longrightarrow>
          (\<exists>i. py_int (split_on CHR ''.'' s' ! 1) = Inr i \<and> i \<le> m)"
        using ih2 i im Some by auto
      have c: "m = num \<or>
        (\<exists>s'. Some s' \<in> set (n # data) \<and> hd (split_on CHR ''.'' s') = hd (split_on CHR ''.'' name) \<and>
           py_int (split_on CHR ''.'' s' ! 1) = Inr m)"
        using ih3 i True Some by (auto split: if_splits)
      from a b c show ?thesis by blast
    qed
  qed
qed

lemma length_str_nat: "length (str_nat n) = (if n < 10 then 1 else Suc (length (str_nat (n div 10))))"
  by (subst str_nat.simps) simp

lemma length_str_nat_pos: "0 < length (str_nat n)"
  using length_str_nat [of n] by (auto split: if_splits)

lemma length_str_nat_small: "n < 1000 \<Longrightarrow> length (str_nat n) \<le> 3"
proof -
  assume n: "n < 1000"
  then have "n div 10 div 10 < 10"
    by (simp add: div_mult2_eq[symmetric] less_mult_imp_div_less)
  then show ?thesis
    using length_str_nat [of n] length_str_nat [of "n div 10"] length_str_nat [of "n div 10 div 10"]
    by (simp split: if_splits)
qed

lemma length_str_nat_large: "1000 \<le> n \<Longrightarrow> 3 < length (str_nat n)"
proof -
  assume n: "1000 \<le> n"
  then have a: "10 \<le> n div 10 div 10" by (simp add: div_mult2_eq[symmetric] less_eq_div_iff_mult_less_eq)
  from n have b: "10 \<le> n div 10" by (simp add: less_eq_div_iff_mult_less_eq)
  from n have c: "10 \<le> n" by simp
  have "length (str_nat n) = Suc (length (str_nat (n div 10)))"
    using c length_str_nat [of n] by simp
  moreover have "length (str_nat (n div 10)) = Suc (length (str_nat (n div 10 div 10)))"
    using b length_str_nat [of "n div 10"] by simp
  moreover have "length (str_nat (n div 10 div 10)) = Suc (length (str_nat (n div 10 div 10 div 10)))"
    using a length_str_nat [of "n div 10 div 10"] by simp
  ultimately show ?thesis using length_str_nat_pos [of "n div 10 div 10 div 10"] by simp
qed

lemma length_zfill: "length (zfill w s0) = max w (length s0)"
  by (simp add: zfill_def)

lemma zfill_series:
  "0 \<le> ms \<Longrightarrow> (ms < 999 \<longrightarrow> length (zfill 3 (str_int (ms + 1))) = 3) \<and>
                (999 \<le> ms \<longrightarrow> zfill 3 (str_int (ms + 1)) = str_int (ms + 1) \<and> 3 < length (str_int (ms + 1)))"
proof -
  assume ms: "0 \<le> ms"
  then have si: "str_int (ms + 1) = str_nat (nat (ms + 1))" by (simp add: str_int_def)
  show ?thesis
  proof (intro conjI impI)
    assume "ms < 999"
    then have "nat (ms + 1) < 1000" using ms by simp
    then have "length (str_nat (nat (ms + 1))) \<le> 3" by (rule length_str_nat_small)
    then show "length (zfill 3 (str_int (ms + 1))) = 3" by (simp add: si length_zfill)
  next
    assume "999 \<le> ms"
    then have "1000 \<le> nat (ms + 1)" by simp
    then have l: "3 < length (str_nat (nat (ms + 1)))" by (rule length_str_nat_large)
    then show "zfill 3 (str_int (ms + 1)) = str_int (ms + 1)" by (simp add: si zfill_def)
    from l show "3 < length (str_int (ms + 1))" by (simp add: si)
  qed
qed

text \<open>
  Claim C9, amended. When a new values record (the DATA step) or node record is created
  under a suggested name that is already a display name of its table, and the series
  numbers of the table can be read, the stored name is the part of the suggested name
  before its first dot, a dot, and the number one above the highest series number of the
  names with that base, padded with zeros to at least three digits: exactly three below
  1000, more from 1000 on. A second record suggested as \<^verbatim>\<open>Foo\<close> is named \<^verbatim>\<open>Foo.001\<close>.
\<close>

theorem inner_name_auto_suffix:
  assumes "Some suggested \<in> set (get_names (groups hf path))"
    and "get_max_series_num suggested (get_names (groups hf path)) = Inr ms"
    and "ident \<notin> set (keys (groups hf path))"
    and "json_text v = Inr text"
  shows "(path = type_file cls ''DATA'' \<longrightarrow>
            data_step cls v ident suggested hf =
              (set_attr path ident ''name'' (hd (split_on CHR ''.'' suggested) @ ''.'' @ zfill 3 (str_int (ms + 1)))
                 (create_dataset path ident text hf), Inr ())) \<and>
         (path = ''/NODES'' \<and> v = PDict data \<longrightarrow>
            store_node ntype data ident suggested ct hf =
              (set_attr path ident ''type'' ntype
                (set_attr path ident ''name'' (hd (split_on CHR ''.'' suggested) @ ''.'' @ zfill 3 (str_int (ms + 1)))
                  (create_dataset path ident text hf)), Inr (Suc ct))) \<and>
         map_of (groups (set_attr path ident ''name'' (hd (split_on CHR ''.'' suggested) @ ''.'' @ zfill 3 (str_int (ms + 1)))
                   (create_dataset path ident text hf)) path) ident
           = Some \<lparr>ds_data = text,
                    ds_attrs = [''name'' \<mapsto> hd (split_on CHR ''.'' suggested) @ ''.'' @ zfill 3 (str_int (ms + 1))]\<rparr> \<and>
         0 \<le> ms \<and>
         (\<forall>s. Some s \<in> set (get_names (groups hf path)) \<and> s \<noteq> [] \<and>
              hd (split_on CHR ''.'' s) = hd (split_on CHR ''.'' suggested) \<and> length (split_on CHR ''.'' s) > 1 \<longrightarrow>
              (\<exists>i. py_int (split_on CHR ''.'' s ! 1) = Inr i \<and> i \<le> ms)) \<and>
         (ms = 0 \<or>
          (\<exists>s. Some s \<in> set (get_names (groups hf path)) \<and>
               hd (split_on CHR ''.'' s) = hd (split_on CHR ''.'' suggested) \<and>
               py_int (split_on CHR ''.'' s ! 1) = Inr ms)) \<and>
         (ms < 999 \<longrightarrow> length (zfill 3 (str_int (ms + 1))) = 3) \<and>
         (999 \<le> ms \<longrightarrow> zfill 3 (str_int (ms + 1)) = str_int (ms + 1) \<and> 3 < length (str_int (ms + 1)))"
proof -
  let ?g = "groups hf path"
  let ?hf1 = "create_dataset path ident text hf"
  let ?new = "hd (split_on CHR ''.'' suggested) @ ''.'' @ zfill 3 (str_int (ms + 1))"
  from assms(2) have from0: "get_max_series_num_from 0 suggested (get_names ?g) = Inr ms"
    by (simp add: get_max_series_num_def)
  note b = max_series_bounds [OF from0]
  have ms0: "0 \<le> ms" using b by simp
  have names1: "get_names (groups ?hf1 path) = get_names ?g @ [None]"
    by (rule get_names_create_dataset)
  have un: "unique_name path suggested ?hf1 = Inr ?new"
    using assms(1) assms(2)
    by (simp add: unique_name_def names1 get_match_series_highest_def get_max_series_num_def
        max_series_skip_None)
  have d: "path = type_file cls ''DATA'' \<longrightarrow> data_step cls v ident suggested hf = (set_attr path ident ''name'' ?new ?hf1, Inr ())"
  proof
    assume p: "path = type_file cls ''DATA''"
    show "data_step cls v ident suggested hf = (set_attr path ident ''name'' ?new ?hf1, Inr ())"
      using assms(3) assms(4) un unfolding p by (simp add: data_step_def Let_def)
  qed
  have n: "path = ''/NODES'' \<and> v = PDict data \<longrightarrow> store_node ntype data ident suggested ct hf =
      (set_attr path ident ''type'' ntype (set_attr path ident ''name'' ?new ?hf1), Inr (Suc ct))"
  proof
    assume p: "path = ''/NODES'' \<and> v = PDict data"
    then have p1: "path = ''/NODES''" and p2: "v = PDict data" by simp_all
    show "store_node ntype data ident suggested ct hf =
      (set_attr path ident ''type'' ntype (set_attr path ident ''name'' ?new ?hf1), Inr (Suc ct))"
      using assms(3) assms(4) un unfolding p1 p2 by (simp add: store_node_def Let_def)
  qed
  have none: "map_of ?g ident = None"
    using assms(3) by (simp add: keys_def map_of_eq_None_iff)
  have m: "map_of (groups (set_attr path ident ''name'' ?new ?hf1) path) ident
      = Some \<lparr>ds_data = text, ds_attrs = [''name'' \<mapsto> ?new]\<rparr>"
    using none by (simp add: map_of_set_attr create_dataset_def with_attr_def map_add_def)
  have b2: "\<forall>s. Some s \<in> set (get_names ?g) \<and> s \<noteq> [] \<and>
              hd (split_on CHR ''.'' s) = hd (split_on CHR ''.'' suggested) \<and> length (split_on CHR ''.'' s) > 1 \<longrightarrow>
              (\<exists>i. py_int (split_on CHR ''.'' s ! 1) = Inr i \<and> i \<le> ms)"
    using b by blast
  have b3: "ms = 0 \<or>
          (\<exists>s. Some s \<in> set (get_names ?g) \<and>
               hd (split_on CHR ''.'' s) = hd (split_on CHR ''.'' suggested) \<and>
               py_int (split_on CHR ''.'' s ! 1) = Inr ms)"
    using b by blast
  have z1: "ms < 999 \<longrightarrow> length (zfill 3 (str_int (ms + 1))) = 3"
    and z2: "999 \<le> ms \<longrightarrow> zfill 3 (str_int (ms + 1)) = str_int (ms + 1) \<and> 3 < length (str_int (ms + 1))"
    using zfill_series [OF ms0] by blast+
  show ?thesis
    apply (intro conjI)
           apply (fact d)
          apply (fact n)
         apply (fact m)
        apply (fact ms0)
       apply (fact b2)
      apply (fact b3)
     apply (fact z1)
    apply (fact z2)
    done
qed

theorem inner_name_auto_suffix_witness:
  "Some ''Foo'' \<in> set (get_names (groups (named_store ''Foo'') ''/PRESETS/MATERIALS/DATA'')) \<and>
   get_max_series_num ''Foo'' (get_names (groups (named_store ''Foo'') ''/PRESETS/MATERIALS/DATA'')) = Inr 0 \<and>
   ''v2'' \<notin> set (keys (groups (named_store ''Foo'') ''/PRESETS/MATERIALS/DATA'')) \<and>
   json_text (PList []) = Inr (JsonText (PList [])) \<and>
   data_step Material (PList []) ''v2'' ''Foo'' (named_store ''Foo'') =
     (set_attr ''/PRESETS/MATERIALS/DATA'' ''v2'' ''name'' ''Foo.001''
        (create_dataset ''/PRESETS/MATERIALS/DATA'' ''v2'' (JsonText (PList [])) (named_store ''Foo'')), Inr ())"
proof -
  let ?p = "''/PRESETS/MATERIALS/DATA''"
  have names: "get_names (groups (named_store ''Foo'') ?p) = [Some ''Foo'']"
    by (simp add: named_store_def get_names_def)
  have a: "Some ''Foo'' \<in> set (get_names (groups (named_store ''Foo'') ?p))"
    by (simp add: names)
  have "get_max_series_num ''Foo'' [Some ''Foo''] = Inr 0" by code_simp
  then have b: "get_max_series_num ''Foo'' (get_names (groups (named_store ''Foo'') ?p)) = Inr 0"
    by (simp add: names)
  have c: "''v2'' \<notin> set (keys (groups (named_store ''Foo'') ?p))"
    by (simp add: named_store_def keys_def)
  have d: "json_text (PList []) = Inr (JsonText (PList []))"
    by (simp add: json_text_def)
  have e: "hd (split_on CHR ''.'' ''Foo'') @ ''.'' @ zfill 3 (str_int (0 + 1)) = ''Foo.001''"
    by code_simp
  have p: "?p = type_file Material ''DATA''" by (simp add: type_file_def)
  from inner_name_auto_suffix [OF a b c d, of Material]
  have "data_step Material (PList []) ''v2'' ''Foo'' (named_store ''Foo'') =
     (set_attr ?p ''v2'' ''name'' (hd (split_on CHR ''.'' ''Foo'') @ ''.'' @ zfill 3 (str_int (0 + 1)))
        (create_dataset ?p ''v2'' (JsonText (PList [])) (named_store ''Foo'')), Inr ())"
    using p by blast
  then show ?thesis using a b c d by (simp only: e) simp
qed

text \<open>
  The suffix is not always three digits: after \<^verbatim>\<open>Foo.999\<close> comes \<^verbatim>\<open>Foo.1000\<close>.
\<close>

theorem inner_name_four_digit_suffix:
  "ds_attrs (the (map_of (groups (fst (data_step Material (PList []) ''v2'' ''Foo.999'' (named_store ''Foo.999'')))
                          ''/PRESETS/MATERIALS/DATA'') ''v2'')) ''name'' = Some ''Foo.1000''"
proof -
  have "get_match_series_highest ''Foo.999'' [Some ''Foo.999'', None] = Inr ''Foo.1000''"
    by code_simp
  then show ?thesis
    by (simp add: data_step_def type_file_def named_store_def keys_def json_text_def Let_def
        unique_name_def create_dataset_def get_names_def map_of_set_attr with_attr_def)
qed

section \<open>Every step extends the store\<close>

lemma array_le_refl [simp]: "array_le d d"
  by (simp add: array_le_def)

lemma array_le_trans: "array_le a b \<Longrightarrow> array_le b c \<Longrightarrow> array_le a c"
  unfolding array_le_def by (metis subset_trans)

lemma extends_refl [simp]: "extends hf hf"
  by (auto simp: extends_def)

lemma extends_trans:
  assumes ab: "extends a b" and bc: "extends b c"
  shows "extends a c"
  unfolding extends_def
proof (intro conjI allI impI)
  fix p i d assume "p \<notin> link_paths" "map_of (groups a p) i = Some d"
  then show "map_of (groups c p) i = Some d"
    using ab bc unfolding extends_def by blast
next
  fix p i d assume p: "p \<in> link_paths" and m: "map_of (groups a p) i = Some d"
  from ab p m obtain d1 where d1: "map_of (groups b p) i = Some d1" "array_le d d1"
    unfolding extends_def by blast
  from bc p d1(1) obtain d2 where d2: "map_of (groups c p) i = Some d2" "array_le d1 d2"
    unfolding extends_def by blast
  from d1(2) d2 show "\<exists>d'. map_of (groups c p) i = Some d' \<and> array_le d d'"
    using array_le_trans by blast
next
  fix x ids assume m: "arrays a x = Some ids"
  from ab m obtain i1 where i1: "arrays b x = Some i1" "set ids \<subseteq> set i1"
    unfolding extends_def by blast
  from bc i1(1) obtain i2 where i2: "arrays c x = Some i2" "set i1 \<subseteq> set i2"
    unfolding extends_def by blast
  from i1(2) i2 show "\<exists>ids'. arrays c x = Some ids' \<and> set ids \<subseteq> set ids'"
    by blast
qed

lemma in_keys_iff: "i \<in> set (keys g) \<longleftrightarrow> map_of g i \<noteq> None"
  by (simp add: keys_def map_of_eq_None_iff)

lemma extends_keys: "extends hf hf' \<Longrightarrow> i \<in> set (keys (groups hf p)) \<Longrightarrow> i \<in> set (keys (groups hf' p))"
  unfolding in_keys_iff extends_def by (cases "p \<in> link_paths") fastforce+

lemma map_of_create_dataset:
  "map_of (groups (create_dataset p n t hf) q) i =
     (if q = p then (case map_of (groups hf p) i of
                       Some d \<Rightarrow> Some d
                     | None \<Rightarrow> if i = n then Some \<lparr>ds_data = t, ds_attrs = Map.empty\<rparr> else None)
      else map_of (groups hf q) i)"
  by (auto simp: create_dataset_def map_add_def split: option.splits)

lemma arrays_create_dataset [simp]: "arrays (create_dataset p n t hf) = arrays hf"
  by (simp add: create_dataset_def)

lemma keys_create_dataset:
  "keys (groups (create_dataset p n t hf) q) = (if q = p then keys (groups hf p) @ [n] else keys (groups hf q))"
  by (simp add: create_dataset_def keys_def)

lemma extends_create: "n \<notin> set (keys (groups hf p)) \<Longrightarrow> extends hf (create_dataset p n t hf)"
  by (auto simp: extends_def map_of_create_dataset in_keys_iff)

lemma extends_set_attr_new:
  "n \<notin> set (keys (groups hf p)) \<Longrightarrow> extends hf hf' \<Longrightarrow> extends hf (set_attr p n a v hf')"
  unfolding extends_def in_keys_iff
  by (auto simp: map_of_set_attr)

lemma map_of_set_data:
  "map_of (groups (set_data p n t hf) q) i =
     (if q = p \<and> i = n then map_option (with_data t) (map_of (groups hf q) i)
      else map_of (groups hf q) i)"
  by (simp add: set_data_def map_of_update_entry)

lemma arrays_set_data [simp]: "arrays (set_data p n t hf) = arrays hf"
  by (simp add: set_data_def)

lemma not_link_paths [simp]:
  "type_file cls ''INFO'' \<notin> link_paths" "type_file cls ''DATA'' \<notin> link_paths"
  "type_file cls ''TRANSACTIONS'' \<notin> link_paths" "''/NODES'' \<notin> link_paths"
  "''/NODE_STACK'' \<notin> link_paths"
  by (cases cls; simp add: type_file_def link_paths_def)+

lemma is_link_paths [simp]:
  "type_file cls ''FULL'' \<in> link_paths" "type_file cls ''VALUES'' \<in> link_paths"
  by (cases cls; simp add: type_file_def link_paths_def)+

lemma extends_bind:
  assumes "extends hf (fst r)" and "\<And>a hf'. extends hf' (fst (f a hf'))"
  shows "extends hf (fst (bind r f))"
proof (cases r)
  case (Pair hf1 res)
  show ?thesis
  proof (cases res)
    case (Inl e)
    with Pair assms(1) show ?thesis by (simp add: bind_def)
  next
    case (Inr a)
    with Pair have "fst (bind r f) = fst (f a hf1)" by (simp add: bind_def)
    with assms(1) assms(2) [of hf1 a] Pair show ?thesis
      by (auto intro: extends_trans)
  qed
qed

lemma extends_info_step: "extends hf (fst (info_step cls node_group name user gid hf))"
  by (auto simp: info_step_def Let_def split: sum.splits option.splits
      intro!: extends_set_attr_new extends_create)

lemma extends_data_step: "extends hf (fst (data_step cls v vid name hf))"
  by (auto simp: data_step_def Let_def split: sum.splits option.splits
      intro!: extends_set_attr_new extends_create)

lemma extends_store_node: "extends hf (fst (store_node ntype data nid suggested ct hf))"
  by (auto simp: store_node_def Let_def split: sum.splits option.splits
      intro!: extends_set_attr_new extends_create)

lemma extends_register_node: "extends hf (fst (register_node g nid hf))"
  by (auto simp: register_node_def extends_def split: option.splits)

lemma extends_node_loop:
  "extends hf (fst (node_loop cls sha node_group ntype abbr nodes ct nis hf))"
proof (induction nodes arbitrary: ct nis hf)
  case Nil
  show ?case by simp
next
  case (Cons node nodes)
  show ?case
    by (auto simp: split: sum.splits
        intro!: extends_bind extends_store_node extends_register_node Cons.IH)
qed

lemma extends_nodes_step:
  "extends hf (fst (nodes_step cls sha node_group ntd node_ids hf))"
proof (induction ntd arbitrary: node_ids hf)
  case Nil
  show ?case by simp
next
  case (Cons kv ntd)
  show ?case
    by (auto simp: split: sum.splits option.splits
        intro!: extends_bind extends_node_loop Cons.IH)
qed

lemma extends_node_stack_step: "extends hf (fst (node_stack_step sha node_ids hf))"
  by (auto simp: node_stack_step_def split: sum.splits intro!: extends_create)

lemma extends_transaction_step:
  "extends hf (fst (transaction_step cls sha gid vid ni pname hf))"
  by (auto simp: transaction_step_def split: sum.splits option.splits
      intro!: extends_set_attr_new extends_create)

lemma extends_append_id: "p \<in> link_paths \<Longrightarrow> extends hf (fst (append_id p n x hf))"
  by (auto simp: append_id_def extends_def map_of_set_data array_le_def with_data_def
      str_array_def split: sum.splits option.splits payload.splits)

lemma type_file_eq [simp]: "type_file cls a = type_file cls' b \<longleftrightarrow> cls = cls' \<and> a = b"
  by (cases cls; cases cls'; simp add: type_file_def)

lemma type_file_not_nodes [simp]:
  "type_file cls a \<noteq> ''/NODES''" "type_file cls a \<noteq> ''/NODE_STACK''"
  "''/NODES'' \<noteq> type_file cls a" "''/NODE_STACK'' \<noteq> type_file cls a"
  by (cases cls; simp add: type_file_def)+

lemma extends_links_step: "extends hf (fst (links_step cls gid vid pid hf))"
proof -
  have two: "extends hf (create_dataset (type_file cls ''VALUES'') gid (StrArray [vid])
           (create_dataset (type_file cls ''FULL'') gid (StrArray [pid]) hf))"
    if "gid \<notin> set (keys (groups hf (type_file cls ''VALUES'')))"
      "gid \<notin> set (keys (groups hf (type_file cls ''FULL'')))"
    using that
    by (intro extends_trans [OF extends_create extends_create]) (simp_all add: keys_create_dataset)
  show ?thesis
    unfolding links_step_def
    by (auto intro!: extends_bind extends_append_id extends_create two)
qed


lemma extends_import_node_loop: "extends hf (fst (import_node_loop ntype nodes ct hf))"
proof (induction nodes arbitrary: ct hf)
  case Nil
  show ?case by simp
next
  case (Cons node nodes)
  show ?case
    by (auto simp: Let_def split: sum.splits option.splits prod.splits
        intro!: extends_bind extends_register_node extends_set_attr_new extends_create Cons.IH)
qed

lemma extends_import_nodes_step: "extends hf (fst (import_nodes_step nodes hf))"
proof (induction nodes arbitrary: hf)
  case Nil
  show ?case by simp
next
  case (Cons kv nodes)
  show ?case
    by (auto split: option.splits intro!: extends_bind extends_import_node_loop Cons.IH)
qed

lemma extends_import_info_step: "extends hf (fst (import_info_step cls doc gid hf))"
  by (auto simp: import_info_step_def split: sum.splits
      intro!: extends_set_attr_new extends_create)

lemma extends_import_node_stack_step: "extends hf (fst (import_node_stack_step doc ni hf))"
  by (auto simp: import_node_stack_step_def split: sum.splits intro!: extends_create)

lemma extends_import_records:
  "extends hf (fst (import_records cls doc gid vid ni pid pname hf))"
  unfolding import_records_def
  by (intro extends_bind extends_import_info_step extends_data_step extends_import_nodes_step
      extends_import_node_stack_step extends_links_step) simp

lemma import_present:
  assumes "doc_id doc \<in> set (keys (groups hf (type_file cls ''TRANSACTIONS'')))"
  shows "fst (import_preset_data cls hf doc) = hf"
    and "3 \<le> length (doc_transaction doc) \<Longrightarrow>
         \<exists>d. map_of (groups hf (type_file cls ''TRANSACTIONS'')) (doc_id doc) = Some d \<and>
             snd (import_preset_data cls hf doc) = Inr (False, ds_attrs d ''name'')"
proof -
  show "fst (import_preset_data cls hf doc) = hf"
    using assms
    by (auto simp: import_preset_data_def Let_def split: sum.splits option.splits prod.splits)
  assume len: "3 \<le> length (doc_transaction doc)"
  from assms obtain d where d: "map_of (groups hf (type_file cls ''TRANSACTIONS'')) (doc_id doc) = Some d"
    by (auto simp: in_keys_iff)
  have ok: "\<exists>t. ebind (py_index (doc_transaction doc) (PInt 0)) (\<lambda>gid.
           ebind (py_index (doc_transaction doc) (PInt 1)) (\<lambda>values_id.
           ebind (py_index (doc_transaction doc) (PInt 2)) (\<lambda>ni_id.
             Inr (gid, values_id, ni_id)))) = Inr t"
    using len by (auto simp: ebind_def py_index_def Let_def)
  then show "\<exists>d. map_of (groups hf (type_file cls ''TRANSACTIONS'')) (doc_id doc) = Some d \<and>
             snd (import_preset_data cls hf doc) = Inr (False, ds_attrs d ''name'')"
    using assms d
    by (auto simp: import_preset_data_def Let_def split: sum.splits option.splits prod.splits)
qed

lemma import_twice:
  "fst (import_preset_data cls (fst (import_preset_data cls hf doc)) doc) = fst (import_preset_data cls hf doc) \<and>
   (\<forall>b n. snd (import_preset_data cls hf doc) = Inr (b, n) \<longrightarrow>
      snd (import_preset_data cls (fst (import_preset_data cls hf doc)) doc) = Inr (False, n))"
proof -
  let ?t = "type_file cls ''TRANSACTIONS''"
  let ?ids = "ebind (py_index (doc_transaction doc) (PInt 0)) (\<lambda>gid.
           ebind (py_index (doc_transaction doc) (PInt 1)) (\<lambda>values_id.
           ebind (py_index (doc_transaction doc) (PInt 2)) (\<lambda>ni_id.
             Inr (gid, values_id, ni_id))))"
  show ?thesis
  proof (cases ?ids)
    case (Inl e)
    then have "import_preset_data cls h doc = (h, Inl e)" for h
      by (simp add: import_preset_data_def)
    then show ?thesis by simp
  next
    case (Inr t)
    obtain gid vid ni where t: "t = (gid, vid, ni)" by (cases t) auto
    show ?thesis
    proof (cases "doc_id doc \<in> set (keys (groups hf ?t))")
      case True
      then obtain d where d: "map_of (groups hf ?t) (doc_id doc) = Some d"
        by (auto simp: in_keys_iff)
      with True Inr t have "import_preset_data cls hf doc = (hf, Inr (False, ds_attrs d ''name''))"
        by (simp add: import_preset_data_def Let_def)
      then show ?thesis by simp
    next
      case False
      show ?thesis
      proof (cases "unique_name ?t (doc_name doc) hf")
        case (Inl e)
        with False Inr t have "import_preset_data cls hf doc = (hf, Inl e)"
          by (simp add: import_preset_data_def Let_def)
        then show ?thesis by simp
      next
        case (Inr pname)
        let ?hf1 = "set_attr ?t (doc_id doc) ''name'' pname
                      (create_dataset ?t (doc_id doc) (StrRows [[gid, vid, ni]]) hf)"
        let ?r = "import_records cls doc gid vid ni (doc_id doc) pname ?hf1"
        have first: "import_preset_data cls hf doc = ?r"
          using False Inr \<open>?ids = Inr t\<close> t by (simp add: import_preset_data_def Let_def)
        have none: "map_of (groups hf ?t) (doc_id doc) = None"
          using False by (simp add: in_keys_iff)
        have m1: "map_of (groups ?hf1 ?t) (doc_id doc)
                    = Some \<lparr>ds_data = StrRows [[gid, vid, ni]], ds_attrs = [''name'' \<mapsto> pname]\<rparr>"
          using none by (simp add: map_of_set_attr map_of_create_dataset with_attr_def)
        have "extends ?hf1 (fst ?r)" by (rule extends_import_records)
        with m1 have m2: "map_of (groups (fst ?r) ?t) (doc_id doc)
                    = Some \<lparr>ds_data = StrRows [[gid, vid, ni]], ds_attrs = [''name'' \<mapsto> pname]\<rparr>"
          unfolding extends_def by simp
        then have k: "doc_id doc \<in> set (keys (groups (fst ?r) ?t))" by (simp add: in_keys_iff)
        have second: "import_preset_data cls (fst ?r) doc = (fst ?r, Inr (False, Some pname))"
          using k m2 \<open>?ids = Inr t\<close> t by (simp add: import_preset_data_def Let_def)
        have res: "snd ?r = Inr (b, n) \<longrightarrow> n = Some pname" for b n
          unfolding import_records_def bind_def
          by (auto split: prod.splits sum.splits)
        show ?thesis using first second res by auto
      qed
    qed
  qed
qed

text \<open>
  Claim C6. Importing a material or geometry-node document whose preset id is already in
  the transaction table changes nothing and returns \<^verbatim>\<open>False\<close> with the stored display
  name (for a document with its three transaction ids, as every exported one has).
  Importing a document a second time leaves the file as the first import left it, and
  where the first import returned a name the second returns \<^verbatim>\<open>False\<close> with that name.
\<close>

theorem import_idempotent:
  "(imp = import_mat_preset_data \<and> cls = Material) \<or> (imp = import_gn_preset_data \<and> cls = Geometry_Node) \<Longrightarrow>
   (doc_id doc \<in> set (keys (groups hf (type_file cls ''TRANSACTIONS''))) \<longrightarrow>
      fst (imp hf doc) = hf \<and>
      (3 \<le> length (doc_transaction doc) \<longrightarrow>
         (\<exists>d. map_of (groups hf (type_file cls ''TRANSACTIONS'')) (doc_id doc) = Some d \<and>
              snd (imp hf doc) = Inr (False, ds_attrs d ''name'')))) \<and>
   fst (imp (fst (imp hf doc)) doc) = fst (imp hf doc) \<and>
   (\<forall>b n. snd (imp hf doc) = Inr (b, n) \<longrightarrow> snd (imp (fst (imp hf doc)) doc) = Inr (False, n))"
proof -
  assume "(imp = import_mat_preset_data \<and> cls = Material) \<or> (imp = import_gn_preset_data \<and> cls = Geometry_Node)"
  then have imp: "imp = import_preset_data cls"
    by (auto simp: import_mat_preset_data_def import_gn_preset_data_def fun_eq_iff)
  show ?thesis
    unfolding imp
    using import_present [of doc hf cls] import_twice [of cls hf doc] by blast
qed

theorem import_idempotent_witness:
  "((import_gn_preset_data = import_mat_preset_data \<and> Geometry_Node = Material) \<or>
    (import_gn_preset_data = import_gn_preset_data \<and> Geometry_Node = Geometry_Node)) \<and>
   doc_id example_doc \<in> set (keys (groups (named_store ''Foo'') (type_file Geometry_Node ''TRANSACTIONS''))) \<and>
   3 \<le> length (doc_transaction example_doc) \<and>
   import_gn_preset_data (named_store ''Foo'') example_doc = (named_store ''Foo'', Inr (False, Some ''Foo'')) \<and>
   fst (import_gn_preset_data (fst (import_gn_preset_data create_preset_files example_doc)) example_doc)
     = fst (import_gn_preset_data create_preset_files example_doc)"
proof -
  have a: "(import_gn_preset_data = import_mat_preset_data \<and> Geometry_Node = Material) \<or>
    (import_gn_preset_data = import_gn_preset_data \<and> Geometry_Node = Geometry_Node)" by simp
  have b: "doc_id example_doc \<in> set (keys (groups (named_store ''Foo'') (type_file Geometry_Node ''TRANSACTIONS'')))"
    by (simp add: example_doc_def named_store_def keys_def)
  have c: "3 \<le> length (doc_transaction example_doc)" by (simp add: example_doc_def)
  have m: "map_of (groups (named_store ''Foo'') (type_file Geometry_Node ''TRANSACTIONS'')) (doc_id example_doc)
             = Some \<lparr>ds_data = JsonText (PDict []), ds_attrs = [''name'' \<mapsto> ''Foo'']\<rparr>"
    by (simp add: example_doc_def named_store_def)
  note t1 = import_idempotent [OF a, of example_doc "named_store ''Foo''"]
  note t2 = import_idempotent [OF a, of example_doc create_preset_files]
  have "import_gn_preset_data (named_store ''Foo'') example_doc = (named_store ''Foo'', Inr (False, Some ''Foo''))"
    using t1 b c m by (cases "import_gn_preset_data (named_store ''Foo'') example_doc") auto
  then show ?thesis using a b c t2 by simp
qed

section \<open>The structural scan depends on the topology only\<close>

lemma shape_sel [simp]:
  "node_type (shape f n) = node_type n" "node_ident (shape f n) = f (node_ident n)"
  "group_nodes (shape f n) = map (shape f) (group_nodes n)"
  "group_links (shape f n) = map (map_prod f f) (group_links n)"
  by (cases n; simp)+

lemma node_scan_shape:
  "node_scan (map (shape f) ns) (nd_rename f nd) idx i = nd_rename f (node_scan ns nd idx i)"
proof (induction ns nd idx i rule: node_scan.induct)
  case (1 nd index i)
  show ?case by simp
next
  case (2 node nodes nd index i)
  let ?nd1 = "nd\<lparr>nd_indices := nd_indices nd @ [index @ [i]],
                   nd_nodes := nd_nodes nd @ [node_ident node],
                   nd_types := nd_types nd @ [node_type node]\<rparr>"
  have r1: "(nd_rename f nd)\<lparr>nd_indices := nd_indices (nd_rename f nd) @ [index @ [i]],
                   nd_nodes := nd_nodes (nd_rename f nd) @ [f (node_ident node)],
                   nd_types := nd_types (nd_rename f nd) @ [node_type node]\<rparr> = nd_rename f ?nd1"
    by (simp add: nd_rename_def)
  show ?case
  proof (cases "node_type node = ''GROUP''")
    case True
    show ?thesis
      using 2(1) [OF refl refl True] 2(2) [OF refl refl refl] True
      by (simp add: Let_def r1 [simplified True])
  next
    case False
    show ?thesis
      using 2(2) [OF refl refl refl] False
      by (simp add: Let_def r1)
  qed
qed

lemma last_index_inj:
  "inj f \<Longrightarrow> last_index (map f ns) (f x) i found = last_index ns x i found"
  by (induction ns arbitrary: i found) (auto simp: inj_eq)

lemma link_scan_links_shape:
  "inj f \<Longrightarrow> link_scan_links (map (map_prod f f) links) (nd_rename f nd)
     = map_sum id (nd_rename f) (link_scan_links links nd)"
proof (induction links arbitrary: nd)
  case Nil
  show ?case by simp
next
  case (Cons l links)
  have r: "(nd_rename f nd)\<lparr>nd_links := nd_links (nd_rename f nd) @ [x]\<rparr>
             = nd_rename f (nd\<lparr>nd_links := nd_links nd @ [x]\<rparr>)" for x
    by (simp add: nd_rename_def)
  have n: "nd_nodes (nd_rename f nd) = map f (nd_nodes nd)" "nd_indices (nd_rename f nd) = nd_indices nd"
    "nd_links (nd_rename f nd) = nd_links nd"
    by (simp_all add: nd_rename_def)
  show ?case
    using Cons.IH [OF Cons.prems] Cons.prems
    by (cases l) (auto simp: n last_index_inj r [simplified n] split: option.splits)
qed

lemma node_link_scan_shape:
  "inj f \<Longrightarrow> node_link_scan (shape_tree f t) (nd_rename f nd) = map_sum id (nd_rename f) (node_link_scan t nd)"
  "inj f \<Longrightarrow> node_link_scan_groups (map (shape f) ns) (nd_rename f nd)
     = map_sum id (nd_rename f) (node_link_scan_groups ns nd)"
proof (induction t nd and ns nd rule: node_link_scan_node_link_scan_groups.induct)
  case (1 node_group nd)
  show ?case
    using 1 by (auto simp: shape_tree_def link_scan_links_shape split: sum.splits)
next
  case (2 nd)
  show ?case by simp
next
  case (3 node nodes nd)
  have st: "(map (shape f) (group_nodes node), map (map_prod f f) (group_links node))
              = shape_tree f (group_nodes node, group_links node)"
    by (simp add: shape_tree_def)
  show ?case
    using 3 by (auto simp: st split: sum.splits)
qed

lemma get_all_nodes_shape: "inj f \<Longrightarrow> get_all_nodes (shape_tree f t) = get_all_nodes t"
proof -
  assume f: "inj f"
  let ?nd0 = "\<lparr>nd_indices = [], nd_types = [], nd_links = [], nd_nodes = []\<rparr>"
  have z: "nd_rename f ?nd0 = ?nd0" by (simp add: nd_rename_def)
  have s: "node_scan (fst (shape_tree f t)) ?nd0 [] 0 = nd_rename f (node_scan (fst t) ?nd0 [] 0)"
    using node_scan_shape [of f "fst t" ?nd0 "[]" 0] by (simp add: z shape_tree_def)
  show ?thesis
    unfolding get_all_nodes_def Let_def s node_link_scan_shape(1) [OF f]
    by (cases "node_link_scan t (node_scan (fst t) ?nd0 [] 0)") (simp_all add: nd_rename_def)
qed

lemma same_topology_scan: "same_topology t1 t2 \<Longrightarrow> get_all_nodes t1 = get_all_nodes t2"
  unfolding same_topology_def using get_all_nodes_shape by metis

section \<open>Saving again\<close>

lemma bind_eq_Inr:
  "bind r f = (hf', Inr b) \<longleftrightarrow> (\<exists>hf1 a. r = (hf1, Inr a) \<and> f a hf1 = (hf', Inr b))"
  by (cases r; cases "snd r") (auto simp: bind_def)


lemma json_value_node_type_dict:
  "json_value (PDict (node_type_dict t c)) = PDict (node_type_dict t c)"
  by (simp add: node_type_dict_def path_val_def comp_def)


lemma serializable_node_type_dict: "serializable (PDict (node_type_dict t c))"
  by (auto simp: node_type_dict_def path_val_def)


lemma extends_map_of:
  "extends hf hf' \<Longrightarrow> p \<notin> link_paths \<Longrightarrow> map_of (groups hf p) i = Some d \<Longrightarrow> map_of (groups hf' p) i = Some d"
  unfolding extends_def by blast


lemma info_step_stable:
  assumes "info_step cls tree name user gid hf = (hfA, Inr ntd)" and "extends hfA hf'"
  shows "info_step cls tree name user gid hf' = (hf', Inr ntd)"
proof -
  let ?p = "type_file cls ''INFO''"
  have "\<exists>d. map_of (groups hfA ?p) gid = Some d \<and> loads (ds_data d) = Inr ntd"
  proof (cases "gid \<in> set (keys (groups hf ?p))")
    case True
    then obtain d where d: "map_of (groups hf ?p) gid = Some d" by (auto simp: in_keys_iff)
    with True assms(1) show ?thesis by (auto simp: info_step_def)
  next
    case False
    then have none: "map_of (groups hf ?p) gid = None" by (simp add: in_keys_iff)
    from False assms(1) show ?thesis
      by (auto simp: info_step_def Let_def json_text_def serializable_node_type_dict
          json_value_node_type_dict map_of_set_attr map_of_create_dataset none loads_def with_attr_def
          simp del: json_value.simps serializable.simps)
  qed
  then obtain d where d: "map_of (groups hfA ?p) gid = Some d" "loads (ds_data d) = Inr ntd" by blast
  from extends_map_of [OF assms(2) _ d(1)] have d': "map_of (groups hf' ?p) gid = Some d" by simp
  then have "gid \<in> set (keys (groups hf' ?p))" by (simp add: in_keys_iff)
  with d' d(2) show ?thesis by (simp add: info_step_def)
qed


lemma data_step_stable:
  assumes "data_step cls v vid name hf = (hfB, Inr u)" and "extends hfB hf'"
  shows "data_step cls v vid name' hf' = (hf', Inr ())"
proof -
  let ?p = "type_file cls ''DATA''"
  have "vid \<in> set (keys (groups hfB ?p))"
    using assms(1)
    by (auto simp: data_step_def Let_def keys_create_dataset split: if_splits sum.splits)
  then have "vid \<in> set (keys (groups hf' ?p))" using assms(2) by (rule extends_keys [rotated])
  then show ?thesis by (simp add: data_step_def)
qed


lemma store_node_stable:
  assumes "store_node ntype data nid suggested ct hf = (hfa, Inr ct1)" and "extends hfa hf'"
  shows "store_node ntype data nid suggested' ct' hf' = (hf', Inr ct')"
proof -
  have "nid \<in> set (keys (groups hfa ''/NODES''))"
    using assms(1)
    by (auto simp: store_node_def Let_def keys_create_dataset split: if_splits sum.splits)
  then have "nid \<in> set (keys (groups hf' ''/NODES''))" using assms(2) by (rule extends_keys [rotated])
  then show ?thesis by (simp add: store_node_def)
qed


lemma extends_arrays:
  "extends hf hf' \<Longrightarrow> arrays hf a = Some ids \<Longrightarrow> \<exists>ids'. arrays hf' a = Some ids' \<and> set ids \<subseteq> set ids'"
  unfolding extends_def by blast


lemma register_node_stable:
  assumes "register_node g nid hf = (hfb, Inr u)" and "extends hfb hf'"
  shows "register_node g nid hf' = (hf', Inr ())"
proof -
  have "\<exists>ids. arrays hfb g = Some ids \<and> nid \<in> set ids"
    using assms(1) by (auto simp: register_node_def split: option.splits if_splits)
  then obtain ids where "arrays hfb g = Some ids" "nid \<in> set ids" by blast
  with extends_arrays [OF assms(2)] obtain ids' where "arrays hf' g = Some ids'" "nid \<in> set ids'"
    by blast
  then show ?thesis by (simp add: register_node_def)
qed


lemma extends_fst: "f hf = (hf1, r) \<Longrightarrow> extends hf (fst (f hf)) \<Longrightarrow> extends hf hf1"
  by simp


lemma node_loop_stable:
  assumes "node_loop cls sha tree ntype abbr nodes ct nis hf = (hf1, Inr out)" and "extends hf1 hf'"
  shows "node_loop cls sha tree ntype abbr nodes ct' nis hf' = (hf', Inr out)"
  using assms
proof (induction nodes arbitrary: ct ct' nis hf)
  case Nil
  then show ?case by simp
next
  case (Cons node nodes)
  from Cons.prems(1) obtain n data nid hfa ct1 hfb u where
    n: "get_special_node cls tree node = Inr n" and
    data: "get_nodes_func ntype n = Inr data" and
    nid: "hash_dict sha 1024 data = Inr nid" and
    st: "store_node ntype data nid (abbr @ ''_'' @ str_nat ct) ct hf = (hfa, Inr ct1)" and
    rg: "register_node (''/PRESETS/'' @ ntype) nid hfa = (hfb, Inr u)" and
    rest: "node_loop cls sha tree ntype abbr nodes ct1 (nis @ [nid]) hfb = (hf1, Inr out)"
    by (auto simp: bind_eq_Inr split: sum.splits)
  have e1: "extends hfb hf1"
    using extends_node_loop [of hfb cls sha tree ntype abbr nodes ct1 "nis @ [nid]"] rest by simp
  have e2: "extends hfa hfb"
    using extends_register_node [of hfa "''/PRESETS/'' @ ntype" nid] rg by simp
  have b': "extends hfb hf'" using e1 Cons.prems(2) by (rule extends_trans)
  have a': "extends hfa hf'" using e2 b' by (rule extends_trans)
  have s': "store_node ntype data nid (abbr @ ''_'' @ str_nat ct') ct' hf' = (hf', Inr ct')"
    using st a' by (rule store_node_stable)
  have r': "register_node (''/PRESETS/'' @ ntype) nid hf' = (hf', Inr ())"
    using rg b' by (rule register_node_stable)
  have l': "node_loop cls sha tree ntype abbr nodes ct' (nis @ [nid]) hf' = (hf', Inr out)"
    using rest Cons.prems(2) by (rule Cons.IH)
  show ?case using n data nid s' r' l' by (simp add: bind_def)
qed


lemma nodes_step_stable:
  assumes "nodes_step cls sha tree ntd acc hf = (hf1, Inr out)" and "extends hf1 hf'"
  shows "nodes_step cls sha tree ntd acc hf' = (hf', Inr out)"
  using assms
proof (induction ntd arbitrary: acc hf)
  case Nil
  then show ?case by simp
next
  case (Cons kv ntd)
  from Cons.prems(1) obtain abbr ids nodes hfa nis where
    ab: "node_type_abbr_dict (fst kv) = Some abbr" and
    ar: "arrays hf (''/PRESETS/'' @ fst kv) = Some ids" and
    nl: "as_list (snd kv) = Inr nodes" and
    lp: "node_loop cls sha tree (fst kv) abbr nodes (length ids) [] hf = (hfa, Inr nis)" and
    rest: "nodes_step cls sha tree ntd (dict_update acc (fst kv) (PList (map PStr nis))) hfa = (hf1, Inr out)"
    by (auto simp: bind_eq_Inr split: sum.splits option.splits)
  have e0: "extends hf hfa"
    using extends_node_loop [of hf cls sha tree "fst kv" abbr nodes "length ids" "[]"] lp by simp
  have e1: "extends hfa hf1"
    using extends_nodes_step [of hfa cls sha tree ntd "dict_update acc (fst kv) (PList (map PStr nis))"] rest
    by simp
  have a': "extends hfa hf'" using e1 Cons.prems(2) by (rule extends_trans)
  have h': "extends hf hf'" using e0 a' by (rule extends_trans)
  from extends_arrays [OF h' ar] obtain ids' where ar': "arrays hf' (''/PRESETS/'' @ fst kv) = Some ids'"
    by blast
  have l': "node_loop cls sha tree (fst kv) abbr nodes (length ids') [] hf' = (hf', Inr nis)"
    using lp a' by (rule node_loop_stable)
  have r': "nodes_step cls sha tree ntd (dict_update acc (fst kv) (PList (map PStr nis))) hf' = (hf', Inr out)"
    using rest Cons.prems(2) by (rule Cons.IH)
  show ?case using ab ar' nl l' r' by (simp add: bind_def)
qed


lemma node_stack_step_stable:
  assumes "node_stack_step sha node_ids hf = (hfD, Inr ni)" and "extends hfD hf'"
  shows "node_stack_step sha node_ids hf' = (hf', Inr ni)"
proof -
  have "hash_dict sha 1024 node_ids = Inr ni \<and> ni \<in> set (keys (groups hfD ''/NODE_STACK''))"
    using assms(1)
    by (auto simp: node_stack_step_def keys_create_dataset split: if_splits sum.splits)
  then have h: "hash_dict sha 1024 node_ids = Inr ni" and k: "ni \<in> set (keys (groups hfD ''/NODE_STACK''))"
    by simp_all
  from k have "ni \<in> set (keys (groups hf' ''/NODE_STACK''))" using assms(2) by (rule extends_keys [rotated])
  with h show ?thesis by (simp add: node_stack_step_def)
qed


lemma transaction_step_stable:
  assumes "transaction_step cls sha gid vid ni pname hf = (hfE, Inr (pid, shown))" and "extends hfE hf'"
  shows "transaction_step cls sha gid vid ni pname' hf' = (hf', Inr (pid, shown))"
proof -
  let ?p = "type_file cls ''TRANSACTIONS''"
  have h: "hash_list sha 1024 [PStr gid, PStr vid, PStr ni] = Inr pid"
    using assms(1) by (auto simp: transaction_step_def split: if_splits sum.splits option.splits)
  have "\<exists>d. map_of (groups hfE ?p) pid = Some d \<and> ds_attrs d ''name'' = shown"
  proof (cases "pid \<in> set (keys (groups hf ?p))")
    case True
    with assms(1) h show ?thesis by (auto simp: transaction_step_def split: option.splits)
  next
    case False
    then have none: "map_of (groups hf ?p) pid = None" by (simp add: in_keys_iff)
    from False assms(1) h show ?thesis
      by (auto simp: transaction_step_def map_of_set_attr map_of_create_dataset none with_attr_def)
  qed
  then obtain d where d: "map_of (groups hfE ?p) pid = Some d" "ds_attrs d ''name'' = shown" by blast
  from extends_map_of [OF assms(2) _ d(1)] have d': "map_of (groups hf' ?p) pid = Some d" by simp
  then have "pid \<in> set (keys (groups hf' ?p))" by (simp add: in_keys_iff)
  with d' d(2) h show ?thesis by (simp add: transaction_step_def)
qed


lemma linked_extends:
  assumes "linked hf p n x" and "p \<in> link_paths" and "extends hf hf'"
  shows "linked hf' p n x"
proof -
  from assms(1) obtain d xs where d: "map_of (groups hf p) n = Some d" "ds_data d = StrArray xs" "x \<in> set xs"
    unfolding linked_def by blast
  from assms(3) assms(2) d(1) obtain d' where d': "map_of (groups hf' p) n = Some d'" "array_le d d'"
    unfolding extends_def by blast
  from d'(2) d(2) obtain ys where "ds_data d' = StrArray ys" "set xs \<subseteq> set ys"
    unfolding array_le_def by blast
  with d' d(3) show ?thesis unfolding linked_def by blast
qed

lemma linked_append_id: "linked hf p n x \<Longrightarrow> append_id p n x hf = (hf, Inr False)"
  by (auto simp: linked_def append_id_def str_array_def)


lemma append_id_linked:
  assumes "append_id p n x hf = (hf1, Inr b)"
  shows "linked hf1 p n x"
proof -
  from assms obtain d where d: "map_of (groups hf p) n = Some d"
    by (cases "map_of (groups hf p) n") (auto simp: append_id_def)
  from assms d obtain xs where xs: "ds_data d = StrArray xs"
    by (cases "ds_data d") (auto simp: append_id_def str_array_def)
  show ?thesis
  proof (cases "x \<in> set xs")
    case True
    with assms d xs have "hf1 = hf" by (simp add: append_id_def str_array_def)
    with d xs True show ?thesis unfolding linked_def by blast
  next
    case False
    with assms d xs have hf1: "hf1 = set_data p n (StrArray (xs @ [x])) hf"
      by (simp add: append_id_def str_array_def)
    have "map_of (groups hf1 p) n = Some (with_data (StrArray (xs @ [x])) d)"
      unfolding hf1 using d by (simp add: map_of_set_data)
    then show ?thesis unfolding linked_def by (simp add: with_data_def)
  qed
qed

lemma linked_keys: "linked hf p n x \<Longrightarrow> n \<in> set (keys (groups hf p))"
  by (auto simp: linked_def in_keys_iff)


lemma links_step_linked:
  assumes "links_step cls gid vid pid hf = (hfF, Inr saved)"
  shows "linked hfF (type_file cls ''FULL'') gid pid \<and> linked hfF (type_file cls ''VALUES'') gid vid"
proof (cases "gid \<in> set (keys (groups hf (type_file cls ''FULL'')))")
  case False
  then have n1: "map_of (groups hf (type_file cls ''FULL'')) gid = None" by (simp add: in_keys_iff)
  from False assms have nv: "gid \<notin> set (keys (groups hf (type_file cls ''VALUES'')))"
    by (auto simp: links_step_def split: if_splits)
  then have n2: "map_of (groups hf (type_file cls ''VALUES'')) gid = None" by (simp add: in_keys_iff)
  from False nv assms have hfF: "hfF = create_dataset (type_file cls ''VALUES'') gid (StrArray [vid])
              (create_dataset (type_file cls ''FULL'') gid (StrArray [pid]) hf)"
    by (auto simp: links_step_def)
  show ?thesis
    unfolding hfF linked_def by (simp add: map_of_create_dataset n1 n2)
next
  case True
  with assms obtain hf1 b1 b2 where
    a1: "append_id (type_file cls ''FULL'') gid pid hf = (hf1, Inr b1)" and
    a2: "append_id (type_file cls ''VALUES'') gid vid hf1 = (hfF, Inr b2)"
    by (auto simp: links_step_def bind_eq_Inr)
  have l1: "linked hf1 (type_file cls ''FULL'') gid pid" using a1 by (rule append_id_linked)
  have l2: "linked hfF (type_file cls ''VALUES'') gid vid" using a2 by (rule append_id_linked)
  have "extends hf1 hfF"
    using extends_append_id [of "type_file cls ''VALUES''" hf1 gid vid] a2 by simp
  with l1 have "linked hfF (type_file cls ''FULL'') gid pid" by (simp add: linked_extends)
  with l2 show ?thesis by simp
qed


lemma links_step_stable:
  assumes "links_step cls gid vid pid hf = (hfF, Inr saved)" and "extends hfF hf'"
  shows "links_step cls gid vid pid hf' = (hf', Inr False)"
proof -
  have l1: "linked hf' (type_file cls ''FULL'') gid pid" and l2: "linked hf' (type_file cls ''VALUES'') gid vid"
    using links_step_linked [OF assms(1)] assms(2) by (auto intro: linked_extends)
  from l1 have k: "gid \<in> set (keys (groups hf' (type_file cls ''FULL'')))" by (rule linked_keys)
  show ?thesis
    using k linked_append_id [OF l1] linked_append_id [OF l2]
    by (simp add: links_step_def bind_def)
qed


lemma preset_processing_again:
  assumes first: "preset_processing cls sha hf tree name v vhash pname user = (hf1, Inr (saved, shown))"
    and fresh: "Some pname' \<notin> set (get_names (groups hf1 (type_file cls ''TRANSACTIONS'')))"
  shows "preset_processing cls sha hf1 tree name v vhash pname' user = (hf1, Inr (False, shown))"
proof -
  from first have nm: "Some pname \<notin> set (get_names (groups hf (type_file cls ''TRANSACTIONS'')))"
    unfolding preset_processing_def by (auto split: if_splits)
  from first nm obtain scan where scan: "get_all_nodes tree = Inr scan"
    unfolding preset_processing_def by (cases "get_all_nodes tree") auto
  from first nm scan obtain gid where gid: "hash_dict sha 1024 scan = Inr gid"
    unfolding preset_processing_def by (cases "hash_dict sha 1024 scan") auto
  from first nm scan gid obtain vid where vid: "vhash = Inr vid"
    unfolding preset_processing_def by (cases vhash) auto
  let ?k5 = "\<lambda>trans hf. bind (links_step cls gid vid (fst trans) hf) (\<lambda>preset_saved hf.
               (hf, Inr (preset_saved, snd trans)))"
  let ?k4 = "\<lambda>ni_id hf. bind (transaction_step cls sha gid vid ni_id pname hf) ?k5"
  let ?k3 = "\<lambda>node_ids hf. bind (node_stack_step sha node_ids hf) ?k4"
  let ?k2 = "\<lambda>ntd (_::unit) hf. bind (case as_dict ntd of
                     Inl e \<Rightarrow> (hf, Inl e)
                   | Inr items \<Rightarrow> nodes_step cls sha tree items [] hf) ?k3"
  let ?k1 = "\<lambda>ntd hf. bind (data_step cls v vid pname hf) (?k2 ntd)"
  have chain: "bind (info_step cls tree name user gid hf) ?k1 = (hf1, Inr (saved, shown))"
    using first nm scan gid vid unfolding preset_processing_def by simp
  from chain obtain hfA ntd where
    s1: "info_step cls tree name user gid hf = (hfA, Inr ntd)" and
    c1: "bind (data_step cls v vid pname hfA) (?k2 ntd) = (hf1, Inr (saved, shown))"
    unfolding bind_eq_Inr [of "info_step cls tree name user gid hf"] by blast
  from c1 obtain hfB u where
    s2: "data_step cls v vid pname hfA = (hfB, Inr u)" and
    c2: "bind (case as_dict ntd of Inl e \<Rightarrow> (hfB, Inl e)
               | Inr items \<Rightarrow> nodes_step cls sha tree items [] hfB) ?k3 = (hf1, Inr (saved, shown))"
    unfolding bind_eq_Inr [of "data_step cls v vid pname hfA"] by blast
  from c2 obtain items where items: "as_dict ntd = Inr items"
    by (cases "as_dict ntd") (auto simp: bind_def)
  from c2 items obtain hfC node_ids where
    s3: "nodes_step cls sha tree items [] hfB = (hfC, Inr node_ids)" and
    c3: "bind (node_stack_step sha node_ids hfC) ?k4 = (hf1, Inr (saved, shown))"
    by (auto simp: bind_eq_Inr [of "nodes_step cls sha tree items [] hfB"])
  from c3 obtain hfD ni where
    s4: "node_stack_step sha node_ids hfC = (hfD, Inr ni)" and
    c4: "bind (transaction_step cls sha gid vid ni pname hfD) ?k5 = (hf1, Inr (saved, shown))"
    unfolding bind_eq_Inr [of "node_stack_step sha node_ids hfC"] by blast
  from c4 obtain hfE trans where
    s5': "transaction_step cls sha gid vid ni pname hfD = (hfE, Inr trans)" and
    c5: "bind (links_step cls gid vid (fst trans) hfE) (\<lambda>preset_saved hf.
               (hf, Inr (preset_saved, snd trans))) = (hf1, Inr (saved, shown))"
    unfolding bind_eq_Inr [of "transaction_step cls sha gid vid ni pname hfD"] by blast
  from c5 have s6': "links_step cls gid vid (fst trans) hfE = (hf1, Inr saved)" and sh: "snd trans = shown"
    by (auto simp: bind_eq_Inr)
  obtain pid where tr: "trans = (pid, shown)" using sh by (cases trans) auto
  have s5: "transaction_step cls sha gid vid ni pname hfD = (hfE, Inr (pid, shown))"
    using s5' tr by simp
  have s6: "links_step cls gid vid pid hfE = (hf1, Inr saved)"
    using s6' tr by simp
  have e6: "extends hfE hf1" using extends_links_step [of hfE cls gid vid pid] s6 by simp
  have e5: "extends hfD hfE" using extends_transaction_step [of hfD cls sha gid vid ni pname] s5 by simp
  have e4: "extends hfC hfD" using extends_node_stack_step [of hfC sha node_ids] s4 by simp
  have e3: "extends hfB hfC" using extends_nodes_step [of hfB cls sha tree items "[]"] s3 by simp
  have e2: "extends hfA hfB" using extends_data_step [of hfA cls v vid pname] s2 by simp
  have xE: "extends hfE hf1" by (rule e6)
  have xD: "extends hfD hf1" using e5 xE by (rule extends_trans)
  have xC: "extends hfC hf1" using e4 xD by (rule extends_trans)
  have xB: "extends hfB hf1" using e3 xC by (rule extends_trans)
  have xA: "extends hfA hf1" using e2 xB by (rule extends_trans)
  note t1 = info_step_stable [OF s1 xA]
  note t2 = data_step_stable [OF s2 xB, of pname']
  note t3 = nodes_step_stable [OF s3 xC]
  note t4 = node_stack_step_stable [OF s4 xD]
  note t5 = transaction_step_stable [OF s5 xE, of pname']
  note t6 = links_step_stable [OF s6 extends_refl]
  show ?thesis
    unfolding preset_processing_def
    using fresh scan gid vid items t1 t2 t3 t4 t5 t6
    by (simp add: bind_def)
qed

section \<open>Each step writes to its own tables\<close>

lemma groups_create_dataset_other: "q \<noteq> p \<Longrightarrow> groups (create_dataset p n t hf) q = groups hf q"
  by (simp add: create_dataset_def)

lemma groups_set_data_other: "q \<noteq> p \<Longrightarrow> groups (set_data p n t hf) q = groups hf q"
  by (simp add: set_data_def)

lemma frame_bind:
  assumes "groups (fst r) p = groups hf p" and "\<And>a hf'. groups (fst (f a hf')) p = groups hf' p"
  shows "groups (fst (bind r f)) p = groups hf p"
proof (cases r)
  case (Pair hf1 res)
  show ?thesis
  proof (cases res)
    case (Inl e)
    with Pair assms(1) show ?thesis by (simp add: bind_def)
  next
    case (Inr a)
    with Pair have "fst (bind r f) = fst (f a hf1)" by (simp add: bind_def)
    with assms(1) assms(2) [of a hf1] Pair show ?thesis by simp
  qed
qed

lemma frame_info_step:
  "p \<noteq> type_file cls ''INFO'' \<Longrightarrow> groups (fst (info_step cls t name user gid hf)) p = groups hf p"
  by (simp add: info_step_def Let_def groups_create_dataset_other split: sum.splits option.splits)

lemma frame_data_step:
  "p \<noteq> type_file cls ''DATA'' \<Longrightarrow> groups (fst (data_step cls v vid name hf)) p = groups hf p"
  by (simp add: data_step_def Let_def groups_create_dataset_other split: sum.splits option.splits)

lemma frame_store_node:
  "p \<noteq> ''/NODES'' \<Longrightarrow> groups (fst (store_node ntype data nid suggested ct hf)) p = groups hf p"
  by (simp add: store_node_def Let_def groups_create_dataset_other split: sum.splits option.splits)

lemma frame_register_node: "groups (fst (register_node g nid hf)) p = groups hf p"
  by (simp add: register_node_def split: option.splits)

lemma frame_node_loop:
  "p \<noteq> ''/NODES'' \<Longrightarrow> groups (fst (node_loop cls sha t ntype abbr nodes ct nis hf)) p = groups hf p"
proof (induction nodes arbitrary: ct nis hf)
  case Nil
  show ?case by simp
next
  case (Cons node nodes)
  show ?case
    by (auto simp: Cons frame_store_node frame_register_node split: sum.splits
        intro!: frame_bind)
qed

lemma frame_nodes_step:
  "p \<noteq> ''/NODES'' \<Longrightarrow> groups (fst (nodes_step cls sha t ntd node_ids hf)) p = groups hf p"
proof (induction ntd arbitrary: node_ids hf)
  case Nil
  show ?case by simp
next
  case (Cons kv ntd)
  show ?case
    by (auto simp: Cons frame_node_loop split: sum.splits option.splits intro!: frame_bind)
qed

lemma frame_node_stack_step:
  "p \<noteq> ''/NODE_STACK'' \<Longrightarrow> groups (fst (node_stack_step sha node_ids hf)) p = groups hf p"
  by (simp add: node_stack_step_def groups_create_dataset_other split: sum.splits)

lemma frame_transaction_step:
  "p \<noteq> type_file cls ''TRANSACTIONS'' \<Longrightarrow>
   groups (fst (transaction_step cls sha gid vid ni pname hf)) p = groups hf p"
  by (simp add: transaction_step_def groups_create_dataset_other split: sum.splits option.splits)

lemma frame_append_id: "p \<noteq> q \<Longrightarrow> groups (fst (append_id q n x hf)) p = groups hf p"
  by (simp add: append_id_def groups_set_data_other split: sum.splits option.splits)

lemma frame_links_step:
  "p \<noteq> type_file cls ''FULL'' \<Longrightarrow> p \<noteq> type_file cls ''VALUES'' \<Longrightarrow>
   groups (fst (links_step cls gid vid pid hf)) p = groups hf p"
  by (auto simp: links_step_def groups_create_dataset_other frame_append_id intro!: frame_bind)

section \<open>Saving the same state twice\<close>

lemma preset_processing_steps:
  assumes first: "preset_processing cls sha hf tree name v vhash pname user = (hf1, Inr (saved, shown))"
  obtains scan gid vid hfA ntd hfB items hfC node_ids hfD ni hfE pid where
    "Some pname \<notin> set (get_names (groups hf (type_file cls ''TRANSACTIONS'')))"
    "get_all_nodes tree = Inr scan" "hash_dict sha 1024 scan = Inr gid" "vhash = Inr vid"
    "info_step cls tree name user gid hf = (hfA, Inr ntd)"
    "data_step cls v vid pname hfA = (hfB, Inr ())"
    "as_dict ntd = Inr items"
    "nodes_step cls sha tree items [] hfB = (hfC, Inr node_ids)"
    "node_stack_step sha node_ids hfC = (hfD, Inr ni)"
    "transaction_step cls sha gid vid ni pname hfD = (hfE, Inr (pid, shown))"
    "links_step cls gid vid pid hfE = (hf1, Inr saved)"
proof -
  from first have nm: "Some pname \<notin> set (get_names (groups hf (type_file cls ''TRANSACTIONS'')))"
    unfolding preset_processing_def by (auto split: if_splits)
  from first nm obtain scan where scan: "get_all_nodes tree = Inr scan"
    unfolding preset_processing_def by (cases "get_all_nodes tree") auto
  from first nm scan obtain gid where gid: "hash_dict sha 1024 scan = Inr gid"
    unfolding preset_processing_def by (cases "hash_dict sha 1024 scan") auto
  from first nm scan gid obtain vid where vid: "vhash = Inr vid"
    unfolding preset_processing_def by (cases vhash) auto
  let ?k5 = "\<lambda>trans hf. bind (links_step cls gid vid (fst trans) hf) (\<lambda>preset_saved hf.
               (hf, Inr (preset_saved, snd trans)))"
  let ?k4 = "\<lambda>ni_id hf. bind (transaction_step cls sha gid vid ni_id pname hf) ?k5"
  let ?k3 = "\<lambda>node_ids hf. bind (node_stack_step sha node_ids hf) ?k4"
  let ?k2 = "\<lambda>ntd (_::unit) hf. bind (case as_dict ntd of
                     Inl e \<Rightarrow> (hf, Inl e)
                   | Inr items \<Rightarrow> nodes_step cls sha tree items [] hf) ?k3"
  let ?k1 = "\<lambda>ntd hf. bind (data_step cls v vid pname hf) (?k2 ntd)"
  have chain: "bind (info_step cls tree name user gid hf) ?k1 = (hf1, Inr (saved, shown))"
    using first nm scan gid vid unfolding preset_processing_def by simp
  from chain obtain hfA ntd where
    s1: "info_step cls tree name user gid hf = (hfA, Inr ntd)" and
    c1: "bind (data_step cls v vid pname hfA) (?k2 ntd) = (hf1, Inr (saved, shown))"
    unfolding bind_eq_Inr [of "info_step cls tree name user gid hf"] by blast
  from c1 obtain hfB u where
    s2: "data_step cls v vid pname hfA = (hfB, Inr u)" and
    c2: "bind (case as_dict ntd of Inl e \<Rightarrow> (hfB, Inl e)
               | Inr items \<Rightarrow> nodes_step cls sha tree items [] hfB) ?k3 = (hf1, Inr (saved, shown))"
    unfolding bind_eq_Inr [of "data_step cls v vid pname hfA"] by blast
  from c2 obtain items where items: "as_dict ntd = Inr items"
    by (cases "as_dict ntd") (auto simp: bind_def)
  from c2 items obtain hfC node_ids where
    s3: "nodes_step cls sha tree items [] hfB = (hfC, Inr node_ids)" and
    c3: "bind (node_stack_step sha node_ids hfC) ?k4 = (hf1, Inr (saved, shown))"
    by (auto simp: bind_eq_Inr [of "nodes_step cls sha tree items [] hfB"])
  from c3 obtain hfD ni where
    s4: "node_stack_step sha node_ids hfC = (hfD, Inr ni)" and
    c4: "bind (transaction_step cls sha gid vid ni pname hfD) ?k5 = (hf1, Inr (saved, shown))"
    unfolding bind_eq_Inr [of "node_stack_step sha node_ids hfC"] by blast
  from c4 obtain hfE trans where
    s5': "transaction_step cls sha gid vid ni pname hfD = (hfE, Inr trans)" and
    c5: "bind (links_step cls gid vid (fst trans) hfE) (\<lambda>preset_saved hf.
               (hf, Inr (preset_saved, snd trans))) = (hf1, Inr (saved, shown))"
    unfolding bind_eq_Inr [of "transaction_step cls sha gid vid ni pname hfD"] by blast
  from c5 have s6': "links_step cls gid vid (fst trans) hfE = (hf1, Inr saved)" and sh: "snd trans = shown"
    by (auto simp: bind_eq_Inr)
  obtain pid where tr: "trans = (pid, shown)" using sh by (cases trans) auto
  have s5: "transaction_step cls sha gid vid ni pname hfD = (hfE, Inr (pid, shown))"
    using s5' tr by simp
  have s6: "links_step cls gid vid pid hfE = (hf1, Inr saved)"
    using s6' tr by simp
  from s2 have s2u: "data_step cls v vid pname hfA = (hfB, Inr ())" by simp
  show thesis
    by (rule that [OF nm scan gid vid s1 s2u items s3 s4 s5 s6])
qed

lemma type_file_neq [simp]:
  "type_file cls a \<noteq> ''/NODES''" "type_file cls a \<noteq> ''/NODE_STACK''"
  "''/NODES'' \<noteq> type_file cls a" "''/NODE_STACK'' \<noteq> type_file cls a"
  by (auto simp: type_file_def split: asset_class.splits)

lemma name_in_get_names:
  "map_of g i = Some d \<Longrightarrow> ds_attrs d ''name'' \<in> set (get_names g)"
  by (induction g) (auto simp: get_names_def split: if_splits)

text \<open>After a save the transaction table holds the proposed name exactly when the save
  returned it as the display name.\<close>

lemma saved_name_in_table:
  assumes first: "preset_processing cls sha hf tree name v vhash pname user = (hf1, Inr (saved, shown))"
  shows "Some pname \<in> set (get_names (groups hf1 (type_file cls ''TRANSACTIONS''))) \<longleftrightarrow> shown = Some pname"
proof -
  let ?p = "type_file cls ''TRANSACTIONS''"
  from first obtain scan gid vid hfA ntd hfB items hfC node_ids hfD ni hfE pid where
    nm: "Some pname \<notin> set (get_names (groups hf ?p))" and
    s1: "info_step cls tree name user gid hf = (hfA, Inr ntd)" and
    s2: "data_step cls v vid pname hfA = (hfB, Inr ())" and
    s3: "nodes_step cls sha tree items [] hfB = (hfC, Inr node_ids)" and
    s4: "node_stack_step sha node_ids hfC = (hfD, Inr ni)" and
    s5: "transaction_step cls sha gid vid ni pname hfD = (hfE, Inr (pid, shown))" and
    s6: "links_step cls gid vid pid hfE = (hf1, Inr saved)"
    by (rule preset_processing_steps)
  have "groups hfA ?p = groups hf ?p"
    using frame_info_step [of ?p cls tree name user gid hf] s1 by simp
  moreover have "groups hfB ?p = groups hfA ?p"
    using frame_data_step [of ?p cls v vid pname hfA] s2 by simp
  moreover have "groups hfC ?p = groups hfB ?p"
    using frame_nodes_step [of ?p cls sha tree items "[]" hfB] s3 by simp
  moreover have "groups hfD ?p = groups hfC ?p"
    using frame_node_stack_step [of ?p sha node_ids hfC] s4 by simp
  ultimately have gD: "groups hfD ?p = groups hf ?p" by simp
  have gE: "groups hf1 ?p = groups hfE ?p"
    using frame_links_step [of ?p cls gid vid pid hfE] s6 by simp
  have h: "hash_list sha 1024 [PStr gid, PStr vid, PStr ni] = Inr pid"
    using s5 by (auto simp: transaction_step_def split: if_splits sum.splits option.splits)
  show ?thesis
  proof (cases "pid \<in> set (keys (groups hfD ?p))")
    case True
    with s5 h obtain d where d: "map_of (groups hfD ?p) pid = Some d" "shown = ds_attrs d ''name''" "hfE = hfD"
      by (auto simp: transaction_step_def split: option.splits)
    from name_in_get_names [OF d(1)] d(2) have "shown \<in> set (get_names (groups hfD ?p))" by simp
    with nm gD have "shown \<noteq> Some pname" by auto
    moreover from gE d(3) gD nm have "Some pname \<notin> set (get_names (groups hf1 ?p))" by simp
    ultimately show ?thesis by simp
  next
    case False
    then have none: "map_of (groups hfD ?p) pid = None" by (simp add: in_keys_iff)
    from False s5 h have sh: "shown = Some pname"
      by (auto simp: transaction_step_def)
    from False s5 h have "\<exists>d. map_of (groups hfE ?p) pid = Some d \<and> ds_attrs d ''name'' = Some pname"
      by (auto simp: transaction_step_def map_of_set_attr map_of_create_dataset none with_attr_def)
    then obtain d where d: "map_of (groups hfE ?p) pid = Some d" "ds_attrs d ''name'' = Some pname" by blast
    from name_in_get_names [OF d(1)] d(2) gE have "Some pname \<in> set (get_names (groups hf1 ?p))" by simp
    with sh show ?thesis by simp
  qed
qed

lemma preset_processing_same_name:
  assumes first: "preset_processing cls sha hf tree name v vhash pname user = (hf1, Inr (saved, shown))"
  shows "preset_processing cls sha hf1 tree name v vhash pname user =
           (if shown = Some pname then (hf1, Inl NameExistsError) else (hf1, Inr (False, shown)))"
proof (cases "shown = Some pname")
  case True
  with saved_name_in_table [OF first]
  have "Some pname \<in> set (get_names (groups hf1 (type_file cls ''TRANSACTIONS'')))" by simp
  with True show ?thesis by (simp add: preset_processing_def)
next
  case False
  with saved_name_in_table [OF first]
  have "Some pname \<notin> set (get_names (groups hf1 (type_file cls ''TRANSACTIONS'')))" by simp
  from preset_processing_again [OF first this] False show ?thesis by simp
qed

lemma first_save_node_group:
  "snd (geometry_node_preset_processing sha create_preset_files color_group ''Foo'' ''USER'')
     = Inr (True, Some ''Foo'') \<and>
   get_names (groups (fst (geometry_node_preset_processing sha create_preset_files color_group ''Foo'' ''USER''))
                ''/PRESETS/GEOMETRY_NODES/TRANSACTIONS'') = [Some ''Foo'']"
  by (simp add: eval_defs Let_def)

lemma first_save_material:
  "snd (material_preset_processing sha create_preset_files skin_material ''Foo'' ''USER'')
     = Inr (True, Some ''Foo'') \<and>
   get_names (groups (fst (material_preset_processing sha create_preset_files skin_material ''Foo'' ''USER''))
                ''/PRESETS/MATERIALS/TRANSACTIONS'') = [Some ''Foo'']"
  by (simp add: eval_defs material_preset_processing_def skin_material_def Let_def)


text \<open>
  Claim C1, amended. Saving the same state again changes nothing in the file and creates no
  record. Under the proposed name of the first save it raises \<^verbatim>\<open>NameExistsError\<close> when
  the first save stored the transaction under that name (it returned the name as display
  name), and returns \<^verbatim>\<open>False\<close> with the display name of the first save otherwise; under
  a name that is not in the transaction table it returns \<^verbatim>\<open>False\<close> with that display
  name.
\<close>

theorem save_again_same_state:
  "(material_preset_processing sha hf material preset_name user = (hf1, Inr (saved, shown)) \<longrightarrow>
      material_preset_processing sha hf1 material preset_name user =
        (if shown = Some preset_name then (hf1, Inl NameExistsError) else (hf1, Inr (False, shown))) \<and>
      (Some other_name \<notin> set (get_names (groups hf1 ''/PRESETS/MATERIALS/TRANSACTIONS'')) \<longrightarrow>
         material_preset_processing sha hf1 material other_name user = (hf1, Inr (False, shown)))) \<and>
   (geometry_node_preset_processing sha hf node_group preset_name user = (hf2, Inr (saved, shown)) \<longrightarrow>
      geometry_node_preset_processing sha hf2 node_group preset_name user =
        (if shown = Some preset_name then (hf2, Inl NameExistsError) else (hf2, Inr (False, shown))) \<and>
      (Some other_name \<notin> set (get_names (groups hf2 ''/PRESETS/GEOMETRY_NODES/TRANSACTIONS'')) \<longrightarrow>
         geometry_node_preset_processing sha hf2 node_group other_name user = (hf2, Inr (False, shown))))"
  unfolding material_preset_processing_def geometry_node_preset_processing_def
  using preset_processing_same_name [of Material sha hf _ _ _ _ preset_name user hf1 saved shown]
    preset_processing_again [of Material sha hf _ _ _ _ preset_name user hf1 saved shown other_name]
    preset_processing_same_name [of Geometry_Node sha hf _ _ _ _ preset_name user hf2 saved shown]
    preset_processing_again [of Geometry_Node sha hf _ _ _ _ preset_name user hf2 saved shown other_name]
  by (simp add: type_file_def)

theorem save_again_same_state_witness:
  "material_preset_processing (\<lambda>s. s) create_preset_files skin_material ''Foo'' ''USER''
     = (fst (material_preset_processing (\<lambda>s. s) create_preset_files skin_material ''Foo'' ''USER''),
        Inr (True, Some ''Foo'')) \<and>
   Some ''Bar'' \<notin> set (get_names (groups
       (fst (material_preset_processing (\<lambda>s. s) create_preset_files skin_material ''Foo'' ''USER''))
       ''/PRESETS/MATERIALS/TRANSACTIONS'')) \<and>
   material_preset_processing (\<lambda>s. s)
       (fst (material_preset_processing (\<lambda>s. s) create_preset_files skin_material ''Foo'' ''USER''))
       skin_material ''Bar'' ''USER''
     = (fst (material_preset_processing (\<lambda>s. s) create_preset_files skin_material ''Foo'' ''USER''),
        Inr (False, Some ''Foo'')) \<and>
   geometry_node_preset_processing (\<lambda>s. s) create_preset_files color_group ''Foo'' ''USER''
     = (fst (geometry_node_preset_processing (\<lambda>s. s) create_preset_files color_group ''Foo'' ''USER''),
        Inr (True, Some ''Foo'')) \<and>
   Some ''Bar'' \<notin> set (get_names (groups
       (fst (geometry_node_preset_processing (\<lambda>s. s) create_preset_files color_group ''Foo'' ''USER''))
       ''/PRESETS/GEOMETRY_NODES/TRANSACTIONS'')) \<and>
   geometry_node_preset_processing (\<lambda>s. s)
       (fst (geometry_node_preset_processing (\<lambda>s. s) create_preset_files color_group ''Foo'' ''USER''))
       color_group ''Bar'' ''USER''
     = (fst (geometry_node_preset_processing (\<lambda>s. s) create_preset_files color_group ''Foo'' ''USER''),
        Inr (False, Some ''Foo''))"
proof -
  let ?m = "material_preset_processing (\<lambda>s. s) create_preset_files skin_material ''Foo'' ''USER''"
  let ?g = "geometry_node_preset_processing (\<lambda>s. s) create_preset_files color_group ''Foo'' ''USER''"
  have m: "?m = (fst ?m, Inr (True, Some ''Foo''))"
    using first_save_material [of "\<lambda>s. s"] by (simp add: prod_eq_iff)
  have mn: "Some ''Bar'' \<notin> set (get_names (groups (fst ?m) ''/PRESETS/MATERIALS/TRANSACTIONS''))"
    using first_save_material [of "\<lambda>s. s"] by simp
  have g: "?g = (fst ?g, Inr (True, Some ''Foo''))"
    using first_save_node_group [of "\<lambda>s. s"] by (simp add: prod_eq_iff)
  have gn: "Some ''Bar'' \<notin> set (get_names (groups (fst ?g) ''/PRESETS/GEOMETRY_NODES/TRANSACTIONS''))"
    using first_save_node_group [of "\<lambda>s. s"] by simp
  note inst = save_again_same_state [of "\<lambda>s. s" create_preset_files skin_material "''Foo''" "''USER''"
      "fst ?m" True "Some ''Foo''" "''Bar''" color_group "fst ?g"]
  from inst m mn have a: "material_preset_processing (\<lambda>s. s) (fst ?m) skin_material ''Bar'' ''USER''
     = (fst ?m, Inr (False, Some ''Foo''))" by blast
  from inst g gn have b: "geometry_node_preset_processing (\<lambda>s. s) (fst ?g) color_group ''Bar'' ''USER''
     = (fst ?g, Inr (False, Some ''Foo''))" by blast
  show ?thesis using m mn a g gn b by (intro conjI)
qed

text \<open>
  The claim as stated fails: a node group saved as \<^verbatim>\<open>Foo\<close> into a new file is created
  under that name, and saving the unchanged node group as \<^verbatim>\<open>Foo\<close> again raises
  \<^verbatim>\<open>NameExistsError\<close>; likewise for a material. This holds for every digest function.
\<close>

theorem save_again_same_name_fails:
  "\<forall>sha.
     snd (geometry_node_preset_processing sha create_preset_files color_group ''Foo'' ''USER'')
       = Inr (True, Some ''Foo'') \<and>
     snd (geometry_node_preset_processing sha
            (fst (geometry_node_preset_processing sha create_preset_files color_group ''Foo'' ''USER''))
            color_group ''Foo'' ''USER'') = Inl NameExistsError \<and>
     snd (material_preset_processing sha create_preset_files skin_material ''Foo'' ''USER'')
       = Inr (True, Some ''Foo'') \<and>
     snd (material_preset_processing sha
            (fst (material_preset_processing sha create_preset_files skin_material ''Foo'' ''USER''))
            skin_material ''Foo'' ''USER'') = Inl NameExistsError"
proof
  fix sha
  let ?m = "material_preset_processing sha create_preset_files skin_material ''Foo'' ''USER''"
  let ?g = "geometry_node_preset_processing sha create_preset_files color_group ''Foo'' ''USER''"
  have m: "snd ?m = Inr (True, Some ''Foo'')"
    and mn: "Some ''Foo'' \<in> set (get_names (groups (fst ?m) ''/PRESETS/MATERIALS/TRANSACTIONS''))"
    using first_save_material [of sha] by simp_all
  have g: "snd ?g = Inr (True, Some ''Foo'')"
    and gn: "Some ''Foo'' \<in> set (get_names (groups (fst ?g) ''/PRESETS/GEOMETRY_NODES/TRANSACTIONS''))"
    using first_save_node_group [of sha] by simp_all
  have m2: "snd (material_preset_processing sha (fst ?m) skin_material ''Foo'' ''USER'') = Inl NameExistsError"
    using mn by (simp add: material_preset_processing_def preset_processing_def type_file_def)
  have g2: "snd (geometry_node_preset_processing sha (fst ?g) color_group ''Foo'' ''USER'') = Inl NameExistsError"
    using gn by (simp add: geometry_node_preset_processing_def preset_processing_def type_file_def)
  show "snd ?g = Inr (True, Some ''Foo'') \<and>
     snd (geometry_node_preset_processing sha (fst ?g) color_group ''Foo'' ''USER'') = Inl NameExistsError \<and>
     snd ?m = Inr (True, Some ''Foo'') \<and>
     snd (material_preset_processing sha (fst ?m) skin_material ''Foo'' ''USER'') = Inl NameExistsError"
    using m m2 g g2 by (intro conjI)
qed

end
